theory Spec2Isabelle
  imports Complex_Main
begin

section \<open>Numbers and JavaScript primitives\<close>

text \<open>
  JavaScript numbers are modelled as \<^typ>\<open>real\<close>: every theorem below is about the
  arithmetic the code writes down, not about IEEE-754 rounding. A value the code tests
  with \<open>isNaN\<close> is an \<^typ>\<open>real option\<close> with \<open>None\<close> for NaN. An exception
  that the code can throw is the value \<open>Inl TypeError\<close>. A division by zero is
  \<open>Infinity\<close>, \<open>-Infinity\<close> or NaN in the code and 0 in \<^typ>\<open>real\<close>; where a definition
  below divides by a number that can be zero and does not treat that case apart, its
  comment says so, and the model follows the code only while that divisor is not zero.
\<close>

datatype error = TypeError

definition js_round :: "real \<Rightarrow> real" where
  \<comment> \<open>\<open>Math.round\<close>: the nearest integer, a tie going up.\<close>
  "js_round x = of_int \<lfloor>x + 1 / 2\<rfloor>"

definition toFixed2 :: "real \<Rightarrow> real" where
  \<comment> \<open>\<open>parseFloat(x.toFixed(2))\<close>: two decimals, a tie going away from zero.\<close>
  "toFixed2 x = (if x < 0 then - (of_int \<lfloor>(- x) * 100 + 1 / 2\<rfloor> / 100)
                 else of_int \<lfloor>x * 100 + 1 / 2\<rfloor> / 100)"

section \<open>Data model\<close>

datatype PlaylistLevelType = MAIN | AUDIO | SUBTITLE

datatype SeqNum = Sn int | InitSegment
  \<comment> \<open>\<open>frag.sn\<close>: a number, or the string \<open>'initSegment'\<close>.\<close>

record TimeData =
  timestamp :: real
  td_len :: real

record LoaderStats =
  aborted :: bool
  loaded :: real
  total :: real
  bwEstimate :: real
  loading_start :: real
  loading_end :: real
  parsing_end :: real
  startTimeData :: "TimeData list"
  endTimeData :: "TimeData list"
  boxLoaded :: real

record Fragment =
  ftype :: PlaylistLevelType
  sn :: SeqNum
  level :: nat
  duration :: real
  start :: real
  bitrateTest :: bool
  hasLoader :: bool
  stats :: LoaderStats

record Part =
  part_stats :: LoaderStats
  part_duration :: real
  part_index :: nat

record Level =
  bitrate :: real
  maxBitrate :: real
  codecSet :: "string option"
  details_live :: "bool option"
  details_type :: "string option"
  details_partTarget :: real
  details_averagetargetduration :: real

record BufferInfo =
  buf_len :: real
  buf_end :: real

record Media =
  currentTime :: real
  playbackRate :: real
  paused :: bool
  seeking :: bool
  readyState :: nat

text \<open>
  The player object as the controllers read it. \<open>bufferInfo\<close> is what
  \<open>BufferHelper.bufferInfo(media, pos, config.maxBufferHole)\<close> returns (the helper is
  not part of the sources); \<open>bandwidthEstimate = None\<close> is NaN; \<open>latency = 0\<close> and
  \<open>targetLatency = None\<close> (the value \<open>null\<close>, which is 0 in arithmetic) are the falsy
  values the code tests for. The fields from \<open>abrEwmaDefaultEstimate\<close> to
  \<open>maxLoadingDelay\<close> are those of \<open>hls.config\<close>.
\<close>

record Hls =
  levels :: "Level list"
  media :: "Media option"
  bufferInfo :: BufferInfo
  bandwidthEstimate :: "real option"
  abrEwmaDefaultEstimate :: real
  abrBandWidthFactor :: real
  abrBandWidthUpFactor :: real
  maxStarvationDelay :: real
  maxLoadingDelay :: real
  latency :: real
  targetLatency :: "real option"
  isLive :: bool
  autoLevelEnabled :: bool
  minAutoLevel :: int
  maxAutoLevel :: int

definition HLSThroughput :: "Hls \<Rightarrow> real" where
  \<comment> \<open>\<open>!isNaN(hls.bandwidthEstimate) ? hls.bandwidthEstimate / 1000.0
        : config.abrEwmaDefaultEstimate / 1000.0\<close>\<close>
  "HLSThroughput hls =
     (case bandwidthEstimate hls of
        Some bw \<Rightarrow> bw / 1000
      | None \<Rightarrow> abrEwmaDefaultEstimate hls / 1000)"

definition js_reduce :: "(real \<Rightarrow> real \<Rightarrow> real) \<Rightarrow> real list \<Rightarrow> error + real" where
  \<comment> \<open>\<open>arr.reduce(f)\<close> without an initial value: it starts from the first element,
      and throws a TypeError on the empty array.\<close>
  "js_reduce f arr = (case arr of [] \<Rightarrow> Inl TypeError | x # xs \<Rightarrow> Inr (foldl f x xs))"

definition js_lt_at :: "real \<Rightarrow> real list \<Rightarrow> nat \<Rightarrow> bool" where
  \<comment> \<open>\<open>x < xs[i]\<close>: false when \<open>xs[i]\<close> is undefined.\<close>
  "js_lt_at x xs i = (i < length xs \<and> x < xs ! i)"

definition js_gt_at :: "real \<Rightarrow> real list \<Rightarrow> nat \<Rightarrow> bool" where
  \<comment> \<open>\<open>x > xs[i]\<close>: false when \<open>xs[i]\<close> is undefined.\<close>
  "js_gt_at x xs i = (i < length xs \<and> xs ! i < x)"

section \<open>Llama rule (LlamaRule.ts)\<close>

record LlamaABR =
  ll_fragCurrent :: "Fragment option"
  ll_currentQuality :: nat
  ll_sn0 :: SeqNum
  ll_harmonicMeanQ :: "real list"

definition THROUGHPUT_SAFETY_FACTOR :: real where
  "THROUGHPUT_SAFETY_FACTOR = 1"

definition HARMONIC_MEAN_SIZE :: nat where
  "HARMONIC_MEAN_SIZE = 10"

definition MIN_BUFFER_LEVEL :: real where
  "MIN_BUFFER_LEVEL = - 1"

definition LlamaABR_new :: "Fragment option \<Rightarrow> nat \<Rightarrow> error + LlamaABR" where
  \<comment> \<open>The constructor: \<open>this.sn0 = this.fragCurrent.sn\<close> throws on a null fragment.\<close>
  "LlamaABR_new fragCurrent currentQuality =
     (case fragCurrent of
        None \<Rightarrow> Inl TypeError
      | Some f \<Rightarrow>
          Inr \<lparr>ll_fragCurrent = fragCurrent, ll_currentQuality = currentQuality,
               ll_sn0 = sn f, ll_harmonicMeanQ = []\<rparr>)"

definition LlamaABR_update :: "Fragment option \<Rightarrow> nat \<Rightarrow> LlamaABR \<Rightarrow> error + LlamaABR" where
  "LlamaABR_update fragCurrent currentQuality r =
     (let r' = r\<lparr>ll_fragCurrent := fragCurrent, ll_currentQuality := currentQuality\<rparr> in
      case ll_sn0 r of
        Sn s0 \<Rightarrow> Inr r'
      | InitSegment \<Rightarrow>
          (case fragCurrent of
             None \<Rightarrow> Inl TypeError
           | Some f \<Rightarrow> Inr (r'\<lparr>ll_sn0 := sn f\<rparr>)))"

definition pushSample :: "nat \<Rightarrow> real \<Rightarrow> real list \<Rightarrow> real list" where
  \<comment> \<open>\<open>q.push(x); if (q.length > size) q.shift();\<close>\<close>
  "pushSample n x q = (let q' = q @ [x] in if length q' > n then tl q' else q')"

definition llama_harmonicMean :: "real list \<Rightarrow> error + real" where
  \<comment> \<open>\<open>1 / (harmonicMeanQ.reduce((a, b) => a + 1 / b) / sampleSize)\<close> times the
      safety factor.\<close>
  "llama_harmonicMean q =
     (case js_reduce (\<lambda>a b. a + 1 / b) q of
        Inl e \<Rightarrow> Inl e
      | Inr s \<Rightarrow> Inr (1 / (s / real (length q)) * THROUGHPUT_SAFETY_FACTOR))"

definition llama_decide :: "real list \<Rightarrow> nat \<Rightarrow> real \<Rightarrow> real \<Rightarrow> real \<Rightarrow> nat" where
  \<comment> \<open>Lines 85-105: the switch-down / switch-up / hold decision.\<close>
  "llama_decide bitrates currentQuality lastThroughput harmonicMean bufferLevel =
     (let bitrateCount = length bitrates;
          higherQuality = (if currentQuality + 1 < bitrateCount then currentQuality + 1
                           else currentQuality);
          lowerQuality = (if int currentQuality - 1 > 0 then currentQuality - 1
                          else currentQuality)
      in if js_lt_at lastThroughput bitrates currentQuality then lowerQuality
         else if js_gt_at harmonicMean bitrates higherQuality \<and>
                 js_gt_at lastThroughput bitrates higherQuality \<and>
                 bufferLevel \<ge> MIN_BUFFER_LEVEL then higherQuality
         else currentQuality)"

definition llama_measure :: "Hls \<Rightarrow> Fragment \<Rightarrow> LlamaABR \<Rightarrow> error + nat \<times> LlamaABR" where
  \<comment> \<open>Lines 63-105, once the warm-up test has passed. The divisors
      \<open>throughputMeasureTime\<close>, \<open>throughput\<close> and those of \<open>llama_harmonicMean\<close> can be
      zero; the model follows the code only while they are not.\<close>
  "llama_measure hls f r =
     (let throughputMeasureTime = loading_end (stats f) - loading_start (stats f);
          downloadBytes = loaded (stats f);
          throughput = js_round ((8 * downloadBytes) / throughputMeasureTime);
          q = pushSample HARMONIC_MEAN_SIZE (1 / throughput) (ll_harmonicMeanQ r)
      in case llama_harmonicMean q of
           Inl e \<Rightarrow> Inl e
         | Inr harmonicMean \<Rightarrow>
             (let lastThroughput = HLSThroughput hls * THROUGHPUT_SAFETY_FACTOR;
                  bitrates = map (\<lambda>b. bitrate b / 1000) (levels hls);
                  bufferLevel = toFixed2 (buf_len (bufferInfo hls))
              in Inr (llama_decide bitrates (ll_currentQuality r) lastThroughput harmonicMean
                        bufferLevel,
                      r\<lparr>ll_harmonicMeanQ := q\<rparr>)))"

definition llama_getMaxIndex :: "Hls \<Rightarrow> LlamaABR \<Rightarrow> error + nat \<times> LlamaABR" where
  \<comment> \<open>\<open>LlamaABR.getMaxIndex\<close>. The test \<open>!bufferStateVO\<close> of the source is never true
      (\<open>bufferInfo\<close> returns an object, and \<open>bufferStateVO.len\<close> is read before it).\<close>
  "llama_getMaxIndex hls r =
     (let mediaType = (case ll_fragCurrent r of None \<Rightarrow> MAIN | Some f \<Rightarrow> ftype f) in
      if mediaType = AUDIO then Inr (ll_currentQuality r, r)
      else
        case ll_sn0 r of
          InitSegment \<Rightarrow> Inr (0, r)
        | Sn s0 \<Rightarrow>
            (case ll_fragCurrent r of
               None \<Rightarrow> Inl TypeError
             | Some f \<Rightarrow>
                 (case sn f of
                    InitSegment \<Rightarrow> llama_measure hls f r
                  | Sn s \<Rightarrow>
                      if \<bar>s - s0\<bar> < 5 then Inr (0, r)
                      else llama_measure hls f r)))"

definition decision :: "error + nat \<times> 's \<Rightarrow> nat option" where
  \<comment> \<open>The quality a rule call returned, if it returned.\<close>
  "decision res = (case res of Inl e \<Rightarrow> None | Inr (q, s) \<Rightarrow> Some q)"

section \<open>L2A-LL rule (L2ARule.ts)\<close>

definition L2A_STATE_ONE_BITRATE :: nat where "L2A_STATE_ONE_BITRATE = 0"
definition L2A_STATE_STARTUP :: nat where "L2A_STATE_STARTUP = 1"
definition L2A_STATE_STEADY :: nat where "L2A_STATE_STEADY = 2"

text \<open>The fields a seek resets to NaN are options, \<open>None\<close> for NaN.\<close>

record l2AState =
  l2a_state :: nat
  l2a_bitrates :: "real list"
  abrQuality :: nat
  lastQuality :: nat
  lastSegmentStart :: "real option"
  lastSegmentDurationS :: "real option"
  lastSegmentRequestTimeMs :: "real option"
  lastSegmentFinishTimeMs :: "real option"
  mostAdvancedSegmentStart :: "real option"
  lastSegmentWasReplacement :: bool
  placeholderBuffer :: real

record l2AParameters =
  Q :: real
  w :: "real list"
  prev_w :: "real list"
  B_target :: real
  segment_request_start_s :: real
  segment_download_finish_s :: real

record L2ARule =
  l2_fragCurrent :: "Fragment option"
  l2_currentQuality :: nat
  l2AStateDict :: "PlaylistLevelType \<rightharpoonup> l2AState"
  l2AParameterDict :: "PlaylistLevelType \<rightharpoonup> l2AParameters"

definition dotmultiplication :: "real list \<Rightarrow> real list \<Rightarrow> real" where
  \<comment> \<open>\<open>_dotmultiplication\<close>: -1 on arrays of different lengths.\<close>
  "dotmultiplication arr1 arr2 =
     (if length arr1 \<noteq> length arr2 then - 1
      else foldl (\<lambda>sumdot i. sumdot + arr1 ! i * arr2 ! i) 0 [0..<length arr1])"

function proj_loop :: "real list \<Rightarrow> nat \<Rightarrow> real \<Rightarrow> real \<Rightarrow> bool \<times> real \<times> real" where
  \<comment> \<open>The first loop of \<open>euclideanProjection\<close> over the sorted array \<open>s\<close>, from index
      \<open>ii\<close>: the result is \<open>(bget, tmpsum, tmax)\<close> when the loop is left.\<close>
  "proj_loop s ii tmpsum tmax =
     (if ii + 1 < length s then
        (let tmpsum' = tmpsum + s ! ii;
             tmax' = (tmpsum' - 1) / (real ii + 1)
         in if tmax' \<ge> s ! (ii + 1) then (True, tmpsum', tmax')
            else proj_loop s (ii + 1) tmpsum' tmax')
      else (False, tmpsum, tmax))"
  by pat_completeness auto
termination
  by (relation "measure (\<lambda>(s, ii, tmpsum, tmax). length s - ii)") auto

declare proj_loop.simps [simp del]

definition euclideanProjection :: "real list \<Rightarrow> real list" where
  \<comment> \<open>\<open>arr.sort((a, b) => b - a)\<close> is the array in descending order; \<open>arr2\<close> is the
      copy taken before the sort. On the empty array \<open>s[m - 1]\<close> is not read into the
      result, which is empty.\<close>
  "euclideanProjection arr =
     (let m = length arr;
          arr2 = arr;
          s = rev (sort arr);
          (bget, tmpsum, tmax0) = proj_loop s 0 0 0;
          tmax = (if \<not> bget then (tmpsum + s ! (m - 1) - 1) / real m else tmax0)
      in map (\<lambda>a. max (a - tmax) 0) arr2)"

primrec scanLadder :: "real list \<Rightarrow> real \<Rightarrow> nat \<Rightarrow> nat" where
  \<comment> \<open>\<open>for (let i = n - 1; i >= 0; i--) if (bitrate * 1000 >= bitrateList[i]) return i;
      return 0;\<close> with \<open>n\<close> levels still to look at.\<close>
  "scanLadder bitrateList br 0 = 0"
| "scanLadder bitrateList br (Suc i) =
     (if br * 1000 \<ge> bitrateList ! i then i else scanLadder bitrateList br i)"

definition qualityForBitrate :: "Hls \<Rightarrow> real \<Rightarrow> nat" where
  \<comment> \<open>The tail both \<open>getQualityForBitrate\<close> variants share.\<close>
  "qualityForBitrate hls br =
     (let bitrateList = map bitrate (levels hls)
      in scanLadder bitrateList br (length bitrateList))"

definition targetLatencyOr0 :: "Hls \<Rightarrow> real" where
  \<comment> \<open>\<open>hls.targetLatency ? hls.targetLatency : 0\<close>\<close>
  "targetLatencyOr0 hls = (case targetLatency hls of Some t \<Rightarrow> t | None \<Rightarrow> 0)"

definition l2a_getQualityForBitrate :: "Hls \<Rightarrow> Fragment option \<Rightarrow> real \<Rightarrow> nat" where
  \<comment> \<open>\<open>L2ARule.getQualityForBitrate\<close>. The test is \<open>deltaLatency > fragmentDuration\<close>.
      When both are 0 the ratio \<open>0 / 0\<close> is NaN, every comparison of the scan is false
      and the result is 0.\<close>
  "l2a_getQualityForBitrate hls fragCurrent br =
     (case (if latency hls \<noteq> 0 then fragCurrent else None) of
        Some f \<Rightarrow>
          (let fragmentDuration = duration f;
               deltaLatency = \<bar>latency hls - targetLatencyOr0 hls\<bar>
           in if deltaLatency > fragmentDuration then 0
              else if fragmentDuration = 0 then 0
              else (let deadTimeRatio = deltaLatency / fragmentDuration
                    in qualityForBitrate hls (br * (1 - deadTimeRatio))))
      | None \<Rightarrow> qualityForBitrate hls br)"

section \<open>Stallion rule (StallionRule.ts)\<close>

record StallionRule =
  sr_fragCurrent :: "Fragment option"
  sr_currentQuality :: nat
  throughputArr :: "real list"
  latencyArr :: "real list"

definition stallion_getQualityForBitrate ::
    "Hls \<Rightarrow> Fragment option \<Rightarrow> real \<Rightarrow> real \<Rightarrow> nat" where
  \<comment> \<open>\<open>StallionRule.getQualityForBitrate\<close>. The test is
      \<open>deltaLatency >= fragmentDuration\<close>, so the division is by a positive number.\<close>
  "stallion_getQualityForBitrate hls fragCurrent br lat =
     (case (if lat \<noteq> 0 then fragCurrent else None) of
        Some f \<Rightarrow>
          (let fragmentDuration = duration f;
               deltaLatency = \<bar>lat - targetLatencyOr0 hls\<bar>
           in if deltaLatency \<ge> fragmentDuration then 0
              else (let deadTimeRatio = deltaLatency / fragmentDuration
                    in qualityForBitrate hls (br * (1 - deadTimeRatio))))
      | None \<Rightarrow> qualityForBitrate hls br)"

section \<open>L2A-LL rule: the state machine\<close>

datatype ErrorDetails = BUFFER_STALLED_ERROR | FRAG_LOAD_ERROR | FRAG_LOAD_TIMEOUT | OTHER_ERROR

definition L2ARule_new :: "Fragment option \<Rightarrow> nat \<Rightarrow> L2ARule" where
  "L2ARule_new fragCurrent currentQuality =
     \<lparr>l2_fragCurrent = fragCurrent, l2_currentQuality = currentQuality,
      l2AStateDict = Map.empty, l2AParameterDict = Map.empty\<rparr>"

definition L2ARule_update :: "Fragment option \<Rightarrow> nat \<Rightarrow> L2ARule \<Rightarrow> L2ARule" where
  "L2ARule_update fragCurrent currentQuality r =
     r\<lparr>l2_fragCurrent := fragCurrent, l2_currentQuality := currentQuality\<rparr>"

definition getInitialL2AState :: "Hls \<Rightarrow> l2AState" where
  "getInitialL2AState hls =
     \<lparr>l2a_state = L2A_STATE_STARTUP, l2a_bitrates = map (\<lambda>b. bitrate b / 1000) (levels hls),
      abrQuality = 0, lastQuality = 0, lastSegmentStart = None, lastSegmentDurationS = None,
      lastSegmentRequestTimeMs = None, lastSegmentFinishTimeMs = None,
      mostAdvancedSegmentStart = None, lastSegmentWasReplacement = False,
      placeholderBuffer = 0\<rparr>"

definition initialL2AParameters :: l2AParameters where
  "initialL2AParameters =
     \<lparr>Q = 0, w = [], prev_w = [], B_target = 15 / 10, segment_request_start_s = 0,
      segment_download_finish_s = 0\<rparr>"

definition clearL2AStateOnSeek :: "l2AState \<Rightarrow> l2AState" where
  "clearL2AStateOnSeek st =
     st\<lparr>placeholderBuffer := 0, mostAdvancedSegmentStart := None,
        lastSegmentWasReplacement := False, lastSegmentStart := None,
        lastSegmentDurationS := None, lastSegmentRequestTimeMs := None,
        lastSegmentFinishTimeMs := None\<rparr>"

definition getL2AState :: "Hls \<Rightarrow> PlaylistLevelType \<Rightarrow> L2ARule \<Rightarrow> l2AState \<times> L2ARule" where
  \<comment> \<open>\<open>_getL2AState\<close>: a missing state is created, together with fresh parameters for
      the media type (every media type is a non-empty string, hence truthy).\<close>
  "getL2AState hls mediaType r =
     (case l2AStateDict r mediaType of
        Some st \<Rightarrow> (st, r)
      | None \<Rightarrow>
          (getInitialL2AState hls,
           r\<lparr>l2AStateDict := (l2AStateDict r)(mediaType \<mapsto> getInitialL2AState hls),
             l2AParameterDict := (l2AParameterDict r)(mediaType \<mapsto> initialL2AParameters)\<rparr>))"

definition onPlaybackSeeking :: "ErrorDetails \<Rightarrow> L2ARule \<Rightarrow> L2ARule" where
  \<comment> \<open>\<open>_onPlaybackSeeking\<close>, the handler of \<open>Events.ERROR\<close>.\<close>
  "onPlaybackSeeking details r =
     (if details = BUFFER_STALLED_ERROR then
        r\<lparr>l2AStateDict := (\<lambda>mediaType.
             map_option (\<lambda>st. if l2a_state st \<noteq> L2A_STATE_ONE_BITRATE
                                then clearL2AStateOnSeek (st\<lparr>l2a_state := L2A_STATE_STARTUP\<rparr>)
                                else st)
               (l2AStateDict r mediaType))\<rparr>
      else r)"

definition checkNewSegment ::
    "l2AState \<Rightarrow> l2AParameters option \<Rightarrow> error + l2AState \<times> l2AParameters option" where
  \<comment> \<open>\<open>_checkNewSegment\<close>; writing to undefined parameters is a TypeError.\<close>
  "checkNewSegment st p =
     (case (lastSegmentStart st, lastSegmentRequestTimeMs st) of
        (Some s0, Some req) \<Rightarrow>
          (case p of
             None \<Rightarrow> Inl TypeError
           | Some pr \<Rightarrow>
               Inr (st\<lparr>lastSegmentStart := None, lastSegmentRequestTimeMs := None\<rparr>,
                    Some (pr\<lparr>segment_request_start_s := (1 / 1000) * req,
                             segment_download_finish_s :=
                               (case lastSegmentFinishTimeMs st of
                                  Some fin \<Rightarrow> (1 / 1000) * fin
                                | None \<Rightarrow> segment_download_finish_s pr)\<rparr>)))
      | _ \<Rightarrow> Inr (st, p))"

definition storeL2A ::
    "PlaylistLevelType \<Rightarrow> l2AState \<Rightarrow> l2AParameters option \<Rightarrow> L2ARule \<Rightarrow> L2ARule" where
  \<comment> \<open>The state and parameter objects of a media type after they were written to.\<close>
  "storeL2A mediaType st p r =
     r\<lparr>l2AStateDict := (l2AStateDict r)(mediaType \<mapsto> st),
       l2AParameterDict := (case p of None \<Rightarrow> l2AParameterDict r
                            | Some pr \<Rightarrow> (l2AParameterDict r)(mediaType \<mapsto> pr))\<rparr>"

definition onMediaFragmentLoaded :: "Fragment \<Rightarrow> L2ARule \<Rightarrow> error + L2ARule" where
  \<comment> \<open>\<open>_onMediaFragmentLoaded\<close>, the handler of \<open>Events.FRAG_LOADED\<close>.\<close>
  "onMediaFragmentLoaded frag r =
     (case l2AStateDict r (ftype frag) of
        None \<Rightarrow> Inr r
      | Some st \<Rightarrow>
          if l2a_state st \<noteq> L2A_STATE_ONE_BITRATE then
            (let st1 = (case mostAdvancedSegmentStart st of
                          None \<Rightarrow> st\<lparr>mostAdvancedSegmentStart := Some (start frag),
                                      lastSegmentWasReplacement := False\<rparr>
                        | Some most \<Rightarrow>
                            if start frag > most
                            then st\<lparr>mostAdvancedSegmentStart := Some (start frag),
                                    lastSegmentWasReplacement := False\<rparr>
                            else st\<lparr>lastSegmentWasReplacement := True\<rparr>);
                 st2 = st1\<lparr>lastSegmentStart := Some (start frag),
                           lastSegmentDurationS := Some (duration frag),
                           lastQuality := level frag\<rparr>
             in case checkNewSegment st2 (l2AParameterDict r (ftype frag)) of
                  Inl e \<Rightarrow> Inl e
                | Inr (st3, p3) \<Rightarrow> Inr (storeL2A (ftype frag) st3 p3 r))
          else Inr r)"

definition onMetricAdded :: "Fragment \<Rightarrow> L2ARule \<Rightarrow> error + L2ARule" where
  \<comment> \<open>\<open>_onMetricAdded\<close>, the handler of \<open>Events.FRAG_PARSED\<close>.\<close>
  "onMetricAdded frag r =
     (case l2AStateDict r (ftype frag) of
        None \<Rightarrow> Inr r
      | Some st \<Rightarrow>
          if l2a_state st \<noteq> L2A_STATE_ONE_BITRATE then
            (let st1 = st\<lparr>lastSegmentRequestTimeMs := Some (loading_start (stats frag)),
                          lastSegmentFinishTimeMs := Some (parsing_end (stats frag))\<rparr>
             in case checkNewSegment st1 (l2AParameterDict r (ftype frag)) of
                  Inl e \<Rightarrow> Inl e
                | Inr (st2, p2) \<Rightarrow> Inr (storeL2A (ftype frag) st2 p2 r))
          else Inr r)"

definition onQualityChangeRequested :: "nat \<Rightarrow> L2ARule \<Rightarrow> L2ARule" where
  \<comment> \<open>\<open>_onQualityChangeRequested\<close>, the handler of \<open>Events.LEVEL_SWITCHING\<close>.\<close>
  "onQualityChangeRequested lv r =
     (let mediaType = (case l2_fragCurrent r of Some f \<Rightarrow> ftype f | None \<Rightarrow> MAIN)
      in case l2AStateDict r mediaType of
           None \<Rightarrow> r
         | Some st \<Rightarrow>
             if l2a_state st \<noteq> L2A_STATE_ONE_BITRATE
             then r\<lparr>l2AStateDict := (l2AStateDict r)(mediaType \<mapsto> st\<lparr>abrQuality := lv\<rparr>)\<rparr>
             else r)"

section \<open>L2A-LL rule: getMaxIndex\<close>

definition vl :: real where
  \<comment> \<open>\<open>Math.pow(horizon, 0.99)\<close> with \<open>horizon = 4\<close>\<close>
  "vl = 4 powr (99 / 100)"

definition alpha :: real where
  \<comment> \<open>\<open>Math.max(Math.pow(horizon, 1), vl * Math.sqrt(horizon))\<close>\<close>
  "alpha = max (4 powr 1) (vl * sqrt 4)"

definition react :: real where
  "react = 2"

primrec indexOf :: "real list \<Rightarrow> real \<Rightarrow> nat option" where
  \<comment> \<open>\<open>arr.indexOf(v)\<close>; \<open>None\<close> is -1.\<close>
  "indexOf [] v = None"
| "indexOf (x # xs) v = (if x = v then Some 0 else map_option Suc (indexOf xs v))"

definition indexOfMin :: "real list \<Rightarrow> nat option" where
  \<comment> \<open>\<open>temp.indexOf(Math.min(...temp))\<close>; on the empty array \<open>Math.min()\<close> is Infinity
      and the index is -1.\<close>
  "indexOfMin temp = (case temp of [] \<Rightarrow> None | t # ts \<Rightarrow> indexOf temp (foldl min t ts))"

definition lagrangianDescent ::
    "real list \<Rightarrow> real list \<Rightarrow> real \<Rightarrow> real \<Rightarrow> real \<Rightarrow> real \<Rightarrow> real \<times> real list" where
  \<comment> \<open>The first loop of the steady state over the bitrates in kbps: the pair of
      \<open>sign\<close> (which stays -1 once it was set) and the new entries \<open>w[0..n)\<close>.\<close>
  "lagrangianDescent kbps prev V Qv rate lastthroughput =
     foldl (\<lambda>(sgn, ws) i.
              (let sgn' = (if rate * kbps ! i > lastthroughput then - 1 else sgn)
               in (sgn', ws @ [prev ! i + sgn' * (V / (2 * alpha)) *
                                 ((Qv + vl) * ((rate * kbps ! i) / lastthroughput))])))
       (1, []) [0..<length kbps]"

definition l2a_startup ::
    "Hls \<Rightarrow> Fragment option \<Rightarrow> l2AState \<Rightarrow> l2AParameters \<Rightarrow> nat \<times> l2AState \<times> l2AParameters" where
  \<comment> \<open>\<open>case L2A_STATE_STARTUP\<close>\<close>
  "l2a_startup hls fragCurrent st p =
     (let bitrateCount = length (levels hls);
          throughput = HLSThroughput hls;
          bufferLevel = toFixed2 (buf_len (bufferInfo hls));
          deltaLatency = \<bar>latency hls - targetLatencyOr0 hls\<bar>
      in if isLive hls \<and>
            (case fragCurrent of None \<Rightarrow> True | Some f \<Rightarrow> deltaLatency \<ge> duration f)
         then (0, st, p)
         else
           (let quality = l2a_getQualityForBitrate hls fragCurrent throughput;
                st1 = st\<lparr>lastQuality := quality\<rparr>
            in if lastSegmentDurationS st1 \<noteq> None \<and> bufferLevel \<ge> B_target p
               then (quality, st1\<lparr>l2a_state := L2A_STATE_STEADY\<rparr>,
                     p\<lparr>Q := vl,
                       prev_w := map (\<lambda>i. if i = lastQuality st1 then 1 else 0) [0..<bitrateCount]
                                 @ drop bitrateCount (prev_w p)\<rparr>)
               else (quality, st1, p)))"

datatype l2a_outcome = Decided nat l2AState l2AParameters | NotANumber
  \<comment> \<open>\<open>NotANumber\<close>: the steady state computes with NaN (or takes the minimum of
      nothing), \<open>indexOf\<close> answers -1 and the state is filled with NaN. The model of
      numbers as reals does not follow the rule any further.\<close>

definition l2a_steady :: "Hls \<Rightarrow> l2AState \<Rightarrow> l2AParameters \<Rightarrow> l2a_outcome" where
  \<comment> \<open>\<open>case L2A_STATE_STEADY\<close>\<close>
  "l2a_steady hls st p =
     (let kbps = map (\<lambda>b. bitrate b / 1000) (levels hls);
          bitrateCount = length kbps;
          throughput = HLSThroughput hls;
          currentPlaybackRate = (case media hls of Some m \<Rightarrow> playbackRate m | None \<Rightarrow> 1);
          lastthroughput = (if throughput < 1 then 1 else throughput)
      in case lastSegmentDurationS st of
           None \<Rightarrow> NotANumber
         | Some V \<Rightarrow>
             if length (prev_w p) < bitrateCount then NotANumber
             else
               (let w1 = snd (lagrangianDescent kbps (prev_w p) V (Q p) currentPlaybackRate
                                lastthroughput) @ drop bitrateCount (w p);
                    w2 = euclideanProjection w1;
                    diff1 = map (\<lambda>i. w2 ! i - prev_w p ! i) [0..<bitrateCount];
                    prev_w2 = map (\<lambda>i. w2 ! i) [0..<bitrateCount] @ drop bitrateCount (prev_w p);
                    Q1 = max 0 (Q p - V + V * currentPlaybackRate *
                           ((dotmultiplication kbps prev_w2 + dotmultiplication kbps diff1)
                              / lastthroughput));
                    temp = map (\<lambda>i. \<bar>kbps ! i - dotmultiplication w2 kbps\<bar>) [0..<bitrateCount]
                in case indexOfMin temp of
                     None \<Rightarrow> NotANumber
                   | Some quality0 \<Rightarrow>
                       (let quality =
                              (if quality0 > lastQuality st \<and>
                                  kbps ! (lastQuality st + 1) \<le> lastthroughput
                               then lastQuality st + 1 else quality0);
                            Q2 = (if kbps ! quality \<ge> lastthroughput
                                  then react * max vl Q1 else Q1)
                        in Decided quality (st\<lparr>lastQuality := quality\<rparr>)
                             (p\<lparr>Q := Q2, w := w2, prev_w := prev_w2\<rparr>))))"

datatype l2a_result = Quality nat L2ARule | MinusOne
  \<comment> \<open>What \<open>getMaxIndex\<close> returns, with the rule afterwards; \<open>MinusOne\<close> is the value -1
      of the \<open>NotANumber\<close> outcome.\<close>

definition l2a_getMaxIndex :: "Hls \<Rightarrow> L2ARule \<Rightarrow> l2a_result" where
  \<comment> \<open>\<open>L2ARule.getMaxIndex\<close>. \<open>useL2AABR\<close> is the constant true, and the test
      \<open>isNaN(throughput)\<close> is never true: \<open>throughput\<close> falls back to the default estimate
      when the bandwidth estimate is NaN.\<close>
  "l2a_getMaxIndex hls r =
     (let mediaType = (case l2_fragCurrent r of Some f \<Rightarrow> ftype f | None \<Rightarrow> MAIN);
          currentQuality = l2_currentQuality r
      in if mediaType = AUDIO then Quality currentQuality r
         else
           (let (st, r1) = getL2AState hls mediaType r
            in if l2a_state st = L2A_STATE_ONE_BITRATE then Quality currentQuality r1
               else
                 (case l2AParameterDict r1 mediaType of
                    None \<Rightarrow> Quality currentQuality r1
                  | Some p \<Rightarrow>
                      if l2a_state st = L2A_STATE_STARTUP then
                        (case l2a_startup hls (l2_fragCurrent r) st p of
                           (quality, st', p') \<Rightarrow>
                             Quality quality (storeL2A mediaType st' (Some p') r1))
                      else if l2a_state st = L2A_STATE_STEADY then
                        (case l2a_steady hls st p of
                           NotANumber \<Rightarrow> MinusOne
                         | Decided quality st' p' \<Rightarrow>
                             Quality quality (storeL2A mediaType st' (Some p') r1))
                      else
                        Quality (l2a_getQualityForBitrate hls (l2_fragCurrent r) (HLSThroughput hls))
                          (storeL2A mediaType
                             (clearL2AStateOnSeek (st\<lparr>l2a_state := L2A_STATE_STARTUP\<rparr>))
                             (Some p) r1))))"

definition l2a_wf :: "Hls \<Rightarrow> L2ARule \<Rightarrow> bool" where
  \<comment> \<open>What the rule's own transitions keep true on a fixed ladder: a media type in the
      steady state has a last segment duration and a \<open>prev_w\<close> entry for every level.\<close>
  "l2a_wf hls r =
     (\<forall>mediaType st p.
        l2AStateDict r mediaType = Some st \<and> l2AParameterDict r mediaType = Some p \<and>
        l2a_state st = L2A_STATE_STEADY \<longrightarrow>
        lastSegmentDurationS st \<noteq> None \<and> length (levels hls) \<le> length (prev_w p))"

section \<open>Stallion rule: getMaxIndex\<close>

definition LATENCY_SAFETY_FACTOR :: real where "LATENCY_SAFETY_FACTOR = 125 / 100"
definition THROUGHPUT_SAMPLE_AMOUNT :: nat where "THROUGHPUT_SAMPLE_AMOUNT = 3"
definition LATENCY_SAMPLE_AMOUNT :: nat where "LATENCY_SAMPLE_AMOUNT = 4"

definition StallionRule_new :: "Fragment option \<Rightarrow> nat \<Rightarrow> StallionRule" where
  "StallionRule_new fragCurrent currentQuality =
     \<lparr>sr_fragCurrent = fragCurrent, sr_currentQuality = currentQuality,
      throughputArr = [], latencyArr = []\<rparr>"

definition StallionRule_update :: "Fragment option \<Rightarrow> nat \<Rightarrow> StallionRule \<Rightarrow> StallionRule" where
  "StallionRule_update fragCurrent currentQuality r =
     r\<lparr>sr_fragCurrent := fragCurrent, sr_currentQuality := currentQuality\<rparr>"

definition getMean :: "real list \<Rightarrow> error + real" where
  \<comment> \<open>\<open>array.reduce((a, b) => a + b) / array.length\<close>\<close>
  "getMean arr =
     (case js_reduce (+) arr of Inl e \<Rightarrow> Inl e | Inr s \<Rightarrow> Inr (s / real (length arr)))"

definition getStandardDeviation :: "real list \<Rightarrow> error + real" where
  "getStandardDeviation arr =
     (let n = real (length arr) in
      case js_reduce (+) arr of
        Inl e \<Rightarrow> Inl e
      | Inr s \<Rightarrow>
          (let mean = s / n in
           case js_reduce (+) (map (\<lambda>x. (x - mean)\<^sup>2) arr) of
             Inl e \<Rightarrow> Inl e
           | Inr sq \<Rightarrow> Inr (sqrt (sq / n))))"

definition stallion_decide ::
    "Hls \<Rightarrow> StallionRule \<Rightarrow> real \<Rightarrow> real \<Rightarrow> nat" where
  \<comment> \<open>The end of \<open>getMaxIndex\<close>, from the safe bitrate and the safe latency. The tests
      \<open>isNaN(throughput)\<close> and \<open>!bufferStateVO\<close> are never true.\<close>
  "stallion_decide hls r br lat =
     (let deltaLatency = \<bar>lat - targetLatencyOr0 hls\<bar>
      in case sr_fragCurrent r of
           None \<Rightarrow> sr_currentQuality r
         | Some f \<Rightarrow>
             if deltaLatency < duration f \<and> buf_len (bufferInfo hls) > 0
             then stallion_getQualityForBitrate hls (sr_fragCurrent r) br lat
             else sr_currentQuality r)"

definition stallion_getMaxIndex :: "Hls \<Rightarrow> StallionRule \<Rightarrow> error + nat \<times> StallionRule" where
  \<comment> \<open>\<open>StallionRule.getMaxIndex\<close>\<close>
  "stallion_getMaxIndex hls r =
     (let mediaType = (case sr_fragCurrent r of Some f \<Rightarrow> ftype f | None \<Rightarrow> MAIN)
      in if mediaType = AUDIO then Inr (sr_currentQuality r, r)
         else
           (let tArr = pushSample THROUGHPUT_SAMPLE_AMOUNT (HLSThroughput hls) (throughputArr r);
                lArr = pushSample LATENCY_SAMPLE_AMOUNT (latency hls) (latencyArr r)
            in case getMean tArr of Inl e \<Rightarrow> Inl e | Inr throughput \<Rightarrow>
              (case getStandardDeviation tArr of Inl e \<Rightarrow> Inl e | Inr throughput_std \<Rightarrow>
              (case getMean lArr of Inl e \<Rightarrow> Inl e | Inr latencyMean \<Rightarrow>
              (case getStandardDeviation lArr of Inl e \<Rightarrow> Inl e | Inr std_latency \<Rightarrow>
                 (let br = throughput - THROUGHPUT_SAFETY_FACTOR * throughput_std;
                      lat = latencyMean + LATENCY_SAFETY_FACTOR * std_latency;
                      r' = (if \<not> isLive hls
                            then r\<lparr>throughputArr := butlast tArr, latencyArr := butlast lArr\<rparr>
                            else r\<lparr>throughputArr := tArr, latencyArr := lArr\<rparr>)
                  in Inr (stallion_decide hls r br lat, r')))))))"

section \<open>LoL+ QoE evaluator (LoLpQoeInfo.ts, LoLpQoeEvaluator)\<close>

record LatencyP =
  threshold :: real
  penalty :: real

record Weight =
  bitrateReward :: real
  bitrateSwitchPenalty :: real
  rebufferPenalty :: real
  latencyPenalty :: "LatencyP list"
  playbackSpeedPenalty :: real

record QoeInfo =
  qoe_type :: string
  lastBitrate :: "real option"
  qoe_weights :: Weight
  bitrateWSum :: real
  bitrateSwitchWSum :: real
  rebufferWSum :: real
  latencyWSum :: real
  playbackSpeedWSum :: real
  totalQoe :: real

text \<open>
  The evaluator's numeric fields start as \<open>null\<close>; \<open>None\<close> and \<open>Some 0\<close> are the falsy
  values.
\<close>

record LoLpQoeEvaluator =
  voPerSegmentQoeInfo :: "QoeInfo option"
  ev_segmentDuration :: "real option"
  ev_maxBitrateKbps :: "real option"
  ev_minBitrateKbps :: "real option"

definition LoLpQoeEvaluator_new :: LoLpQoeEvaluator where
  "LoLpQoeEvaluator_new = \<lparr>voPerSegmentQoeInfo = None, ev_segmentDuration = None,
     ev_maxBitrateKbps = None, ev_minBitrateKbps = None\<rparr>"

definition createQoeInfo :: "string \<Rightarrow> real \<Rightarrow> real \<Rightarrow> real \<Rightarrow> QoeInfo" where
  \<comment> \<open>\<open>_createQoeInfo\<close>: a fresh \<open>QoeInfo\<close> with every weight set.\<close>
  "createQoeInfo fragmentType fragmentDuration maxKbps minKbps =
     \<lparr>qoe_type = fragmentType, lastBitrate = None,
      qoe_weights = \<lparr>
        bitrateReward = (if fragmentDuration = 0 then 1 else fragmentDuration),
        bitrateSwitchPenalty = 1,
        rebufferPenalty = (if maxKbps = 0 then 1000 else maxKbps),
        latencyPenalty = [\<lparr>threshold = 11 / 10, penalty = minKbps * (5 / 100)\<rparr>,
                          \<lparr>threshold = 100000000, penalty = maxKbps * (1 / 10)\<rparr>],
        playbackSpeedPenalty = (if minKbps = 0 then 200 else minKbps)\<rparr>,
      bitrateWSum = 0, bitrateSwitchWSum = 0, rebufferWSum = 0, latencyWSum = 0,
      playbackSpeedWSum = 0, totalQoe = 0\<rparr>"

fun latencyTerm :: "LatencyP list \<Rightarrow> real \<Rightarrow> real" where
  \<comment> \<open>The latency loop: the penalty of the first range whose threshold is not below
      the latency, times the latency; nothing when there is no such range.\<close>
  "latencyTerm [] lat = 0"
| "latencyTerm (r # rs) lat =
     (if lat \<le> threshold r then penalty r * lat else latencyTerm rs lat)"

definition logMetricsInQoeInfo :: "real \<Rightarrow> real \<Rightarrow> real \<Rightarrow> real \<Rightarrow> QoeInfo \<Rightarrow> QoeInfo" where
  "logMetricsInQoeInfo br rebufferTime lat playbackSpeed q =
     (let wts = qoe_weights q;
          bitrateWSum' = bitrateWSum q + bitrateReward wts * br;
          bitrateSwitchWSum' =
            (case lastBitrate q of
               None \<Rightarrow> bitrateSwitchWSum q
             | Some lb \<Rightarrow>
                 if lb = 0 then bitrateSwitchWSum q
                 else bitrateSwitchWSum q + bitrateSwitchPenalty wts * \<bar>br - lb\<bar>);
          rebufferWSum' = rebufferWSum q + rebufferPenalty wts * rebufferTime;
          latencyWSum' = latencyWSum q + latencyTerm (latencyPenalty wts) lat;
          playbackSpeedWSum' = playbackSpeedWSum q + playbackSpeedPenalty wts * \<bar>1 - playbackSpeed\<bar>
      in q\<lparr>lastBitrate := Some br, bitrateWSum := bitrateWSum',
            bitrateSwitchWSum := bitrateSwitchWSum', rebufferWSum := rebufferWSum',
            latencyWSum := latencyWSum', playbackSpeedWSum := playbackSpeedWSum',
            totalQoe := bitrateWSum' - bitrateSwitchWSum' - rebufferWSum' - latencyWSum'
                        - playbackSpeedWSum'\<rparr>)"

definition setupPerSegmentQoe :: "real \<Rightarrow> real \<Rightarrow> real \<Rightarrow> LoLpQoeEvaluator \<Rightarrow> LoLpQoeEvaluator" where
  "setupPerSegmentQoe sDuration maxBrKbps minBrKbps ev =
     ev\<lparr>voPerSegmentQoeInfo := Some (createQoeInfo ''segment'' sDuration maxBrKbps minBrKbps),
        ev_segmentDuration := Some sDuration, ev_maxBitrateKbps := Some maxBrKbps,
        ev_minBitrateKbps := Some minBrKbps\<rparr>"

definition logSegmentMetrics :: "real \<Rightarrow> real \<Rightarrow> real \<Rightarrow> real \<Rightarrow> LoLpQoeEvaluator \<Rightarrow> LoLpQoeEvaluator" where
  "logSegmentMetrics br rebufferTime lat speed ev =
     (case voPerSegmentQoeInfo ev of
        None \<Rightarrow> ev
      | Some q \<Rightarrow> ev\<lparr>voPerSegmentQoeInfo := Some (logMetricsInQoeInfo br rebufferTime lat speed q)\<rparr>)"

definition calculateSingleUseQoe :: "LoLpQoeEvaluator \<Rightarrow> real \<Rightarrow> real \<Rightarrow> real \<Rightarrow> real \<Rightarrow> real" where
  \<comment> \<open>\<open>if (this.segmentDuration && this.maxBitrateKbps && this.minBitrateKbps)\<close>: each
      neither \<open>null\<close> nor 0; otherwise the result is 0.\<close>
  "calculateSingleUseQoe ev br rebufferTime lat speed =
     (case (ev_segmentDuration ev, ev_maxBitrateKbps ev, ev_minBitrateKbps ev) of
        (Some d, Some mx, Some mn) \<Rightarrow>
          if d \<noteq> 0 \<and> mx \<noteq> 0 \<and> mn \<noteq> 0
          then totalQoe (logMetricsInQoeInfo br rebufferTime lat speed
                 (createQoeInfo ''segment'' d mx mn))
          else 0
      | _ \<Rightarrow> 0)"

section \<open>LoL+ weight selector (LoLpWeightSelector)\<close>

record NState =
  s_throughput :: real
  s_latency :: real
  s_rebuffer :: real
  s_switch :: real

record Neuron =
  qualityIndex :: nat
  n_bitrate :: real
  n_state :: NState

record LoLpWeightSelector =
  ws_targetLatency :: real
  ws_bufferMin :: real
  ws_segmentDuration :: real
  ws_qoeEvaluator :: LoLpQoeEvaluator
  valueList :: "real list"
  weightTypeCount :: nat
  weightOptions :: "real list list"
  previousLatency :: real

datatype WeightResult = WNull | WSentinel | WVector "real list"
  \<comment> \<open>What \<open>findWeightVector\<close> returns: \<open>null\<close>, the number \<open>-1\<close>, or a weight vector.\<close>

primrec shiftPush :: "real list \<Rightarrow> nat \<Rightarrow> real list list \<Rightarrow> real list list option" where
  \<comment> \<open>The \<open>for (i < len)\<close> loop of \<open>generate\<close>: \<open>perm.shift()\<close>, then one
      \<open>perm.push(currPerm.concat(list[k]))\<close> per value. \<open>None\<close> is the TypeError of
      \<open>undefined.concat\<close> after a shift of the empty array.\<close>
  "shiftPush vals 0 perm = Some perm"
| "shiftPush vals (Suc n) perm =
     (case perm of
        [] \<Rightarrow> None
      | currPerm # rest \<Rightarrow> shiftPush vals n (rest @ map (\<lambda>v. currPerm @ [v]) vals))"

partial_function (option) generate ::
    "real list \<Rightarrow> real list list \<Rightarrow> nat \<Rightarrow> nat \<Rightarrow> real list list option" where
  "generate vals perm len currLen =
     (if currLen = len then Some perm
      else Option.bind (shiftPush vals (length perm) perm)
             (\<lambda>perm'. generate vals perm' len (currLen + 1)))"

definition getPermutations :: "real list \<Rightarrow> nat \<Rightarrow> real list list option" where
  \<comment> \<open>\<open>_getPermutations\<close> for the value list and the number of weight types.\<close>
  "getPermutations vals cnt = generate vals (map (\<lambda>val. [val]) vals) cnt 1"

definition defaultValueList :: "real list" where
  "defaultValueList = [2 / 10, 4 / 10, 6 / 10, 8 / 10, 1]"

definition LoLpWeightSelector_new ::
    "real \<Rightarrow> real \<Rightarrow> real \<Rightarrow> LoLpQoeEvaluator \<Rightarrow> LoLpWeightSelector option" where
  \<comment> \<open>The constructor; \<open>None\<close> when \<open>_getPermutations\<close> does not return.\<close>
  "LoLpWeightSelector_new tgt bmin sdur ev =
     map_option (\<lambda>opts. \<lparr>ws_targetLatency = tgt, ws_bufferMin = bmin, ws_segmentDuration = sdur,
        ws_qoeEvaluator = ev, valueList = defaultValueList, weightTypeCount = 4,
        weightOptions = opts, previousLatency = 0\<rparr>) (getPermutations defaultValueList 4)"

definition getNextBuffer :: "LoLpWeightSelector \<Rightarrow> real \<Rightarrow> real \<Rightarrow> real" where
  "getNextBuffer ws currentBuffer downloadTime =
     (if downloadTime > ws_segmentDuration ws then currentBuffer - ws_segmentDuration ws
      else currentBuffer + ws_segmentDuration ws - downloadTime)"

definition getNextBufferWithBitrate :: "LoLpWeightSelector \<Rightarrow> real \<Rightarrow> real \<Rightarrow> real \<Rightarrow> real" where
  "getNextBufferWithBitrate ws bitrateToDownload currentBuffer currentThroughput =
     getNextBuffer ws currentBuffer
       ((bitrateToDownload * ws_segmentDuration ws) / currentThroughput)"

definition checkConstraints :: "LoLpWeightSelector \<Rightarrow> real \<Rightarrow> real \<Rightarrow> real \<Rightarrow> bool" where
  "checkConstraints ws nextLatency nextBuffer deltaLatency =
     (if nextLatency > ws_targetLatency ws + deltaLatency then False
      else nextBuffer \<ge> ws_bufferMin ws)"

type_synonym winner = "real option \<times> real list option \<times> real option"
  \<comment> \<open>\<open>(maxQoE, winnerWeights, winnerBitrate)\<close>, each \<open>null\<close> at first.\<close>

definition weightStep ::
    "LoLpWeightSelector \<Rightarrow> Neuron \<Rightarrow> real \<Rightarrow> real \<Rightarrow> winner \<Rightarrow> real list \<Rightarrow> winner" where
  \<comment> \<open>The body of \<open>weightOptions.forEach\<close> for one weight vector.\<close>
  "weightStep ws neuron rebuffer rate acc weightVector =
     (let wt_buffer = (if weightVector ! 2 = 0 then 10 else 1 / (weightVector ! 2));
          weightedRebuffer = wt_buffer * rebuffer;
          wt_latency = (if weightVector ! 1 = 0 then 10 else 1 / (weightVector ! 1));
          weightedLatency = wt_latency * s_latency (n_state neuron);
          totalQoE = calculateSingleUseQoe (ws_qoeEvaluator ws) (n_bitrate neuron)
                       weightedRebuffer weightedLatency rate
      in case fst acc of
           None \<Rightarrow> (Some totalQoE, Some weightVector, Some (n_bitrate neuron))
         | Some maxQoE \<Rightarrow>
             if totalQoE > maxQoE
             then (Some totalQoE, Some weightVector, Some (n_bitrate neuron))
             else acc)"

definition neuronStep ::
    "LoLpWeightSelector \<Rightarrow> real \<Rightarrow> real \<Rightarrow> real \<Rightarrow> real \<Rightarrow> real \<Rightarrow> winner \<Rightarrow> Neuron \<Rightarrow> winner" where
  \<comment> \<open>The body of \<open>neurons.forEach\<close> for one neuron. With \<open>currentThroughput = 0\<close>
      the download time is \<open>Infinity\<close> or NaN in the code; the model follows the code
      only for a throughput that is not zero.\<close>
  "neuronStep ws currentLatency currentBuffer currentThroughput rate deltaLatency acc neuron =
     (let downloadTime = (n_bitrate neuron * ws_segmentDuration ws) / currentThroughput;
          nextBuffer = getNextBuffer ws currentBuffer downloadTime;
          rebuffer = max (1 / 100000) (downloadTime - nextBuffer)
      in if checkConstraints ws currentLatency nextBuffer deltaLatency
         then foldl (weightStep ws neuron rebuffer rate) acc (weightOptions ws)
         else acc)"

definition findWeightVector ::
    "LoLpWeightSelector \<Rightarrow> Neuron list \<Rightarrow> real \<Rightarrow> real \<Rightarrow> real \<Rightarrow> real \<Rightarrow> real
       \<Rightarrow> WeightResult \<times> LoLpWeightSelector" where
  "findWeightVector ws neurons currentLatency currentBuffer currentRebuffer currentThroughput rate =
     (let deltaLatency = \<bar>currentLatency - previousLatency ws\<bar>;
          acc = foldl (neuronStep ws currentLatency currentBuffer currentThroughput rate deltaLatency)
                  (None, None, None) neurons;
          winnerWeights = fst (snd acc);
          winnerBitrate = snd (snd acc);
          result = (if winnerWeights = None \<and> winnerBitrate = None then WSentinel
                    else case winnerWeights of None \<Rightarrow> WNull | Some wv \<Rightarrow> WVector wv)
      in (result, ws\<lparr>previousLatency := currentLatency\<rparr>))"

section \<open>LoL+ learning rule (LoLpRule.ts)\<close>

primrec foldE :: "('a \<Rightarrow> 'b \<Rightarrow> error + 'a) \<Rightarrow> 'a \<Rightarrow> 'b list \<Rightarrow> error + 'a" where
  \<comment> \<open>A loop over \<open>xs\<close> whose body can throw: it stops at the first error.\<close>
  "foldE f a [] = Inr a"
| "foldE f a (x # xs) = (case f a x of Inl e \<Rightarrow> Inl e | Inr a' \<Rightarrow> foldE f a' xs)"

definition MANUAL :: string where "MANUAL = ''manual_weight_selection''"
definition RANDOM :: string where "RANDOM = ''random_weight_selection''"
definition DYNAMIC :: string where "DYNAMIC = ''dynamic_weight_selection''"

record LearningAbrController =
  somBitrateNeurons :: "Neuron list option"
  bitrateNormalizationFactor :: real
  latencyNormalizationFactor :: real
  minBitrate :: real
  minBitrateNeuron :: "Neuron option"
  weights :: "real list option"
  sortedCenters :: "real list list option"
  weightSelectionMode :: string

definition LearningAbrController_new :: LearningAbrController where
  "LearningAbrController_new =
     \<lparr>somBitrateNeurons = None, bitrateNormalizationFactor = 1,
      latencyNormalizationFactor = 100, minBitrate = 0, minBitrateNeuron = None,
      weights = None, sortedCenters = None, weightSelectionMode = DYNAMIC\<rparr>"

definition getMaxThroughput :: "Neuron list option \<Rightarrow> real" where
  \<comment> \<open>\<open>_getMaxThroughput\<close> for the value of \<open>this.somBitrateNeurons\<close>\<close>
  "getMaxThroughput som =
     (case som of
        None \<Rightarrow> 0
      | Some ns \<Rightarrow>
          foldl (\<lambda>maxThroughput n.
                   if s_throughput (n_state n) > maxThroughput then s_throughput (n_state n)
                   else maxThroughput) 0 ns)"

definition getMagnitude :: "real list \<Rightarrow> error + real" where
  "getMagnitude wv =
     (case js_reduce (+) (map (\<lambda>x. x\<^sup>2) wv) of Inl e \<Rightarrow> Inl e | Inr m \<Rightarrow> Inr (sqrt m))"

definition getDistance :: "real list \<Rightarrow> real list \<Rightarrow> real list \<Rightarrow> error + real" where
  \<comment> \<open>\<open>_getDistance(a, b, w)\<close>. Every caller passes arrays of four numbers for \<open>a\<close> and
      \<open>b\<close>, and the weight vectors have four entries.\<close>
  "getDistance a b wv =
     (case js_reduce (+) (map (\<lambda>i. wv ! i * (a ! i - b ! i)\<^sup>2) [0..<length a]) of
        Inl e \<Rightarrow> Inl e
      | Inr s \<Rightarrow> Inr ((if s < 0 then - 1 else 1) * sqrt \<bar>s\<bar>))"

definition stateVector :: "Neuron \<Rightarrow> real list" where
  "stateVector n = [s_throughput (n_state n), s_latency (n_state n), s_rebuffer (n_state n),
                    s_switch (n_state n)]"

definition getNeuronDistance :: "Neuron \<Rightarrow> Neuron \<Rightarrow> error + real" where
  "getNeuronDistance a b = getDistance (stateVector a) (stateVector b) [1, 1, 1, 1]"

definition updateNeuronState :: "Neuron \<Rightarrow> real list \<Rightarrow> real \<Rightarrow> Neuron" where
  \<comment> \<open>\<open>_updateNeuronState\<close> with the learning rate 0.01 on every axis\<close>
  "updateNeuronState n x neighbourHood =
     (let st = n_state n in
      n\<lparr>n_state := st\<lparr>
        s_throughput := s_throughput st + (x ! 0 - s_throughput st) * (1 / 100) * neighbourHood,
        s_latency := s_latency st + (x ! 1 - s_latency st) * (1 / 100) * neighbourHood,
        s_rebuffer := s_rebuffer st + (x ! 2 - s_rebuffer st) * (1 / 100) * neighbourHood,
        s_switch := s_switch st + (x ! 3 - s_switch st) * (1 / 100) * neighbourHood\<rparr>\<rparr>)"

definition updateNeurons :: "nat \<Rightarrow> Neuron list \<Rightarrow> real list \<Rightarrow> error + Neuron list" where
  \<comment> \<open>\<open>_updateNeurons(winnerNeuron, somElements, x)\<close>, the winner being the element at
      index \<open>winner\<close>: the neurons are updated in place, so a later round reads the winner
      as an earlier round left it.\<close>
  "updateNeurons winner somElements x =
     foldE (\<lambda>els i.
              case getNeuronDistance (els ! i) (els ! winner) of
                Inl e \<Rightarrow> Inl e
              | Inr neuronDistance \<Rightarrow>
                  (let sigma = 1 / 10;
                       neighbourHood = exp ((- 1 * neuronDistance\<^sup>2) / (2 * sigma\<^sup>2))
                   in Inr (els[i := updateNeuronState (els ! i) x neighbourHood])))
       somElements [0..<length somElements]"

definition downShiftStep :: "Neuron \<Rightarrow> real \<Rightarrow> real \<times> Neuron \<Rightarrow> Neuron \<Rightarrow> real \<times> Neuron" where
  \<comment> \<open>The body of the loop of \<open>_getDownShiftNeuron\<close>, on
      \<open>(maxSuitableBitrate, result)\<close>.\<close>
  "downShiftStep currentNeuron currentThroughput acc n =
     (if n_bitrate n < n_bitrate currentNeuron \<and> n_bitrate n > fst acc \<and>
         currentThroughput > n_bitrate n
      then (n_bitrate n, n) else acc)"

definition getDownShiftNeuron :: "Neuron list option \<Rightarrow> Neuron \<Rightarrow> real \<Rightarrow> Neuron" where
  "getDownShiftNeuron som currentNeuron currentThroughput =
     (case som of
        None \<Rightarrow> currentNeuron
      | Some ns \<Rightarrow>
          snd (foldl (downShiftStep currentNeuron currentThroughput) (0, currentNeuron) ns))"

subsection \<open>The k-means++ seeding\<close>

text \<open>
  \<open>Math.random()\<close> is a parameter: \<open>rnd k\<close> is the number its \<open>k\<close>-th call during
  \<open>getNextQuality\<close> returns.
\<close>

definition getRandomData :: "(nat \<Rightarrow> real) \<Rightarrow> real \<Rightarrow> nat \<Rightarrow> real list list" where
  "getRandomData rnd maxThroughput n =
     map (\<lambda>i. [rnd (4 * i) * maxThroughput, rnd (4 * i + 1), rnd (4 * i + 2), rnd (4 * i + 3)])
       [0..<n]"

definition minDistanceStep :: "real list \<Rightarrow> real option \<Rightarrow> real list \<Rightarrow> error + real option" where
  \<comment> \<open>The body of the inner loop over the centers, on \<open>minDistance\<close> (\<open>None\<close> is
      \<open>null\<close>).\<close>
  "minDistanceStep point minDistance c =
     (case getDistance point c [1, 1, 1, 1] of
        Inl e \<Rightarrow> Inl e
      | Inr d \<Rightarrow>
          (case minDistance of
             None \<Rightarrow> Inr (Some d)
           | Some m \<Rightarrow> Inr (if d < m then Some d else minDistance)))"

definition minDistanceTo :: "real list list \<Rightarrow> real list \<Rightarrow> error + real option" where
  \<comment> \<open>The smallest distance of a point to a center.\<close>
  "minDistanceTo centers point = foldE (minDistanceStep point) None centers"

definition nullAs0 :: "real option \<Rightarrow> real" where
  \<comment> \<open>\<open>null\<close> in a comparison counts as 0.\<close>
  "nullAs0 v = (case v of None \<Rightarrow> 0 | Some x \<Rightarrow> x)"

definition farthestStep ::
    "real list list \<Rightarrow> real list option \<times> real option \<Rightarrow> real list
       \<Rightarrow> error + real list option \<times> real option" where
  \<comment> \<open>The body of the loop over the data set, on \<open>(nextPoint, maxDistance)\<close>.\<close>
  "farthestStep centers acc currentPoint =
     (case minDistanceTo centers currentPoint of
        Inl e \<Rightarrow> Inl e
      | Inr minDistance \<Rightarrow>
          (case snd acc of
             None \<Rightarrow> Inr (Some currentPoint, minDistance)
           | Some maxDistance \<Rightarrow>
               if nullAs0 minDistance > maxDistance then Inr (Some currentPoint, minDistance)
               else Inr acc))"

definition farthestPoint :: "real list list \<Rightarrow> real list list \<Rightarrow> error + real list option" where
  \<comment> \<open>One round of the seeding loop: the point of the data set farthest from its
      nearest center (\<open>None\<close> is \<open>null\<close>, when the data set is empty).\<close>
  "farthestPoint randomDataSet centers =
     (case foldE (farthestStep centers) (None, None) randomDataSet of
        Inl e \<Rightarrow> Inl e
      | Inr acc \<Rightarrow> Inr (fst acc))"

definition seedStep :: "real list list \<Rightarrow> real list list \<Rightarrow> nat \<Rightarrow> error + real list list" where
  \<comment> \<open>The body of the seeding loop, on \<open>centers\<close>. Pushing a \<open>null\<close> point puts a value
      that is no array among the centers; the next distance to it is a TypeError.\<close>
  "seedStep randomDataSet centers k =
     (case farthestPoint randomDataSet centers of
        Inl e \<Rightarrow> Inl e
      | Inr None \<Rightarrow> Inl TypeError
      | Inr (Some nextPoint) \<Rightarrow> Inr (centers @ [nextPoint]))"

definition seedCenters :: "real list list \<Rightarrow> nat \<Rightarrow> error + real list list" where
  \<comment> \<open>\<open>centers\<close> after the seeding loop \<open>for (k = 1; k < n; k++)\<close>. On an empty data
      set \<open>randomDataSet[0]\<close> is undefined, to the same effect as a \<open>null\<close> point.\<close>
  "seedCenters randomDataSet n =
     (case randomDataSet of
        [] \<Rightarrow> Inl TypeError
      | p0 # ps \<Rightarrow> foldE (seedStep randomDataSet) [p0] [1..<n])"

definition sumDistancesStep :: "real list list \<Rightarrow> nat \<Rightarrow> real \<Rightarrow> nat \<Rightarrow> error + real" where
  "sumDistancesStep centers i distance j =
     (if i = j then Inr distance
      else case getDistance (centers ! i) (centers ! j) [1, 1, 1, 1] of
             Inl e \<Rightarrow> Inl e
           | Inr d \<Rightarrow> Inr (distance + d))"

definition sumDistances :: "real list list \<Rightarrow> nat \<Rightarrow> error + real" where
  \<comment> \<open>The sum of the distances of center \<open>i\<close> to the other centers.\<close>
  "sumDistances centers i = foldE (sumDistancesStep centers i) 0 [0..<length centers]"

definition leastSimilarStep ::
    "real list list \<Rightarrow> real option \<times> nat option \<Rightarrow> nat \<Rightarrow> error + real option \<times> nat option" where
  \<comment> \<open>The body of the loop that looks for the least similar center, on
      \<open>(maxDistance, leastSimilarIndex)\<close>.\<close>
  "leastSimilarStep centers acc i =
     (case sumDistances centers i of
        Inl e \<Rightarrow> Inl e
      | Inr distance \<Rightarrow>
          (case fst acc of
             None \<Rightarrow> Inr (Some distance, Some i)
           | Some maxDistance \<Rightarrow>
               if distance > maxDistance then Inr (Some distance, Some i) else Inr acc))"

definition leastSimilar :: "real list list \<Rightarrow> error + nat option" where
  \<comment> \<open>\<open>leastSimilarIndex\<close>: the first center with the largest sum of distances.\<close>
  "leastSimilar centers =
     (case foldE (leastSimilarStep centers) (None, None) [0..<length centers] of
        Inl e \<Rightarrow> Inl e
      | Inr acc \<Rightarrow> Inr (snd acc))"

definition nearestStep ::
    "real list \<Rightarrow> real list list \<Rightarrow> real option \<times> nat option \<Rightarrow> nat
       \<Rightarrow> error + real option \<times> nat option" where
  \<comment> \<open>The body of the index scan of the sorting loop, on \<open>(minDistance, minIndex)\<close>.\<close>
  "nearestStep first centers acc i =
     (case getDistance first (centers ! i) [1, 1, 1, 1] of
        Inl e \<Rightarrow> Inl e
      | Inr distance \<Rightarrow>
          (case fst acc of
             None \<Rightarrow> Inr (Some distance, Some i)
           | Some m \<Rightarrow> if distance < m then Inr (Some distance, Some i) else Inr acc))"

definition nearestIndex :: "real list \<Rightarrow> real list list \<Rightarrow> error + nat option" where
  \<comment> \<open>\<open>minIndex\<close> of one round of the sorting loop: the first center nearest to
      \<open>sortedCenters[0]\<close>.\<close>
  "nearestIndex first centers =
     (case foldE (nearestStep first centers) (None, None) [0..<length centers] of
        Inl e \<Rightarrow> Inl e
      | Inr acc \<Rightarrow> Inr (snd acc))"

definition splice1 :: "nat \<Rightarrow> 'a list \<Rightarrow> 'a list" where
  \<comment> \<open>\<open>arr.splice(i, 1)\<close>: the array without its element at index \<open>i\<close>.\<close>
  "splice1 i arr = take i arr @ drop (Suc i) arr"


lemma foldE_invariant:
  assumes "P a"
    and "\<And>a x a'. P a \<Longrightarrow> x \<in> set xs \<Longrightarrow> f a x = Inr a' \<Longrightarrow> P a'"
    and "foldE f a xs = Inr b"
  shows "P b"
  using assms
proof (induction xs arbitrary: a)
  case Nil
  then show ?case by simp
next
  case (Cons x xs)
  from Cons.prems(3) obtain a' where a': "f a x = Inr a'" "foldE f a' xs = Inr b"
    by (cases "f a x") simp_all
  have pa': "P a'"
    by (rule Cons.prems(2) [OF Cons.prems(1) _ a'(1)]) simp
  show ?case
  proof (rule Cons.IH [OF pa' _ a'(2)])
    fix c y c'
    assume "P c" "y \<in> set xs" "f c y = Inr c'"
    then show "P c'"
      using Cons.prems(2) [of c y c'] by simp
  qed
qed

lemma nearestStep_lt:
  assumes "nearestStep first centers acc i = Inr acc'" and "i < n"
    and "\<forall>k. snd acc = Some k \<longrightarrow> k < n"
  shows "\<forall>k. snd acc' = Some k \<longrightarrow> k < n"
  using assms by (auto simp: nearestStep_def split: sum.splits option.splits if_splits)

lemma nearestIndex_lt:
  assumes "nearestIndex first centers = Inr (Some i)"
  shows "i < length centers"
proof -
  from assms obtain acc where
    fold: "foldE (nearestStep first centers) (None, None) [0..<length centers] = Inr acc"
    and acc: "snd acc = Some i"
    by (auto simp: nearestIndex_def split: sum.splits)
  have "\<forall>k. snd acc = Some k \<longrightarrow> k < length centers"
  proof (rule foldE_invariant [where P = "\<lambda>a. \<forall>k. snd a = Some k \<longrightarrow> k < length centers",
        OF _ _ fold])
    show "\<forall>k. snd (None :: real option, None :: nat option) = Some k \<longrightarrow> k < length centers"
      by simp
  next
    fix a x a'
    assume "\<forall>k. snd a = Some k \<longrightarrow> k < length centers" "x \<in> set [0..<length centers]"
      "nearestStep first centers a x = Inr a'"
    then show "\<forall>k. snd a' = Some k \<longrightarrow> k < length centers"
      using nearestStep_lt [of first centers a x a' "length centers"] by simp
  qed
  with acc show ?thesis by simp
qed

function sortRest :: "real list \<Rightarrow> real list list \<Rightarrow> real list list \<Rightarrow> error + real list list" where
  \<comment> \<open>The loop \<open>while (centers.length > 0)\<close> that moves the centers to
      \<open>sortedCenters\<close>, nearest to \<open>sortedCenters[0]\<close> first. The index scan of a
      non-empty array always finds an index (lemma \<open>nearestIndex_some\<close>).\<close>
  "sortRest first centers sortedCs =
     (if centers = [] then Inr sortedCs
      else case nearestIndex first centers of
             Inl e \<Rightarrow> Inl e
           | Inr None \<Rightarrow> Inl TypeError
           | Inr (Some minIndex) \<Rightarrow>
               sortRest first (splice1 minIndex centers) (sortedCs @ [centers ! minIndex]))"
  by pat_completeness auto
termination
proof (relation "measure (\<lambda>(first, centers, sortedCs). length centers)")
  show "wf (measure (\<lambda>(first, centers, sortedCs). length centers))" by simp
next
  fix first :: "real list" and centers sortedCs :: "real list list" and x2 x2a
  assume "centers \<noteq> []" "nearestIndex first centers = Inr x2" "x2 = Some x2a"
  then have "x2a < length centers" using nearestIndex_lt by simp
  then show "((first, splice1 x2a centers, sortedCs @ [centers ! x2a]), (first, centers, sortedCs))
               \<in> measure (\<lambda>(first, centers, sortedCs). length centers)"
    by (simp add: splice1_def)
qed

declare sortRest.simps [simp del]

definition getInitialKmeansPlusPlusCenters ::
    "(nat \<Rightarrow> real) \<Rightarrow> Neuron list \<Rightarrow> error + real list list" where
  \<comment> \<open>\<open>_getInitialKmeansPlusPlusCenters(somElements)\<close>; \<open>this.somBitrateNeurons\<close> is
      \<open>somElements\<close> when it is called.\<close>
  "getInitialKmeansPlusPlusCenters rnd somElements =
     (let n = length somElements;
          randomDataSet = getRandomData rnd (getMaxThroughput (Some somElements)) (n\<^sup>2)
      in case seedCenters randomDataSet n of
           Inl e \<Rightarrow> Inl e
         | Inr centers \<Rightarrow>
             (case leastSimilar centers of
                Inl e \<Rightarrow> Inl e
              | Inr None \<Rightarrow> Inl TypeError
              | Inr (Some leastSimilarIndex) \<Rightarrow>
                  sortRest (centers ! leastSimilarIndex) (splice1 leastSimilarIndex centers)
                    [centers ! leastSimilarIndex]))"

definition buildNeurons :: "Level list \<Rightarrow> real \<Rightarrow> Neuron list" where
  \<comment> \<open>One neuron per level, in the order of the ladder.\<close>
  "buildNeurons bitrateList magnitude =
     map (\<lambda>i. \<lparr>qualityIndex = i, n_bitrate = bitrate (bitrateList ! i),
                n_state = \<lparr>s_throughput = bitrate (bitrateList ! i) / magnitude,
                           s_latency = 0, s_rebuffer = 0, s_switch = 0\<rparr>\<rparr>)
       [0..<length bitrateList]"

definition getSomBitrateNeurons ::
    "(nat \<Rightarrow> real) \<Rightarrow> Level list \<Rightarrow> LearningAbrController
       \<Rightarrow> error + Neuron list \<times> LearningAbrController" where
  \<comment> \<open>\<open>_getSomBitrateNeurons(bitrateList)\<close>: the neurons, built on the first call.\<close>
  "getSomBitrateNeurons rnd bitrateList ctl =
     (case somBitrateNeurons ctl of
        Some ns \<Rightarrow> Inr (ns, ctl)
      | None \<Rightarrow>
          (case bitrateList of
             [] \<Rightarrow> Inl TypeError
           | l0 # ls \<Rightarrow>
               (let bitrateVector = map bitrate bitrateList;
                    minBitrate' = foldl (\<lambda>m b. if b < m then b else m) (bitrate l0) bitrateVector
                in case getMagnitude bitrateVector of
                     Inl e \<Rightarrow> Inl e
                   | Inr magnitude \<Rightarrow>
                       (let neurons = buildNeurons bitrateList magnitude;
                            minNeuron = (case filter (\<lambda>n. n_bitrate n = minBitrate') neurons of
                                           [] \<Rightarrow> None | ms \<Rightarrow> Some (last ms))
                        in case getInitialKmeansPlusPlusCenters rnd neurons of
                             Inl e \<Rightarrow> Inl e
                           | Inr centers \<Rightarrow>
                               Inr (neurons,
                                    ctl\<lparr>somBitrateNeurons := Some neurons,
                                        bitrateNormalizationFactor := magnitude,
                                        minBitrate := minBitrate',
                                        minBitrateNeuron := minNeuron,
                                        sortedCenters := Some centers\<rparr>)))))"

definition manualWeightSelection :: "LearningAbrController \<Rightarrow> LearningAbrController" where
  "manualWeightSelection ctl = ctl\<lparr>weights := Some [4 / 10, 4 / 10, 4 / 10, 4 / 10]\<rparr>"

definition randomWeightSelection ::
    "(nat \<Rightarrow> real) \<Rightarrow> nat \<Rightarrow> Neuron list \<Rightarrow> LearningAbrController \<Rightarrow> LearningAbrController" where
  \<comment> \<open>\<open>_randomWeightSelection\<close>: four Xavier weights, drawn from the random numbers
      from position \<open>k\<close> on.\<close>
  "randomWeightSelection rnd k somElements ctl =
     (let upperBound = sqrt (2 / real (length somElements))
      in ctl\<lparr>weights := Some (map (\<lambda>i. rnd (k + i) * upperBound) [0..<4])\<rparr>)"

definition dynamicWeightSelection ::
    "LoLpWeightSelector \<Rightarrow> Neuron list \<Rightarrow> real \<Rightarrow> real \<Rightarrow> real \<Rightarrow> real \<Rightarrow> real
       \<Rightarrow> LearningAbrController \<Rightarrow> error + LearningAbrController \<times> LoLpWeightSelector" where
  \<comment> \<open>\<open>_dynamicWeightSelection\<close>. Without weights the last sorted center is taken
      (\<open>undefined\<close>, here \<open>None\<close>, when there is no center).\<close>
  "dynamicWeightSelection ws somElements currentLatency currentBuffer rebuffer currentThroughput
       rate ctl =
     (case (case weights ctl of
              Some wv \<Rightarrow> Inr (Some wv)
            | None \<Rightarrow>
                (case sortedCenters ctl of
                   None \<Rightarrow> Inl TypeError
                 | Some sc \<Rightarrow> Inr (if sc = [] then None else Some (last sc)))) of
        Inl e \<Rightarrow> Inl e
      | Inr weights1 \<Rightarrow>
          (case findWeightVector ws somElements currentLatency currentBuffer rebuffer
                  currentThroughput rate of
             (weightVector, ws') \<Rightarrow>
               Inr (ctl\<lparr>weights := (case weightVector of WVector wv \<Rightarrow> Some wv | _ \<Rightarrow> weights1)\<rparr>,
                    ws')))"

record Winner =
  minDistance :: "real option"
  minIndex :: "nat option"
  winnerNeuron :: "nat option"
  winnerWeights :: "real list option"

text \<open>\<open>winnerNeuron\<close> is the position of the winning neuron among \<open>somElements\<close>.\<close>

definition setFirst :: "real \<Rightarrow> real list \<Rightarrow> real list" where
  \<comment> \<open>\<open>arr[0] = v\<close>, which gives an empty array its first element.\<close>
  "setFirst v arr = (if arr = [] then [v] else arr[0 := v])"

definition winnerStep ::
    "LoLpWeightSelector \<Rightarrow> LearningAbrController \<Rightarrow> Neuron list \<Rightarrow> real \<Rightarrow> real \<Rightarrow> real
       \<Rightarrow> Winner \<Rightarrow> nat \<Rightarrow> error + Winner" where
  \<comment> \<open>The body of the loop that looks for the best matching unit, at index \<open>i\<close>.\<close>
  "winnerStep ws ctl somElements throughput throughputNormalized currentBuffer acc i =
     (case weights ctl of
        None \<Rightarrow> Inl TypeError
      | Some wv \<Rightarrow>
          (let somNeuron = somElements ! i;
               somData = stateVector somNeuron;
               throughputDelta = 10000;
               nextBuffer = getNextBufferWithBitrate ws (n_bitrate somNeuron) currentBuffer throughput;
               isBufferLow = nextBuffer < ws_bufferMin ws;
               distanceWeights =
                 (if (n_bitrate somNeuron > throughput - throughputDelta \<or> isBufferLow) \<and>
                     n_bitrate somNeuron \<noteq> minBitrate ctl
                  then setFirst 100 wv else wv)
           in case getDistance somData [throughputNormalized, 0, 0, 0] distanceWeights of
                Inl e \<Rightarrow> Inl e
              | Inr distance \<Rightarrow>
                  (case minDistance acc of
                     None \<Rightarrow>
                       Inr \<lparr>minDistance = Some distance, minIndex = Some (qualityIndex somNeuron),
                            winnerNeuron = Some i, winnerWeights = Some distanceWeights\<rparr>
                   | Some m \<Rightarrow>
                       if distance < m
                       then Inr \<lparr>minDistance = Some distance,
                                 minIndex = Some (qualityIndex somNeuron),
                                 winnerNeuron = Some i, winnerWeights = Some distanceWeights\<rparr>
                       else Inr acc)))"

definition getNextQuality ::
    "(nat \<Rightarrow> real) \<Rightarrow> Level list \<Rightarrow> real \<Rightarrow> real \<Rightarrow> real \<Rightarrow> real \<Rightarrow> nat \<Rightarrow> LoLpWeightSelector
       \<Rightarrow> LearningAbrController
       \<Rightarrow> error + nat \<times> LearningAbrController \<times> LoLpWeightSelector" where
  \<comment> \<open>\<open>getNextQuality(bitrateList, throughput, latency, bufferSize, playbackRate,
      currentQualityIndex, dynamicWeightsSelector)\<close>; the result holds the controller and
      the weight selector as the call leaves them. With \<open>throughput = 0\<close> the download
      time is \<open>Infinity\<close> or NaN in the code (and \<open>Infinity\<close> takes the down-shift branch);
      the model follows the code only for a throughput that is not zero.\<close>
  "getNextQuality rnd bitrateList throughput lat bufferSize rate currentQualityIndex ws ctl0 =
     (case getSomBitrateNeurons rnd bitrateList ctl0 of
        Inl e \<Rightarrow> Inl e
      | Inr (somElements, ctl) \<Rightarrow>
          (let currentLatency = lat;
               currentBuffer = bufferSize;
               currentThroughput = throughput;
               throughputNormalized =
                 (if throughput / bitrateNormalizationFactor ctl > 1
                  then getMaxThroughput (somBitrateNeurons ctl)
                  else throughput / bitrateNormalizationFactor ctl);
               latencyNormalized = lat / latencyNormalizationFactor ctl
           in if currentQualityIndex < length somElements then
                (let currentNeuron = somElements ! currentQualityIndex;
                     downloadTime = (n_bitrate currentNeuron * ws_segmentDuration ws) / currentThroughput;
                     rebuffer = max 0 (downloadTime - currentBuffer)
                 in if currentBuffer - downloadTime < ws_bufferMin ws
                    then Inr (qualityIndex (getDownShiftNeuron (somBitrateNeurons ctl) currentNeuron
                                              currentThroughput), ctl, ws)
                    else
                      (case (if weightSelectionMode ctl = MANUAL
                             then Inr (manualWeightSelection ctl, ws)
                             else if weightSelectionMode ctl = RANDOM
                             then Inr (randomWeightSelection rnd
                                         (if somBitrateNeurons ctl0 = None
                                          then 4 * (length somElements)\<^sup>2 else 0)
                                         somElements ctl, ws)
                             else dynamicWeightSelection ws somElements currentLatency currentBuffer
                                    rebuffer currentThroughput rate ctl) of
                         Inl e \<Rightarrow> Inl e
                       | Inr (ctl1, ws1) \<Rightarrow>
                           (case foldE (winnerStep ws1 ctl1 somElements throughput
                                          throughputNormalized currentBuffer)
                                   \<lparr>minDistance = None, minIndex = None, winnerNeuron = None,
                                    winnerWeights = None\<rparr>
                                   [0..<length somElements] of
                              Inl e \<Rightarrow> Inl e
                            | Inr win \<Rightarrow>
                                (case (winnerNeuron win, minIndex win) of
                                   (Some wpos, Some mi) \<Rightarrow>
                                     (let bitrateSwitch =
                                            \<bar>n_bitrate currentNeuron - n_bitrate (somElements ! wpos)\<bar>
                                              / bitrateNormalizationFactor ctl1
                                      in case updateNeurons currentQualityIndex somElements
                                                [throughputNormalized, latencyNormalized, rebuffer,
                                                 bitrateSwitch] of
                                           Inl e \<Rightarrow> Inl e
                                         | Inr som1 \<Rightarrow>
                                             (case updateNeurons wpos som1
                                                     [throughputNormalized, 0, 0, bitrateSwitch] of
                                                Inl e \<Rightarrow> Inl e
                                              | Inr som2 \<Rightarrow>
                                                  Inr (mi, ctl1\<lparr>somBitrateNeurons := Some som2\<rparr>,
                                                       ws1)))
                                 | _ \<Rightarrow> Inl TypeError))))
              else Inl TypeError))"

definition lolp_wf :: "Level list \<Rightarrow> LearningAbrController \<Rightarrow> bool" where
  \<comment> \<open>The neurons of a controller that was built on the ladder \<open>L\<close>: one per level,
      each with its own position as quality index.\<close>
  "lolp_wf L ctl =
     (case somBitrateNeurons ctl of
        None \<Rightarrow> True
      | Some ns \<Rightarrow> length ns = length L \<and> (\<forall>i < length ns. qualityIndex (ns ! i) = i))"


section \<open>The orchestrator (AbrController)\<close>

text \<open>
  The bandwidth estimator (\<open>EwmaBandWidthEstimator\<close>) is not part of the sources. It is
  modelled by the list of the samples passed to \<open>bwEstimator.sample(durationMs, numBytes)\<close>,
  oldest first; what \<open>getEstimate()\<close> and \<open>canEstimate()\<close> answer after these samples is a
  parameter of the functions that ask.
\<close>

type_synonym BwSample = "real \<times> real"

record BwEstimator =
  getEstimate :: "BwSample list \<Rightarrow> real"
  canEstimate :: "BwSample list \<Rightarrow> bool"

datatype Qoe = QoeNull | QoeNaN | QoeValue real
  \<comment> \<open>The field \<open>lolpQoE\<close>: \<open>null\<close> (or \<open>undefined\<close>), NaN, or a number.\<close>

record AbrController =
  lastLoadedFragLevel :: nat
  forcedAutoLevel :: int
  timer :: bool
  fragCurrent :: "Fragment option"
  partCurrent :: "Part option"
  bitrateTestDelay :: real
  bwSamples :: "BwSample list"
  l2aRule :: "L2ARule option"
  llama :: "LlamaABR option"
  stallionRule :: "StallionRule option"
  lolpQoE :: Qoe
  ABRRule :: string
  lastABRRule :: string
  boxThroughputOn :: bool

text \<open>
  \<open>forcedAutoLevel\<close> is the field \<open>_nextAutoLevel\<close> (-1: not forced); \<open>timer\<close> says whether
  the 100 ms interval is armed.
\<close>

definition clearTimer :: "AbrController \<Rightarrow> AbrController" where
  "clearTimer c = c\<lparr>timer := False\<rparr>"

definition trimEnds :: "'a list \<Rightarrow> 'a list" where
  \<comment> \<open>\<open>arr.filter((d, i) => i > 0 && i < arr.length - 1)\<close>\<close>
  "trimEnds arr = map (\<lambda>i. arr ! i) (filter (\<lambda>i. 0 < i \<and> int i < int (length arr) - 1) [0..<length arr])"

definition bufferedSample :: "AbrController \<Rightarrow> Fragment \<Rightarrow> LoaderStats \<Rightarrow> BwSample" where
  \<comment> \<open>The arguments of the one \<open>bwEstimator.sample\<close> call of \<open>onFragBuffered\<close>.\<close>
  "bufferedSample c frag st =
     (let processingMs = parsing_end st - loading_start st;
          fragProcessingMs = loading_end (stats frag) - loading_start (stats frag)
      in if boxThroughputOn c then
           (let startTD = startTimeData (stats frag);
                endTD = endTimeData (stats frag);
                startData = trimEnds startTD;
                endData = trimEnds endTD
            in if real (length startData) * real (length endData) > 0 then
                 (let boxProcessingMs = timestamp (last endData) - timestamp (hd startData);
                      boxLoaded' = boxLoaded (stats frag) - td_len (last endTD)
                  in (boxProcessingMs, boxLoaded'))
               else (fragProcessingMs, loaded (stats frag)))
         else if loaded st \<noteq> 0 then (processingMs, loaded st)
         else (fragProcessingMs, loaded (stats frag)))"

definition onFragBuffered ::
    "BwEstimator \<Rightarrow> Fragment \<Rightarrow> Part option \<Rightarrow> AbrController
       \<Rightarrow> AbrController \<times> Fragment \<times> Part option" where
  \<comment> \<open>\<open>onFragBuffered(event, {frag, part})\<close>. The result holds the controller and the
      fragment and part of the event as the handler leaves them (it writes
      \<open>stats.bwEstimate\<close>).\<close>
  "onFragBuffered bwe frag part c =
     (let st = (case part of Some p \<Rightarrow> part_stats p | None \<Rightarrow> stats frag) in
      if aborted st then (c, frag, part)
      else if ftype frag \<noteq> MAIN \<or> sn frag = InitSegment then (c, frag, part)
      else
        (let processingMs = parsing_end st - loading_start st;
             samples = bwSamples c @ [bufferedSample c frag st];
             st' = st\<lparr>bwEstimate := getEstimate bwe samples\<rparr>;
             c' = c\<lparr>bwSamples := samples,
                    bitrateTestDelay := (if bitrateTest frag then processingMs / 1000 else 0)\<rparr>
         in case part of
              Some p \<Rightarrow> (c', frag, Some (p\<lparr>part_stats := st'\<rparr>))
            | None \<Rightarrow> (c', frag\<lparr>stats := st'\<rparr>, None)))"

datatype HlsEvent = FRAG_LOAD_EMERGENCY_ABORTED Fragment "Part option" LoaderStats

record AbandonEffects =
  ae_controller :: AbrController
  ae_nextLoadLevel :: "int option"
  ae_loaderAborted :: bool
  ae_triggered :: "HlsEvent list"

text \<open>
  What one timer tick does: the controller afterwards, the value written to
  \<open>hls.nextLoadLevel\<close> (if any), whether \<open>frag.loader.abort()\<close> was called, and the events
  triggered.
\<close>

definition noEffects :: "AbrController \<Rightarrow> AbandonEffects" where
  "noEffects c = \<lparr>ae_controller = c, ae_nextLoadLevel = None, ae_loaderAborted = False,
     ae_triggered = []\<rparr>"

definition levelAt :: "Level list \<Rightarrow> int \<Rightarrow> Level option" where
  \<comment> \<open>\<open>levels[i]\<close>: undefined outside the array.\<close>
  "levelAt ls i = (if 0 \<le> i \<and> nat i < length ls then Some (ls ! nat i) else None)"

function nextLevelLoop ::
    "Level list \<Rightarrow> int \<Rightarrow> real \<Rightarrow> real \<Rightarrow> real \<Rightarrow> int \<Rightarrow> real option
       \<Rightarrow> error + real option \<times> int" where
  \<comment> \<open>The loop over the lower levels, entered at \<open>nextLoadLevel\<close> with
      \<open>fragLevelNextLoadedDelay = delay\<close> (\<open>None\<close> is \<open>Number.POSITIVE_INFINITY\<close>). The result
      is the pair of both variables when the loop is left.\<close>
  "nextLevelLoop ls minAuto dur loadRate starvation nextLoadLevel delay =
     (if nextLoadLevel > minAuto then
        (case levelAt ls nextLoadLevel of
           None \<Rightarrow> Inl TypeError
         | Some lv \<Rightarrow>
             (let levelNextBitrate = maxBitrate lv;
                  d = (dur * levelNextBitrate) / (8 * (8 / 10) * loadRate)
              in if d < starvation then Inr (Some d, nextLoadLevel)
                 else nextLevelLoop ls minAuto dur loadRate starvation (nextLoadLevel - 1) (Some d)))
      else Inr (delay, nextLoadLevel))"
  by pat_completeness auto
termination
  by (relation "measure (\<lambda>(ls, minAuto, dur, loadRate, starvation, nextLoadLevel, delay).
        nat (nextLoadLevel - minAuto))") auto

declare nextLevelLoop.simps [simp del]

definition abandonStats :: "AbrController \<Rightarrow> Fragment \<Rightarrow> LoaderStats" where
  \<comment> \<open>\<open>part ? part.stats : frag.stats\<close>\<close>
  "abandonStats c frag = (case partCurrent c of Some p \<Rightarrow> part_stats p | None \<Rightarrow> stats frag)"

definition abandonDuration :: "AbrController \<Rightarrow> Fragment \<Rightarrow> real" where
  \<comment> \<open>\<open>part ? part.duration : frag.duration\<close>\<close>
  "abandonDuration c frag = (case partCurrent c of Some p \<Rightarrow> part_duration p | None \<Rightarrow> duration frag)"

definition bufferStarvationDelay :: "Hls \<Rightarrow> Media \<Rightarrow> real" where
  \<comment> \<open>\<open>(bufferInfo(media, pos, maxBufferHole).end - pos) / playbackRate\<close> with
      \<open>playbackRate = Math.abs(media.playbackRate)\<close>\<close>
  "bufferStarvationDelay hls m =
     (buf_end (bufferInfo hls) - currentTime m) / \<bar>playbackRate m\<bar>"

definition emergencySwitch ::
    "Fragment \<Rightarrow> LoaderStats \<Rightarrow> real \<Rightarrow> int \<Rightarrow> AbrController \<Rightarrow> AbandonEffects" where
  \<comment> \<open>Lines 319-340: the switch itself.\<close>
  "emergencySwitch frag st requestDelay nextLoadLevel c =
     (let c1 = clearTimer (c\<lparr>bwSamples := bwSamples c @ [(requestDelay, loaded st)]\<rparr>);
          c2 = (if hasLoader frag then c1\<lparr>fragCurrent := None, partCurrent := None\<rparr> else c1)
      in \<lparr>ae_controller = c2, ae_nextLoadLevel = Some nextLoadLevel,
          ae_loaderAborted = hasLoader frag,
          ae_triggered = [FRAG_LOAD_EMERGENCY_ABORTED frag (partCurrent c) st]\<rparr>)"

definition abandonRulesCheck :: "Hls \<Rightarrow> real \<Rightarrow> AbrController \<Rightarrow> error + AbandonEffects" where
  \<comment> \<open>\<open>_abandonRulesCheck\<close> at the time \<open>now = performance.now()\<close>.\<close>
  "abandonRulesCheck hls now c =
     (case fragCurrent c of
        None \<Rightarrow> Inr (noEffects c)
      | Some frag \<Rightarrow>
     (case media hls of
        None \<Rightarrow> Inr (noEffects c)
      | Some m \<Rightarrow>
          (let st = abandonStats c frag;
               dur = abandonDuration c frag
           in if aborted st then Inr (noEffects ((clearTimer c)\<lparr>forcedAutoLevel := - 1\<rparr>))
              else if \<not> autoLevelEnabled hls \<or> paused m \<or> playbackRate m = 0 \<or> readyState m = 0
              then Inr (noEffects c)
              else
                (let requestDelay = now - loading_start st;
                     rate = \<bar>playbackRate m\<bar>
                 in if requestDelay \<le> (500 * dur) / rate then Inr (noEffects c)
                    else
                      (case (if total st \<noteq> 0 then Some (total st)
                             else map_option (\<lambda>lv. max (loaded st) (js_round ((dur * maxBitrate lv) / 8)))
                                    (levelAt (levels hls) (int (level frag)))) of
                         None \<Rightarrow> Inl TypeError
                       | Some expectedLen \<Rightarrow>
                           (let loadRate = max 1 (if bwEstimate st \<noteq> 0 then bwEstimate st / 8
                                                  else (loaded st * 1000) / requestDelay);
                                fragLoadedDelay = (expectedLen - loaded st) / loadRate;
                                starvation = bufferStarvationDelay hls m
                            in if starvation \<ge> (2 * dur) / rate \<or> fragLoadedDelay \<le> starvation
                               then Inr (noEffects c)
                               else
                                 (case nextLevelLoop (levels hls) (minAutoLevel hls) dur loadRate
                                         starvation (int (level frag) - 1) None of
                                    Inl e \<Rightarrow> Inl e
                                  | Inr (fragLevelNextLoadedDelay, nextLoadLevel) \<Rightarrow>
                                      (case fragLevelNextLoadedDelay of
                                         None \<Rightarrow> Inr (noEffects c)
                                       | Some d \<Rightarrow>
                                           if d \<ge> fragLoadedDelay then Inr (noEffects c)
                                           else Inr (emergencySwitch frag st requestDelay
                                                       nextLoadLevel c)))))))))"

definition emergencyAborted :: "error + AbandonEffects \<Rightarrow> bool" where
  \<comment> \<open>The tick raised \<open>FRAG_LOAD_EMERGENCY_ABORTED\<close>, wrote \<open>hls.nextLoadLevel\<close> or
      aborted the loader.\<close>
  "emergencyAborted res =
     (case res of
        Inl e \<Rightarrow> False
      | Inr r \<Rightarrow> ae_triggered r \<noteq> [] \<or> ae_nextLoadLevel r \<noteq> None \<or> ae_loaderAborted r)"

definition AbrController_new :: AbrController where
  \<comment> \<open>The field initialisers of the class.\<close>
  "AbrController_new = \<lparr>lastLoadedFragLevel = 0, forcedAutoLevel = - 1, timer = False,
     fragCurrent = None, partCurrent = None, bitrateTestDelay = 0, bwSamples = [],
     l2aRule = None, llama = None, stallionRule = None, lolpQoE = QoeNull,
     ABRRule = ''LoLp'', lastABRRule = ''LoLp'', boxThroughputOn = True\<rparr>"

section \<open>The orchestrator: the next automatic level\<close>

text \<open>
  A decision is one read of the getter \<open>nextAutoLevel\<close>. Rule objects have an identity
  that a value does not show, so the model also lists what the decision does to rule
  objects, in order: each \<open>new\<close> of a rule class, each call of a held rule's \<open>update\<close>,
  and each held rule that is dropped by writing \<open>null\<close> to its field. The tags are those
  of \<open>ABRRule\<close>; \<open>''LoLp''\<close> stands for the class \<open>LearningAbrController\<close>.
\<close>

datatype RuleEvent = Constructed string | Updated string | Released string

datatype failure = Throws error | NotANumberState | NoReturn
  \<comment> \<open>A decision that gives no result in the model: an exception; L2A-LL's answer -1
      with its state filled with NaN; a constructor that does not return.\<close>

record NextLevel =
  nl_level :: int
  nl_controller :: AbrController
  nl_media :: "Media option"
  nl_events :: "RuleEvent list"

text \<open>
  \<open>nl_level\<close> is the value returned, \<open>nl_controller\<close> the controller afterwards,
  \<open>nl_media\<close> the media element afterwards (LoL+ writes its \<open>playbackRate\<close>).
\<close>

definition bitrateRangeKbps :: "Level list \<Rightarrow> error + real \<times> real" where
  \<comment> \<open>\<open>minBitrateKbps\<close> and \<open>maxBitrateKbps\<close>: they start from the first and the last
      level and are corrected by the loop; \<open>bitrateList[0].bitrate\<close> throws on an empty
      ladder.\<close>
  "bitrateRangeKbps bitrateList =
     (case bitrateList of
        [] \<Rightarrow> Inl TypeError
      | l0 # ls \<Rightarrow>
          Inr (foldl (\<lambda>(minKbps, maxKbps) lv.
                        (let b = bitrate lv / 1000
                         in if b > maxKbps then (minKbps, b)
                            else if b < minKbps then (b, maxKbps) else (minKbps, maxKbps)))
                 (bitrate l0 / 1000, bitrate (last bitrateList) / 1000) bitrateList))"

definition segmentEvaluator ::
    "Level list \<Rightarrow> nat \<Rightarrow> Fragment \<Rightarrow> real \<Rightarrow> real \<Rightarrow> error + LoLpQoeEvaluator" where
  \<comment> \<open>The block shared word for word by \<open>calculateQoE\<close> and \<open>_lolpLearningAbr\<close>: a new
      \<open>LoLpQoeEvaluator\<close>, set up for the current fragment, with the metrics of that
      fragment logged. \<open>bitrateList[currentLevel].bitrate\<close> throws outside the ladder.\<close>
  "segmentEvaluator bitrateList currentLevel frag lat speed =
     (case bitrateRangeKbps bitrateList of
        Inl e \<Rightarrow> Inl e
      | Inr (minKbps, maxKbps) \<Rightarrow>
          if currentLevel < length bitrateList then
            (let segmentDuration = duration frag;
                 currentBitrateKbps = bitrate (bitrateList ! currentLevel) / 1000;
                 lastFragmentDownloadTime =
                   (loading_end (stats frag) - loading_start (stats frag)) / 1000;
                 segmentRebufferTime =
                   (if lastFragmentDownloadTime > segmentDuration
                    then lastFragmentDownloadTime - segmentDuration else 0)
             in Inr (logSegmentMetrics currentBitrateKbps segmentRebufferTime lat speed
                       (setupPerSegmentQoe segmentDuration maxKbps minKbps LoLpQoeEvaluator_new)))
          else Inl TypeError)"

definition perSegmentTotalQoe :: "LoLpQoeEvaluator \<Rightarrow> Qoe" where
  \<comment> \<open>\<open>qoeEvaluator.getPerSegmentQoe()?.totalQoe\<close>\<close>
  "perSegmentTotalQoe ev =
     (case voPerSegmentQoeInfo ev of None \<Rightarrow> QoeNull | Some q \<Rightarrow> QoeValue (totalQoe q))"

definition calculateQoE :: "Hls \<Rightarrow> AbrController \<Rightarrow> error + AbrController" where
  \<comment> \<open>\<open>calculateQoE()\<close>. Without a media element \<open>hls.media?.playbackRate\<close> is
      \<open>undefined\<close>, and the total is NaN.\<close>
  "calculateQoE hls c =
     (case fragCurrent c of
        None \<Rightarrow> Inr (c\<lparr>lolpQoE := QoeNull\<rparr>)
      | Some frag \<Rightarrow>
          (case segmentEvaluator (levels hls) (lastLoadedFragLevel c) frag (latency hls)
                  (case media hls of Some m \<Rightarrow> playbackRate m | None \<Rightarrow> 1) of
             Inl e \<Rightarrow> Inl e
           | Inr ev \<Rightarrow>
               Inr (c\<lparr>lolpQoE := (case media hls of
                                     None \<Rightarrow> QoeNaN
                                   | Some m \<Rightarrow> perSegmentTotalQoe ev)\<rparr>)))"

subsection \<open>The default rule\<close>

definition levelMatches ::
    "Level list \<Rightarrow> AbrController \<Rightarrow> real \<Rightarrow> real \<Rightarrow> real \<Rightarrow> real \<Rightarrow> int \<Rightarrow> bool" where
  \<comment> \<open>The body of the loop of \<open>findBestLevel\<close> at level \<open>i\<close>: true when it returns
      \<open>i\<close>. A division by \<open>adjustedbw = 0\<close> gives NaN or \<open>-Infinity\<close> there, and either
      passes the test.\<close>
  "levelMatches ls c currentBw maxFetchDuration bwFactor bwUpFactor i =
     (let currentLevel = lastLoadedFragLevel c;
          lvl = levelAt ls (int currentLevel);
          live = (case lvl of Some lv \<Rightarrow> details_live lv = Some True | None \<Rightarrow> False);
          currentCodecSet = (case lvl of Some lv \<Rightarrow> codecSet lv | None \<Rightarrow> None);
          currentFragDuration =
            (case partCurrent c of
               Some p \<Rightarrow> part_duration p
             | None \<Rightarrow> (case fragCurrent c of Some f \<Rightarrow> duration f | None \<Rightarrow> 0))
      in case levelAt ls i of
           None \<Rightarrow> False
         | Some levelInfo \<Rightarrow>
             if (case currentCodecSet of
                   None \<Rightarrow> False
                 | Some cs \<Rightarrow> cs \<noteq> [] \<and> codecSet levelInfo \<noteq> Some cs)
             then False
             else
               (let target = (if partCurrent c \<noteq> None then details_partTarget levelInfo
                              else details_averagetargetduration levelInfo);
                    avgDuration = (if target \<noteq> 0 then target else currentFragDuration);
                    adjustedbw = (if i \<le> int currentLevel then bwFactor * currentBw
                                  else bwUpFactor * currentBw);
                    fetchDuration = (maxBitrate levelInfo * avgDuration) / adjustedbw
                in adjustedbw > maxBitrate levelInfo \<and>
                   (adjustedbw = 0 \<or> fetchDuration = 0 \<or>
                    (live \<and> bitrateTestDelay c = 0) \<or>
                    fetchDuration < maxFetchDuration)))"

function findBestLevelFrom :: "(int \<Rightarrow> bool) \<Rightarrow> int \<Rightarrow> int \<Rightarrow> int" where
  \<comment> \<open>\<open>for (let i = maxAutoLevel; i >= minAutoLevel; i--)\<close>, entered at \<open>i\<close>; -1 when no
      level matches.\<close>
  "findBestLevelFrom matches minAuto i =
     (if i \<ge> minAuto
      then (if matches i then i else findBestLevelFrom matches minAuto (i - 1))
      else - 1)"
  by pat_completeness auto
termination
  by (relation "measure (\<lambda>(matches, minAuto, i). nat (i - minAuto + 1))") auto

declare findBestLevelFrom.simps [simp del]

definition findBestLevel ::
    "Hls \<Rightarrow> AbrController \<Rightarrow> real \<Rightarrow> int \<Rightarrow> int \<Rightarrow> real \<Rightarrow> real \<Rightarrow> real \<Rightarrow> int" where
  "findBestLevel hls c currentBw minAuto maxAuto maxFetchDuration bwFactor bwUpFactor =
     findBestLevelFrom
       (levelMatches (levels hls) c currentBw maxFetchDuration bwFactor bwUpFactor)
       minAuto maxAuto"

definition getNextABRAutoLevel :: "BwEstimator \<Rightarrow> Hls \<Rightarrow> AbrController \<Rightarrow> error + int \<times> AbrController" where
  \<comment> \<open>\<open>getNextABRAutoLevel()\<close>, the rule of hls.js itself.\<close>
  "getNextABRAutoLevel bwe hls c =
     (let currentFragDuration =
            (case partCurrent c of
               Some p \<Rightarrow> part_duration p
             | None \<Rightarrow> (case fragCurrent c of Some f \<Rightarrow> duration f | None \<Rightarrow> 0));
          pos = (case media hls of Some m \<Rightarrow> currentTime m | None \<Rightarrow> 0);
          rate = (case media hls of
                    Some m \<Rightarrow> if playbackRate m \<noteq> 0 then \<bar>playbackRate m\<bar> else 1
                  | None \<Rightarrow> 1);
          avgbw = getEstimate bwe (bwSamples c);
          starvation = (buf_end (bufferInfo hls) - pos) / rate
      in case calculateQoE hls c of
           Inl e \<Rightarrow> Inl e
         | Inr c' \<Rightarrow>
             (let bestLevel = findBestLevel hls c' avgbw (minAutoLevel hls) (maxAutoLevel hls)
                                starvation (abrBandWidthFactor hls) (abrBandWidthUpFactor hls)
              in if bestLevel \<ge> 0 then Inr (bestLevel, c')
                 else
                   (let maxStarvation0 =
                          (if currentFragDuration \<noteq> 0
                           then min currentFragDuration (maxStarvationDelay hls)
                           else maxStarvationDelay hls);
                        testing = (starvation = 0 \<and> bitrateTestDelay c' \<noteq> 0);
                        maxLoading =
                          (if currentFragDuration \<noteq> 0
                           then min currentFragDuration (maxLoadingDelay hls)
                           else maxLoadingDelay hls);
                        maxStarvation = (if testing then maxLoading - bitrateTestDelay c'
                                         else maxStarvation0);
                        bwFactor = (if testing then 1 else abrBandWidthFactor hls);
                        bwUpFactor = (if testing then 1 else abrBandWidthUpFactor hls)
                    in Inr (max (findBestLevel hls c' avgbw (minAutoLevel hls) (maxAutoLevel hls)
                                   (starvation + maxStarvation) bwFactor bwUpFactor) 0,
                            c'))))"

subsection \<open>LoL+: the learning rule and the playback speed\<close>

definition liveCatchupPlaybackRate :: real where "liveCatchupPlaybackRate = 3 / 10"
definition liveCatchUpMinDrift :: real where "liveCatchUpMinDrift = 5 / 100"
definition playbackBufferMin :: real where "playbackBufferMin = 5 / 10"
definition liveCatchupLatencyThreshold :: real where "liveCatchupLatencyThreshold = 60"

definition lolpNeedToCatchUpCustom :: "real \<Rightarrow> real \<Rightarrow> real \<Rightarrow> real \<Rightarrow> real \<Rightarrow> real \<Rightarrow> bool" where
  "lolpNeedToCatchUpCustom currentLiveLatency liveDelay minDrift currentBuffer bufferMin
       latencyThreshold =
     (let latencyDrift = \<bar>currentLiveLatency - liveDelay\<bar>
      in currentLiveLatency \<le> latencyThreshold \<and>
         (latencyDrift > minDrift \<or> currentBuffer < bufferMin))"

definition needToCatchUp :: "Hls \<Rightarrow> bool" where
  "needToCatchUp hls =
     lolpNeedToCatchUpCustom (latency hls) (targetLatencyOr0 hls) liveCatchUpMinDrift
       (toFixed2 (buf_len (bufferInfo hls))) playbackBufferMin liveCatchupLatencyThreshold"

definition calculateNewPlaybackRateLolP ::
    "bool \<Rightarrow> real \<Rightarrow> real \<Rightarrow> real \<Rightarrow> real \<Rightarrow> real \<Rightarrow> real \<Rightarrow> real option" where
  \<comment> \<open>\<open>_calculateNewPlaybackRateLolP\<close>; \<open>None\<close> is \<open>null\<close>. \<open>isSafari\<close> is what the test of
      \<open>navigator.userAgent\<close> answers.\<close>
  "calculateNewPlaybackRateLolP isSafari cpr currentLiveLatency liveDelay bufferMin bufferLevel
       currentPlaybackRate =
     (let newRate =
            (if bufferLevel < bufferMin then
               (let deltaBuffer = bufferLevel - bufferMin;
                    d = deltaBuffer * 5;
                    s = (cpr * 2) / (1 + exp (- d))
                in 1 - cpr + s)
             else if \<bar>currentLiveLatency - liveDelay\<bar> \<le> (2 / 100) * liveDelay then 1
             else
               (let deltaLatency = currentLiveLatency - liveDelay;
                    d = deltaLatency * 5;
                    s = (cpr * 2) / (1 + exp (- d))
                in 1 - cpr + s));
          minPlaybackRateChange = (if isSafari then 25 / 100 else 2 / 100)
      in if \<bar>currentPlaybackRate - newRate\<bar> \<le> minPlaybackRateChange then None
         else Some newRate)"

definition startPlaybackCatchUp :: "bool \<Rightarrow> Hls \<Rightarrow> Media \<Rightarrow> real" where
  "startPlaybackCatchUp isSafari hls m =
     (case calculateNewPlaybackRateLolP isSafari liveCatchupPlaybackRate (latency hls)
             (targetLatencyOr0 hls) playbackBufferMin (toFixed2 (buf_len (bufferInfo hls)))
             (playbackRate m) of
        None \<Rightarrow> playbackRate m
      | Some newRate \<Rightarrow> newRate)"

definition LoLpPlaybackSpeed :: "bool \<Rightarrow> Hls \<Rightarrow> real" where
  \<comment> \<open>\<open>_LoLpPlaybackSpeed()\<close>; \<open>useLoLpPlayback\<close> is the constant true.\<close>
  "LoLpPlaybackSpeed isSafari hls =
     (case media hls of
        None \<Rightarrow> 1
      | Some m \<Rightarrow>
          if playbackRate m > 0 \<and> \<not> paused m \<and> \<not> seeking m \<and> needToCatchUp hls
          then startPlaybackCatchUp isSafari hls m else 1)"

definition lolpLearningAbr ::
    "(nat \<Rightarrow> real) \<Rightarrow> bool \<Rightarrow> Hls \<Rightarrow> AbrController \<Rightarrow> failure + NextLevel" where
  \<comment> \<open>\<open>_lolpLearningAbr()\<close>. The learning controller is a local constant, made by
      \<open>new LearningAbrController()\<close> before anything else; \<open>bwEstimator\<close> is always set, so
      \<open>throughput\<close> is \<open>hls.bandwidthEstimate / 1000\<close>.\<close>
  "lolpLearningAbr rnd isSafari hls c =
     (let currentQuality = lastLoadedFragLevel c;
          mediaType =
            (case levelAt (levels hls) (int currentQuality) of
               None \<Rightarrow> ''VOD''
             | Some lv \<Rightarrow>
                 (case details_type lv of
                    None \<Rightarrow> ''VOD''
                  | Some t \<Rightarrow> if t = [] then ''VOD'' else t));
          currentBufferLevel = toFixed2 (buf_len (bufferInfo hls));
          unchanged = \<lparr>nl_level = int currentQuality, nl_controller = c, nl_media = media hls,
                       nl_events = [Constructed ''LoLp'']\<rparr>
      in if mediaType \<noteq> ''VOD'' then Inr unchanged
         else
           (case (fragCurrent c, media hls, bandwidthEstimate hls) of
              (Some frag, Some m, Some bw) \<Rightarrow>
                (let speed = (if playbackRate m \<noteq> 0 then \<bar>playbackRate m\<bar> else 1);
                     throughput = bw / 1000
                 in case segmentEvaluator (levels hls) currentQuality frag (latency hls) speed of
                      Inl e \<Rightarrow> Inl (Throws e)
                    | Inr ev \<Rightarrow>
                        (case LoLpWeightSelector_new (15 / 10) (3 / 10) (duration frag) ev of
                           None \<Rightarrow> Inl NoReturn
                         | Some ws \<Rightarrow>
                             (case getNextQuality rnd (levels hls) (throughput * 1000)
                                     (latency hls) currentBufferLevel speed currentQuality ws
                                     LearningAbrController_new of
                                Inl e \<Rightarrow> Inl (Throws e)
                              | Inr (quality, ctl, ws') \<Rightarrow>
                                  Inr \<lparr>nl_level = int quality,
                                       nl_controller = c\<lparr>lolpQoE := perSegmentTotalQoe ev\<rparr>,
                                       nl_media =
                                         Some (m\<lparr>playbackRate := LoLpPlaybackSpeed isSafari hls\<rparr>),
                                       nl_events = [Constructed ''LoLp'']\<rparr>)))
            | _ \<Rightarrow> Inr unchanged))"

subsection \<open>The three rules kept in a field\<close>

definition withQoE ::
    "Hls \<Rightarrow> int \<Rightarrow> RuleEvent list \<Rightarrow> AbrController \<Rightarrow> failure + NextLevel" where
  \<comment> \<open>The end of \<open>_L2AAbr\<close>, \<open>_LlamaAbr\<close> and \<open>_StallionAbr\<close>:
      \<open>this.calculateQoE(); return quality;\<close>\<close>
  "withQoE hls quality events c =
     (case calculateQoE hls c of
        Inl e \<Rightarrow> Inl (Throws e)
      | Inr c' \<Rightarrow> Inr \<lparr>nl_level = quality, nl_controller = c', nl_media = media hls,
                        nl_events = events\<rparr>)"

definition L2AAbr :: "Hls \<Rightarrow> AbrController \<Rightarrow> failure + NextLevel" where
  \<comment> \<open>\<open>_L2AAbr()\<close>\<close>
  "L2AAbr hls c =
     (let (r, events) =
            (case l2aRule c of
               None \<Rightarrow> (L2ARule_new (fragCurrent c) (lastLoadedFragLevel c),
                         [Constructed ''L2ARule''])
             | Some r0 \<Rightarrow> (L2ARule_update (fragCurrent c) (lastLoadedFragLevel c) r0,
                           [Updated ''L2ARule'']))
      in case l2a_getMaxIndex hls r of
           Quality quality r' \<Rightarrow> withQoE hls (int quality) events (c\<lparr>l2aRule := Some r'\<rparr>)
         | MinusOne \<Rightarrow>
             (case calculateQoE hls c of
                Inl e \<Rightarrow> Inl (Throws e)
              | Inr c' \<Rightarrow> Inl NotANumberState))"

definition LlamaAbr :: "Hls \<Rightarrow> AbrController \<Rightarrow> failure + NextLevel" where
  \<comment> \<open>\<open>_LlamaAbr()\<close>: with no rule held and no current fragment, none is made and the
      quality is 0.\<close>
  "LlamaAbr hls c =
     (case llama c of
        None \<Rightarrow>
          (case fragCurrent c of
             None \<Rightarrow> withQoE hls 0 [] c
           | Some f \<Rightarrow>
               (case LlamaABR_new (fragCurrent c) (lastLoadedFragLevel c) of
                  Inl e \<Rightarrow> Inl (Throws e)
                | Inr r \<Rightarrow>
                    (case llama_getMaxIndex hls r of
                       Inl e \<Rightarrow> Inl (Throws e)
                     | Inr (quality, r') \<Rightarrow>
                         withQoE hls (int quality) [Constructed ''Llama'']
                           (c\<lparr>llama := Some r'\<rparr>))))
      | Some r0 \<Rightarrow>
          (case LlamaABR_update (fragCurrent c) (lastLoadedFragLevel c) r0 of
             Inl e \<Rightarrow> Inl (Throws e)
           | Inr r \<Rightarrow>
               (case llama_getMaxIndex hls r of
                  Inl e \<Rightarrow> Inl (Throws e)
                | Inr (quality, r') \<Rightarrow>
                    withQoE hls (int quality) [Updated ''Llama''] (c\<lparr>llama := Some r'\<rparr>))))"

definition StallionAbr :: "Hls \<Rightarrow> AbrController \<Rightarrow> failure + NextLevel" where
  \<comment> \<open>\<open>_StallionAbr()\<close>\<close>
  "StallionAbr hls c =
     (let (r, events) =
            (case stallionRule c of
               None \<Rightarrow> (StallionRule_new (fragCurrent c) (lastLoadedFragLevel c),
                         [Constructed ''StallionRule''])
             | Some r0 \<Rightarrow> (StallionRule_update (fragCurrent c) (lastLoadedFragLevel c) r0,
                           [Updated ''StallionRule'']))
      in case stallion_getMaxIndex hls r of
           Inl e \<Rightarrow> Inl (Throws e)
         | Inr (quality, r') \<Rightarrow>
             withQoE hls (int quality) events (c\<lparr>stallionRule := Some r'\<rparr>))"

subsection \<open>The getter\<close>

definition releaseRules :: "AbrController \<Rightarrow> AbrController \<times> RuleEvent list" where
  \<comment> \<open>\<open>switch (this.lastABRRule)\<close>: the rule of the last tag is dropped when the tag is
      no longer the active one.\<close>
  "releaseRules c =
     (if lastABRRule c = ''L2ARule'' then
        (if ABRRule c \<noteq> ''L2ARule''
         then (c\<lparr>l2aRule := None\<rparr>, if l2aRule c = None then [] else [Released ''L2ARule''])
         else (c, []))
      else if lastABRRule c = ''Llama'' then
        (if ABRRule c \<noteq> ''Llama''
         then (c\<lparr>llama := None\<rparr>, if llama c = None then [] else [Released ''Llama''])
         else (c, []))
      else if lastABRRule c = ''StallionRule'' then
        (if ABRRule c \<noteq> ''StallionRule''
         then (c\<lparr>stallionRule := None\<rparr>,
               if stallionRule c = None then [] else [Released ''StallionRule''])
         else (c, []))
      else (c, []))"

definition dispatch ::
    "BwEstimator \<Rightarrow> (nat \<Rightarrow> real) \<Rightarrow> bool \<Rightarrow> Hls \<Rightarrow> AbrController \<Rightarrow> failure + NextLevel" where
  \<comment> \<open>\<open>switch (this.ABRRule)\<close>\<close>
  "dispatch bwe rnd isSafari hls c =
     (if ABRRule c = ''LoLp'' then lolpLearningAbr rnd isSafari hls c
      else if ABRRule c = ''L2ARule'' then L2AAbr hls c
      else if ABRRule c = ''Llama'' then LlamaAbr hls c
      else if ABRRule c = ''StallionRule'' then StallionAbr hls c
      else
        (case getNextABRAutoLevel bwe hls c of
           Inl e \<Rightarrow> Inl (Throws e)
         | Inr (quality, c') \<Rightarrow>
             Inr \<lparr>nl_level = quality, nl_controller = c', nl_media = media hls,
                  nl_events = []\<rparr>))"

definition nextAutoLevel ::
    "BwEstimator \<Rightarrow> (nat \<Rightarrow> real) \<Rightarrow> bool \<Rightarrow> Hls \<Rightarrow> AbrController \<Rightarrow> failure + NextLevel" where
  \<comment> \<open>\<open>get nextAutoLevel()\<close>, with the estimator, the numbers \<open>Math.random()\<close> yields and
      the browser test as parameters. \<open>bwEstimator\<close> is set by the constructor, so
      \<open>!bwEstimator\<close> is false.\<close>
  "nextAutoLevel bwe rnd isSafari hls c =
     (if forcedAutoLevel c \<noteq> - 1 \<and> \<not> canEstimate bwe (bwSamples c)
      then Inr \<lparr>nl_level = forcedAutoLevel c, nl_controller = c, nl_media = media hls,
                nl_events = []\<rparr>
      else
        (case releaseRules c of
           (c1, released) \<Rightarrow>
             (case dispatch bwe rnd isSafari hls c1 of
                Inl f \<Rightarrow> Inl f
              | Inr d \<Rightarrow>
                  Inr (d\<lparr>nl_level := (if forcedAutoLevel c \<noteq> - 1
                                      then min (forcedAutoLevel c) (nl_level d)
                                      else nl_level d),
                         nl_events := released @ nl_events d\<rparr>))))"

section \<open>Notions used in the statements\<close>

definition on_simplex :: "nat \<Rightarrow> real list \<Rightarrow> bool" where
  \<comment> \<open>The spec's words: a vector of \<open>n\<close> non-negative components that sum to 1.\<close>
  "on_simplex n y = (length y = n \<and> (\<forall>v \<in> set y. 0 \<le> v) \<and> sum_list y = 1)"

definition l2_distance :: "real list \<Rightarrow> real list \<Rightarrow> real" where
  \<comment> \<open>The Euclidean distance of two vectors of the same length.\<close>
  "l2_distance a b = sqrt (\<Sum>i < length a. (a ! i - b ! i)\<^sup>2)"

definition prefix_sum :: "real list \<Rightarrow> nat \<Rightarrow> real" where
  \<comment> \<open>\<open>tmpsum\<close> after \<open>k\<close> rounds of the projection loop.\<close>
  "prefix_sum s k = sum_list (take k s)"

definition threshold_at :: "real list \<Rightarrow> nat \<Rightarrow> real \<Rightarrow> bool" where
  \<comment> \<open>What the projection loop establishes for the value \<open>t\<close> it leaves in
      \<open>tmax\<close>: it is \<open>(s[0] + ... + s[k-1] - 1) / k\<close>, no earlier round broke out,
      and the next element (if any) is not above it.\<close>
  "threshold_at s k t =
     (1 \<le> k \<and> k \<le> length s \<and> t = (prefix_sum s k - 1) / real k \<and>
      (\<forall>j. 1 \<le> j \<and> j < k \<longrightarrow> (prefix_sum s j - 1) / real j < s ! j) \<and>
      (k < length s \<longrightarrow> s ! k \<le> t))"

definition extendAll :: "real list \<Rightarrow> real list list \<Rightarrow> real list list" where
  \<comment> \<open>Every vector of \<open>perm\<close>, in order, extended by every value of \<open>vals\<close>, in order.\<close>
  "extendAll vals perm = concat (map (\<lambda>p. map (\<lambda>v. p @ [v]) vals) perm)"

definition is_highest_level_at_most :: "Level list \<Rightarrow> real \<Rightarrow> nat \<Rightarrow> bool" where
  \<comment> \<open>The spec's words for the result of the ladder scan: \<open>r\<close> is the highest index
      whose bitrate is at most \<open>x\<close> (in bits per second), and 0 if there is none.\<close>
  "is_highest_level_at_most L x r =
     (if \<exists>i < length L. bitrate (L ! i) \<le> x
      then r < length L \<and> bitrate (L ! r) \<le> x \<and>
           (\<forall>j < length L. bitrate (L ! j) \<le> x \<longrightarrow> j \<le> r)
      else r = 0)"

definition held :: "string \<Rightarrow> AbrController \<Rightarrow> bool" where
  \<comment> \<open>The controller holds a rule object in the field of the tag.\<close>
  "held tag c =
     (if tag = ''L2ARule'' then l2aRule c \<noteq> None
      else if tag = ''Llama'' then llama c \<noteq> None
      else if tag = ''StallionRule'' then stallionRule c \<noteq> None
      else False)"

definition eventsOf :: "string \<Rightarrow> RuleEvent list \<Rightarrow> RuleEvent list" where
  \<comment> \<open>What a decision did to rule objects of one tag.\<close>
  "eventsOf tag evs =
     filter (\<lambda>e. e = Constructed tag \<or> e = Updated tag \<or> e = Released tag) evs"

definition storedTags :: "string set" where
  \<comment> \<open>The tags whose rule is kept in a field of the controller.\<close>
  "storedTags = {''L2ARule'', ''Llama'', ''StallionRule''}"

definition untouched :: "string \<Rightarrow> RuleEvent list \<Rightarrow> bool" where
  \<comment> \<open>The decision did nothing to rule objects of the tag.\<close>
  "untouched tag evs =
     (Constructed tag \<notin> set evs \<and> Updated tag \<notin> set evs \<and> Released tag \<notin> set evs)"

section \<open>End-to-end scenario data\<close>

definition mkLevel :: "real \<Rightarrow> Level" where
  "mkLevel b = \<lparr>bitrate = b, maxBitrate = b, codecSet = None, details_live = None,
     details_type = None, details_partTarget = 0, details_averagetargetduration = 0\<rparr>"

definition ladder :: "Level list" where
  \<comment> \<open>The ladder of the scenarios: 300, 750, 1500, 3000 kbps.\<close>
  "ladder = map mkLevel [300000, 750000, 1500000, 3000000]"

definition mkStats :: "real \<Rightarrow> real \<Rightarrow> real \<Rightarrow> LoaderStats" where
  "mkStats t0 t1 bytes = \<lparr>aborted = False, loaded = bytes, total = 0, bwEstimate = 0,
     loading_start = t0, loading_end = t1, parsing_end = t1, startTimeData = [],
     endTimeData = [], boxLoaded = 0\<rparr>"

definition mkFrag :: "int \<Rightarrow> nat \<Rightarrow> LoaderStats \<Rightarrow> Fragment" where
  "mkFrag n lv st = \<lparr>ftype = MAIN, sn = Sn n, level = lv, duration = 2, start = 2 * of_int n,
     bitrateTest = False, hasLoader = True, stats = st\<rparr>"

definition mkHls :: "real \<Rightarrow> Hls" where
  \<comment> \<open>A player on the scenario ladder with 8 s buffered and the given bandwidth
      estimate in bits per second.\<close>
  "mkHls bw = \<lparr>levels = ladder, media = None,
     bufferInfo = \<lparr>buf_len = 8, buf_end = 8\<rparr>, bandwidthEstimate = Some bw,
     abrEwmaDefaultEstimate = 500000, abrBandWidthFactor = 95 / 100,
     abrBandWidthUpFactor = 7 / 10, maxStarvationDelay = 4, maxLoadingDelay = 4, latency = 0, targetLatency = None, isLive = False,
     autoLevelEnabled = True, minAutoLevel = 0, maxAutoLevel = 3\<rparr>"

definition mkHlsLatency :: "real \<Rightarrow> real \<Rightarrow> Hls" where
  \<comment> \<open>The scenario player with a measured latency and a target latency.\<close>
  "mkHlsLatency l t = (mkHls 2000000)\<lparr>latency := l, targetLatency := Some t\<rparr>"

definition noEstimator :: BwEstimator where
  \<comment> \<open>An estimator that cannot estimate yet.\<close>
  "noEstimator = \<lparr>getEstimate = (\<lambda>samples. 500000), canEstimate = (\<lambda>samples. False)\<rparr>"

definition playingMedia :: Media where
  "playingMedia = \<lparr>currentTime = 0, playbackRate = 1, paused = False, seeking = False,
     readyState = 4\<rparr>"
definition selector0 :: LoLpWeightSelector where
  \<comment> \<open>A weight selector with the constants of \<open>_lolpLearningAbr\<close> for 2 s segments; the
      scenarios stop before the weight selection, so it carries no weight options.\<close>
  "selector0 = \<lparr>ws_targetLatency = 15 / 10, ws_bufferMin = 3 / 10, ws_segmentDuration = 2,
     ws_qoeEvaluator = LoLpQoeEvaluator_new, valueList = defaultValueList, weightTypeCount = 4,
     weightOptions = [], previousLatency = 0\<rparr>"

abbreviation zero4 :: "real list" where
  \<comment> \<open>The random data point when \<open>Math.random()\<close> yields 0 every time.\<close>
  "zero4 \<equiv> [0, 0, 0, 0]"

definition hlsP :: Hls where
  \<comment> \<open>The scenario player while playing, with one second buffered.\<close>
  "hlsP = (mkHls 400000)\<lparr>media := Some playingMedia, bufferInfo := \<lparr>buf_len = 1, buf_end = 1\<rparr>\<rparr>"

definition hlsTwoLevels :: Hls where
  \<comment> \<open>The scenario player while its ladder has only the two lowest levels.\<close>
  "hlsTwoLevels = (mkHls 2000000)\<lparr>levels := take 2 ladder, maxAutoLevel := 1\<rparr>"

definition fragP :: Fragment where
  "fragP = mkFrag 10 0 (mkStats 0 2000 100000)"

definition ctlP :: "string \<Rightarrow> AbrController" where
  \<comment> \<open>A new controller with the given active tag, after \<open>onFragLoading\<close> of \<open>fragP\<close>.\<close>
  "ctlP tag = AbrController_new\<lparr>ABRRule := tag, fragCurrent := Some fragP\<rparr>"

section \<open>Theorems: Llama\<close>

lemma llama_decide_switch_down:
  "currentQuality < length bitrates \<Longrightarrow> lastThroughput < bitrates ! currentQuality \<Longrightarrow>
   llama_decide bitrates currentQuality lastThroughput hm bl =
     (if 2 \<le> currentQuality then currentQuality - 1 else currentQuality)"
  by (auto simp: llama_decide_def js_lt_at_def Let_def)

text \<open>
  C7. A switch-down decision taken at level 1 stays at level 1: the lower neighbour is
  computed as \<open>currentQuality - 1 > 0 ? currentQuality - 1 : currentQuality\<close>, so level 0
  is never the result of a switch down. Here the ladder is 300/750/1500/3000 kbps, the
  current level is 1 (750 kbps), the bandwidth estimate has collapsed to 400 kbps and the
  last fragment (sn 10, session start sn 0) carried 100000 bytes in 2000 ms.
\<close>

theorem C7_llama_switch_down_stops_at_level_1:
  "decision (llama_getMaxIndex (mkHls 400000)
     \<lparr>ll_fragCurrent = Some (mkFrag 10 1 (mkStats 0 2000 100000)), ll_currentQuality = 1,
      ll_sn0 = Sn 0, ll_harmonicMeanQ = []\<rparr>) = Some 1"
  by (simp add: decision_def llama_getMaxIndex_def llama_measure_def llama_decide_def
      llama_harmonicMean_def js_reduce_def pushSample_def HARMONIC_MEAN_SIZE_def
      js_lt_at_def js_gt_at_def mkHls_def mkFrag_def mkStats_def ladder_def mkLevel_def
      HLSThroughput_def THROUGHPUT_SAFETY_FACTOR_def Let_def)

lemma llama_reduce_sum:
  "foldl (\<lambda>a b. a + 1 / b) x xs = x + sum_list (map (\<lambda>b. 1 / b) xs)"
  by (induction xs arbitrary: x) (auto simp: algebra_simps)

lemma llama_harmonicMean_window:
  "llama_harmonicMean (map (\<lambda>t. 1 / t) (t0 # ts)) =
     Inr (real (Suc (length ts)) / (1 / t0 + sum_list ts))"
proof -
  have "map ((\<lambda>b. 1 / b) \<circ> (\<lambda>t. 1 / t)) ts = ts"
    by (induction ts) auto
  then show ?thesis
    by (simp add: llama_harmonicMean_def js_reduce_def llama_reduce_sum
        THROUGHPUT_SAFETY_FACTOR_def)
qed

lemma llama_harmonicMean_single: "llama_harmonicMean [1 / t] = Inr t"
  using llama_harmonicMean_window [of t "[]"] by simp

text \<open>
  C6. The window holds the reciprocals \<open>1/t\<^sub>i\<close>, and the aggregate is
  \<open>1 / (reduce((a, b) => a + 1 / b) / N)\<close>: the first reciprocal is taken as it is and
  every later one is inverted again, so the value is \<open>N / (1/t\<^sub>0 + t\<^sub>1 + ... + t\<^sub>N\<^sub>-\<^sub>1)\<close>
  (lemma \<open>llama_harmonicMean_window\<close>), the harmonic mean only for \<open>N = 1\<close>. For the two
  samples 1000 and 2000 kbps the code computes \<open>2000/2000001\<close>, the harmonic mean is
  \<open>4000/3\<close>.
\<close>

theorem C6_llama_aggregate_of_two_samples:
  "llama_harmonicMean [1 / 1000, 1 / 2000] = Inr (2000 / 2000001) \<and>
   (2 :: real) / (1 / 1000 + 1 / 2000) = 4000 / 3"
  by (simp add: llama_harmonicMean_def js_reduce_def THROUGHPUT_SAFETY_FACTOR_def)

section \<open>Theorems: the simplex projection of L2A\<close>

lemma proj_example_value:
  "euclideanProjection [6 / 10, 5 / 10, 4 / 10, - (1 / 10)] = [13 / 30, 1 / 3, 7 / 30, 0]"
  by (simp add: euclideanProjection_def proj_loop.simps Let_def)

lemma sum_list_map_insort:
  "sum_list (map f (insort x xs)) = (f :: real \<Rightarrow> real) x + sum_list (map f xs)"
  by (induction xs) auto

lemma sum_list_map_sort:
  "sum_list (map f (sort xs)) = sum_list (map (f :: real \<Rightarrow> real) xs)"
  by (induction xs) (auto simp: sum_list_map_insort)

lemma sum_list_map_desc:
  "sum_list (map f (rev (sort xs))) = sum_list (map (f :: real \<Rightarrow> real) xs)"
  by (simp add: sum_list_map_sort sum_list_rev flip: rev_map)

lemma desc_nth_mono:
  assumes "i \<le> j" "j < length xs"
  shows "rev (sort xs) ! j \<le> rev (sort (xs :: real list)) ! i"
proof -
  have "sorted_wrt (\<lambda>a b. b \<le> a) (rev (sort xs))"
    by (simp add: sorted_wrt_rev)
  then show ?thesis
    using assms by (cases "i = j") (auto simp: sorted_wrt_iff_nth_less)
qed

lemma prefix_sum_Suc: "k < length s \<Longrightarrow> prefix_sum s (Suc k) = prefix_sum s k + s ! k"
  by (simp add: prefix_sum_def take_Suc_conv_app_nth)

lemma proj_loop_threshold:
  assumes "ii < length s"
    and "tmpsum = prefix_sum s ii"
    and "\<forall>j. 1 \<le> j \<and> j \<le> ii \<longrightarrow> (prefix_sum s j - 1) / real j < s ! j"
    and "proj_loop s ii tmpsum tmax = (bget, ts, t0)"
  shows "\<exists>k. threshold_at s k (if \<not> bget then (ts + s ! (length s - 1) - 1) / real (length s) else t0)"
  using assms
proof (induction s ii tmpsum tmax rule: proj_loop.induct)
  case (1 s ii tmpsum tmax)
  show ?case
  proof (cases "ii + 1 < length s")
    case False
    with "1.prems" have m: "length s = Suc ii" by simp
    from False "1.prems"(4) have r: "bget = False" "ts = tmpsum"
      by (simp_all add: proj_loop.simps)
    have "prefix_sum s (Suc ii) = tmpsum + s ! ii"
      using "1.prems" by (simp add: prefix_sum_Suc)
    then have "threshold_at s (Suc ii) ((ts + s ! (length s - 1) - 1) / real (length s))"
      using "1.prems"(3) m r by (auto simp: threshold_at_def)
    with r show ?thesis by auto
  next
    case True
    let ?ts = "tmpsum + s ! ii"
    let ?tm = "(?ts - 1) / (real ii + 1)"
    have ps: "prefix_sum s (Suc ii) = ?ts"
      using "1.prems" by (simp add: prefix_sum_Suc)
    show ?thesis
    proof (cases "?tm \<ge> s ! (ii + 1)")
      case brk: True
      with True "1.prems"(4) have r: "bget = True" "t0 = ?tm"
        by (auto simp: proj_loop.simps [of s ii] Let_def)
      have "threshold_at s (Suc ii) ?tm"
        using "1.prems"(3) True brk ps by (auto simp: threshold_at_def add.commute)
      with r show ?thesis by auto
    next
      case nobrk: False
      with True "1.prems"(4) have rec: "proj_loop s (ii + 1) ?ts ?tm = (bget, ts, t0)"
        by (simp add: proj_loop.simps [of s ii] Let_def)
      have inv: "\<forall>j. 1 \<le> j \<and> j \<le> ii + 1 \<longrightarrow> (prefix_sum s j - 1) / real j < s ! j"
      proof (intro allI impI)
        fix j assume j: "1 \<le> j \<and> j \<le> ii + 1"
        show "(prefix_sum s j - 1) / real j < s ! j"
        proof (cases "j = ii + 1")
          case True
          with nobrk ps show ?thesis by (simp add: add.commute not_le)
        next
          case False
          with j "1.prems"(3) show ?thesis by auto
        qed
      qed
      show ?thesis
        by (rule "1.IH" [OF True refl refl nobrk True _ inv rec]) (simp add: ps)
    qed
  qed
qed

lemma sum_list_shift:
  "sum_list (map (\<lambda>a. a - t) xs) = sum_list xs - real (length xs) * (t :: real)"
  by (induction xs) (auto simp: algebra_simps)

lemma threshold_above:
  assumes desc: "\<forall>i j. i \<le> j \<and> j < length s \<longrightarrow> s ! j \<le> s ! i"
    and thr: "threshold_at s k t"
    and i: "i < k"
  shows "t < s ! i"
proof -
  from thr have k: "1 \<le> k" "k \<le> length s" and t: "t = (prefix_sum s k - 1) / real k"
    and below: "\<forall>j. 1 \<le> j \<and> j < k \<longrightarrow> (prefix_sum s j - 1) / real j < s ! j"
    by (auto simp: threshold_at_def)
  obtain k' where k': "k = Suc k'" using k by (cases k) auto
  have ps: "prefix_sum s k = prefix_sum s k' + s ! k'"
    using k k' by (simp add: prefix_sum_Suc)
  have "t < s ! k'"
  proof (cases "k' = 0")
    case True
    with ps t k' show ?thesis by (simp add: prefix_sum_def)
  next
    case False
    with below k' have "(prefix_sum s k' - 1) / real k' < s ! k'" by auto
    with False have "prefix_sum s k' - 1 < s ! k' * real k'"
      by (simp add: pos_divide_less_eq)
    then have "prefix_sum s k - 1 < s ! k' * real k"
      using ps k' by (simp add: algebra_simps)
    then show ?thesis
      using t k' by (simp add: pos_divide_less_eq)
  qed
  moreover have "s ! k' \<le> s ! i"
    using desc i k k' by auto
  ultimately show ?thesis by simp
qed

lemma threshold_below:
  assumes desc: "\<forall>i j. i \<le> j \<and> j < length s \<longrightarrow> s ! j \<le> s ! i"
    and thr: "threshold_at s k t"
    and i: "k \<le> i" "i < length s"
  shows "s ! i \<le> t"
proof -
  from thr i have "s ! k \<le> t" by (auto simp: threshold_at_def)
  moreover from desc i have "s ! i \<le> s ! k" by auto
  ultimately show ?thesis by simp
qed

lemma threshold_sum:
  assumes desc: "\<forall>i j. i \<le> j \<and> j < length s \<longrightarrow> s ! j \<le> s ! i"
    and thr: "threshold_at s k t"
  shows "sum_list (map (\<lambda>a. max (a - t) 0) s) = 1"
proof -
  from thr have k: "1 \<le> k" "k \<le> length s" and t: "t = (prefix_sum s k - 1) / real k"
    by (auto simp: threshold_at_def)
  have hi: "map (\<lambda>a. max (a - t) 0) (take k s) = map (\<lambda>a. a - t) (take k s)"
  proof (rule map_cong [OF refl])
    fix a assume "a \<in> set (take k s)"
    then obtain i where "i < k" "a = s ! i"
      using k by (auto simp: in_set_conv_nth)
    with threshold_above [OF desc thr] show "max (a - t) 0 = a - t" by fastforce
  qed
  have lo: "map (\<lambda>a. max (a - t) 0) (drop k s) = map (\<lambda>a. 0) (drop k s)"
  proof (rule map_cong [OF refl])
    fix a assume "a \<in> set (drop k s)"
    then obtain i where "i < length s - k" "a = s ! (k + i)"
      by (auto simp: in_set_conv_nth)
    with threshold_below [OF desc thr, of "k + i"] show "max (a - t) 0 = 0" by fastforce
  qed
  have "sum_list (map (\<lambda>a. max (a - t) 0) s) =
        sum_list (map (\<lambda>a. max (a - t) 0) (take k s)) + sum_list (map (\<lambda>a. max (a - t) 0) (drop k s))"
    by (metis append_take_drop_id map_append sum_list_append)
  also have "\<dots> = prefix_sum s k - real k * t"
    using k by (simp add: hi lo sum_list_shift prefix_sum_def)
  also have "\<dots> = 1"
    using k t by simp
  finally show ?thesis .
qed

lemma euclideanProjection_threshold:
  assumes "arr \<noteq> []"
  shows "\<exists>t. euclideanProjection arr = map (\<lambda>a. max (a - t) 0) arr \<and>
             sum_list (map (\<lambda>a. max (a - t) 0) arr) = 1"
proof -
  let ?s = "rev (sort arr)"
  obtain bget ts t0 where loop: "proj_loop ?s 0 0 0 = (bget, ts, t0)"
    by (cases "proj_loop ?s 0 0 0") auto
  let ?t = "if \<not> bget then (ts + ?s ! (length ?s - 1) - 1) / real (length ?s) else t0"
  have "\<exists>k. threshold_at ?s k ?t"
    by (rule proj_loop_threshold [OF _ _ _ loop]) (use assms in \<open>auto simp: prefix_sum_def\<close>)
  then obtain k where thr: "threshold_at ?s k ?t" ..
  have desc: "\<forall>i j. i \<le> j \<and> j < length ?s \<longrightarrow> ?s ! j \<le> ?s ! i"
    using desc_nth_mono [of _ _ arr] by auto
  have "sum_list (map (\<lambda>a. max (a - ?t) 0) ?s) = 1"
    by (rule threshold_sum [OF desc thr])
  then have "sum_list (map (\<lambda>a. max (a - ?t) 0) arr) = 1"
    by (simp only: sum_list_map_desc)
  moreover have "euclideanProjection arr = map (\<lambda>a. max (a - ?t) 0) arr"
    using loop by (simp add: euclideanProjection_def Let_def)
  ultimately show ?thesis by blast
qed

lemma sum_nth_eq_sum_list: "(\<Sum>i < length xs. xs ! i) = sum_list (xs :: real list)"
  by (simp add: sum_list_sum_nth lessThan_atLeast0)

lemma kkt_pointwise:
  fixes a t y :: real
  assumes "0 \<le> y"
  shows "(max (a - t) 0 - a)\<^sup>2 + (y - max (a - t) 0)\<^sup>2 - 2 * t * (y - max (a - t) 0) \<le> (y - a)\<^sup>2"
proof (cases "t < a")
  case True
  then have "max (a - t) 0 = a - t" by simp
  then show ?thesis by (simp add: power2_eq_square algebra_simps)
next
  case False
  then have m: "max (a - t) 0 = 0" by simp
  have "0 \<le> 2 * y * (t - a)" using assms False by simp
  then show ?thesis unfolding m by (simp add: power2_eq_square algebra_simps)
qed

lemma kkt_optimal:
  fixes a x y :: "real list"
  assumes x: "x = map (\<lambda>v. max (v - t) 0) a"
    and sx: "sum_list x = 1"
    and y: "on_simplex (length a) y"
  shows "(\<Sum>i < length a. (x ! i - a ! i)\<^sup>2) + (\<Sum>i < length a. (y ! i - x ! i)\<^sup>2)
           \<le> (\<Sum>i < length a. (y ! i - a ! i)\<^sup>2)"
proof -
  let ?n = "length a"
  from y have ly: "length y = ?n" and y0: "\<forall>i < ?n. 0 \<le> y ! i" and sy: "sum_list y = 1"
    by (auto simp: on_simplex_def)
  have lx: "length x = ?n" using x by simp
  have "(\<Sum>i < ?n. y ! i - x ! i) = (\<Sum>i < ?n. y ! i) - (\<Sum>i < ?n. x ! i)"
    by (simp add: sum_subtractf)
  also have "\<dots> = 0"
    using sum_nth_eq_sum_list [of y] sum_nth_eq_sum_list [of x] ly lx sx sy by simp
  finally have zero: "(\<Sum>i < ?n. y ! i - x ! i) = 0" .
  have "(\<Sum>i < ?n. (x ! i - a ! i)\<^sup>2 + (y ! i - x ! i)\<^sup>2 - 2 * t * (y ! i - x ! i))
          \<le> (\<Sum>i < ?n. (y ! i - a ! i)\<^sup>2)"
  proof (rule sum_mono)
    fix i assume "i \<in> {..<?n}"
    then have i: "i < ?n" by simp
    then have "x ! i = max (a ! i - t) 0" using x by simp
    with kkt_pointwise [of "y ! i" "a ! i" t] y0 i
    show "(x ! i - a ! i)\<^sup>2 + (y ! i - x ! i)\<^sup>2 - 2 * t * (y ! i - x ! i) \<le> (y ! i - a ! i)\<^sup>2"
      by simp
  qed
  moreover have "(\<Sum>i < ?n. (x ! i - a ! i)\<^sup>2 + (y ! i - x ! i)\<^sup>2 - 2 * t * (y ! i - x ! i)) =
      (\<Sum>i < ?n. (x ! i - a ! i)\<^sup>2) + (\<Sum>i < ?n. (y ! i - x ! i)\<^sup>2) - 2 * t * (\<Sum>i < ?n. y ! i - x ! i)"
    by (simp only: sum.distrib sum_subtractf flip: sum_distrib_left)
  ultimately show ?thesis using zero by simp
qed

lemma euclideanProjection_on_simplex:
  assumes "arr \<noteq> []"
  shows "on_simplex (length arr) (euclideanProjection arr)"
proof -
  from euclideanProjection_threshold [OF assms] obtain t where
    "euclideanProjection arr = map (\<lambda>a. max (a - t) 0) arr"
    "sum_list (map (\<lambda>a. max (a - t) 0) arr) = 1" by blast
  then show ?thesis by (auto simp: on_simplex_def)
qed

lemma euclideanProjection_pythagoras:
  assumes "arr \<noteq> []" and y: "on_simplex (length arr) y"
  shows "(\<Sum>i < length arr. (euclideanProjection arr ! i - arr ! i)\<^sup>2) +
         (\<Sum>i < length arr. (y ! i - euclideanProjection arr ! i)\<^sup>2)
           \<le> (\<Sum>i < length arr. (y ! i - arr ! i)\<^sup>2)"
proof -
  from euclideanProjection_threshold [OF assms(1)] obtain t where
    x: "euclideanProjection arr = map (\<lambda>a. max (a - t) 0) arr"
    and "sum_list (map (\<lambda>a. max (a - t) 0) arr) = 1" by blast
  then have "sum_list (euclideanProjection arr) = 1" by simp
  from kkt_optimal [OF x this y] show ?thesis .
qed

text \<open>
  C2. For a vector \<open>arr\<close> of length at least 1, \<open>euclideanProjection arr\<close> has
  non-negative components that sum to 1, and it is the point of the probability simplex
  closest to \<open>arr\<close> in Euclidean distance: no point of the simplex is closer, and every
  other point of the simplex is strictly farther.
\<close>

theorem C2_euclideanProjection_is_simplex_projection:
  assumes "arr \<noteq> []"
  shows "on_simplex (length arr) (euclideanProjection arr) \<and>
         (\<forall>y. on_simplex (length arr) y \<longrightarrow>
              l2_distance (euclideanProjection arr) arr \<le> l2_distance y arr) \<and>
         (\<forall>y. on_simplex (length arr) y \<and> y \<noteq> euclideanProjection arr \<longrightarrow>
              l2_distance (euclideanProjection arr) arr < l2_distance y arr)"
proof (intro conjI allI impI)
  show "on_simplex (length arr) (euclideanProjection arr)"
    by (rule euclideanProjection_on_simplex [OF assms])
  then have lx: "length (euclideanProjection arr) = length arr"
    by (simp add: on_simplex_def)
  let ?x = "euclideanProjection arr"
  let ?n = "length arr"
  {
    fix y assume y: "on_simplex ?n y"
    then have ly: "length y = ?n" by (simp add: on_simplex_def)
    have "0 \<le> (\<Sum>i < ?n. (y ! i - ?x ! i)\<^sup>2)" by (simp add: sum_nonneg)
    with euclideanProjection_pythagoras [OF assms y]
    have "(\<Sum>i < ?n. (?x ! i - arr ! i)\<^sup>2) \<le> (\<Sum>i < ?n. (y ! i - arr ! i)\<^sup>2)" by linarith
    then show "l2_distance ?x arr \<le> l2_distance y arr"
      by (simp add: l2_distance_def lx ly)
  }
  {
    fix y assume "on_simplex ?n y \<and> y \<noteq> ?x"
    then have y: "on_simplex ?n y" and ne: "y \<noteq> ?x" by auto
    then have ly: "length y = ?n" by (simp add: on_simplex_def)
    from ne ly lx obtain i where i: "i < ?n" "y ! i \<noteq> ?x ! i"
      by (metis nth_equalityI)
    have "0 < (\<Sum>i < ?n. (y ! i - ?x ! i)\<^sup>2)"
      by (rule sum_pos2 [of _ i]) (use i in auto)
    with euclideanProjection_pythagoras [OF assms y]
    have "(\<Sum>i < ?n. (?x ! i - arr ! i)\<^sup>2) < (\<Sum>i < ?n. (y ! i - arr ! i)\<^sup>2)" by linarith
    then show "l2_distance ?x arr < l2_distance y arr"
      by (simp add: l2_distance_def lx ly)
  }
qed

theorem C2_euclideanProjection_witness:
  "on_simplex 3 (euclideanProjection [1 / 2, 1, - 2]) \<and>
   l2_distance (euclideanProjection [1 / 2, 1, - 2]) [1 / 2, 1, - 2]
     < l2_distance [1 / 3, 1 / 3, 1 / 3] [1 / 2, 1, - 2]"
proof -
  have ne: "[1 / 2, 1, - 2] \<noteq> ([] :: real list)" by simp
  have y: "on_simplex (length [1 / 2, 1, - 2 :: real]) [1 / 3, 1 / 3, 1 / 3]"
    by (simp add: on_simplex_def)
  have v: "euclideanProjection [1 / 2, 1, - 2] = [1 / 4, 3 / 4, 0]"
    by (simp add: euclideanProjection_def proj_loop.simps Let_def)
  have d: "[1 / 3, 1 / 3, 1 / 3] \<noteq> euclideanProjection [1 / 2, 1, - 2]"
    unfolding v by simp
  from C2_euclideanProjection_is_simplex_projection [OF ne] y d show ?thesis
    by (simp add: numeral_3_eq_3)
qed

text \<open>
  C3. On \<open>[0.6, 0.5, 0.4, -0.1]\<close> the projection is \<open>[13/30, 1/3, 7/30, 0]\<close>: the
  sorted prefix sums give \<open>tmax = (1.5 - 1) / 3 = 1/6\<close>, which is subtracted from every
  component. The vector \<open>[0.4, 0.3, 0.2, 0.0]\<close> of the spec sums to 0.9 and is not on
  the simplex; the first component of the result is more than \<open>1e-9\<close> away from 0.4.
\<close>

theorem C3_projection_example_counterexample:
  "\<bar>euclideanProjection [6 / 10, 5 / 10, 4 / 10, - (1 / 10)] ! 0 - 4 / 10\<bar> > 1 / 10 ^ 9"
  using proj_example_value by simp

theorem C3_projection_example:
  "euclideanProjection [6 / 10, 5 / 10, 4 / 10, - (1 / 10)] = [13 / 30, 1 / 3, 7 / 30, 0] \<and>
   sum_list (euclideanProjection [6 / 10, 5 / 10, 4 / 10, - (1 / 10)]) = 1"
  using proj_example_value by simp

section \<open>Theorems: getQualityForBitrate\<close>

lemma scanLadder_bound: "scanLadder bl x n \<le> n - 1"
  by (induction n) auto

lemma scanLadder_none:
  "\<forall>i < n. \<not> bl ! i \<le> x * 1000 \<Longrightarrow> scanLadder bl x n = 0"
  by (induction n) auto

lemma scanLadder_some:
  "\<exists>i < n. bl ! i \<le> x * 1000 \<Longrightarrow>
   scanLadder bl x n < n \<and> bl ! (scanLadder bl x n) \<le> x * 1000 \<and>
   (\<forall>j < n. bl ! j \<le> x * 1000 \<longrightarrow> j \<le> scanLadder bl x n)"
proof (induction n)
  case 0
  then show ?case by simp
next
  case (Suc n)
  show ?case
  proof (cases "bl ! n \<le> x * 1000")
    case True
    then show ?thesis by (auto simp: less_Suc_eq_le)
  next
    case False
    with Suc.prems have ex: "\<exists>i < n. bl ! i \<le> x * 1000"
      by (metis less_Suc_eq)
    from Suc.IH [OF ex] False show ?thesis
      by (auto simp: less_Suc_eq)
  qed
qed

lemma qualityForBitrate_highest:
  "is_highest_level_at_most (levels hls) (x * 1000) (qualityForBitrate hls x)"
proof (cases "\<exists>i < length (levels hls). bitrate (levels hls ! i) \<le> x * 1000")
  case True
  then have "\<exists>i < length (map bitrate (levels hls)). map bitrate (levels hls) ! i \<le> x * 1000"
    by auto
  from scanLadder_some [OF this] True show ?thesis
    by (auto simp: is_highest_level_at_most_def qualityForBitrate_def Let_def)
next
  case False
  then have "\<forall>i < length (map bitrate (levels hls)). \<not> map bitrate (levels hls) ! i \<le> x * 1000"
    by auto
  from scanLadder_none [OF this] False show ?thesis
    by (auto simp: is_highest_level_at_most_def qualityForBitrate_def Let_def)
qed

lemma qualityForBitrate_zero:
  assumes "\<forall>b \<in> set (levels hls). 0 < bitrate b"
  shows "qualityForBitrate hls 0 = 0"
proof -
  have "\<forall>i < length (map bitrate (levels hls)). \<not> map bitrate (levels hls) ! i \<le> 0 * 1000"
    using assms by (auto simp: not_le)
  from scanLadder_none [OF this] show ?thesis
    by (simp add: qualityForBitrate_def Let_def)
qed

text \<open>
  C8. With latency feedback available (a non-zero latency) and a current fragment \<open>f\<close>,
  on a ladder of positive bitrates: both variants return 0 when
  \<open>|latency - targetLatency| \<ge> duration f\<close>, and otherwise return the highest index whose
  bitrate is at most the throughput shrunk by \<open>1 - |\<Delta>| / duration f\<close>, times 1000, and 0
  when there is no such index. The L2A variant tests \<open>|\<Delta>| > duration f\<close>; at
  \<open>|\<Delta>| = duration f\<close> its shrink factor is 0, and the scan of a ladder of positive
  bitrates with throughput 0 returns 0.
\<close>

theorem C8_getQualityForBitrate:
  assumes pos: "\<forall>b \<in> set (levels hls). 0 < bitrate b"
    and l2a_latency: "latency hls \<noteq> 0"
    and stallion_latency: "lat \<noteq> 0"
  shows "(if \<bar>latency hls - targetLatencyOr0 hls\<bar> \<ge> duration f
          then l2a_getQualityForBitrate hls (Some f) br = 0
          else is_highest_level_at_most (levels hls)
                 (br * (1 - \<bar>latency hls - targetLatencyOr0 hls\<bar> / duration f) * 1000)
                 (l2a_getQualityForBitrate hls (Some f) br)) \<and>
         (if \<bar>lat - targetLatencyOr0 hls\<bar> \<ge> duration f
          then stallion_getQualityForBitrate hls (Some f) br lat = 0
          else is_highest_level_at_most (levels hls)
                 (br * (1 - \<bar>lat - targetLatencyOr0 hls\<bar> / duration f) * 1000)
                 (stallion_getQualityForBitrate hls (Some f) br lat))"
proof
  let ?d = "\<bar>latency hls - targetLatencyOr0 hls\<bar>"
  show "if ?d \<ge> duration f
        then l2a_getQualityForBitrate hls (Some f) br = 0
        else is_highest_level_at_most (levels hls) (br * (1 - ?d / duration f) * 1000)
               (l2a_getQualityForBitrate hls (Some f) br)"
  proof (cases "?d \<ge> duration f")
    case True
    show ?thesis
    proof (cases "?d > duration f")
      case gt: True
      with True l2a_latency show ?thesis
        by (simp add: l2a_getQualityForBitrate_def Let_def)
    next
      case False
      with True have eq: "?d = duration f" by simp
      show ?thesis
      proof (cases "duration f = 0")
        case z: True
        with True eq l2a_latency show ?thesis
          by (simp add: l2a_getQualityForBitrate_def Let_def)
      next
        case nz: False
        then have "l2a_getQualityForBitrate hls (Some f) br = qualityForBitrate hls 0"
          using eq l2a_latency by (simp add: l2a_getQualityForBitrate_def Let_def)
        with True qualityForBitrate_zero [OF pos] show ?thesis by simp
      qed
    qed
  next
    case False
    then have "duration f \<noteq> 0" "\<not> ?d > duration f" by auto
    with False l2a_latency qualityForBitrate_highest [of hls "br * (1 - ?d / duration f)"]
    show ?thesis
      by (simp add: l2a_getQualityForBitrate_def Let_def)
  qed
next
  let ?d = "\<bar>lat - targetLatencyOr0 hls\<bar>"
  show "if ?d \<ge> duration f
        then stallion_getQualityForBitrate hls (Some f) br lat = 0
        else is_highest_level_at_most (levels hls) (br * (1 - ?d / duration f) * 1000)
               (stallion_getQualityForBitrate hls (Some f) br lat)"
    using stallion_latency qualityForBitrate_highest [of hls "br * (1 - ?d / duration f)"]
    by (simp add: stallion_getQualityForBitrate_def Let_def)
qed

theorem C8_getQualityForBitrate_witness:
  "l2a_getQualityForBitrate (mkHlsLatency (7 / 2) (3 / 2)) (Some (mkFrag 10 1 (mkStats 0 2000 100000))) 2000 = 0 \<and>
   stallion_getQualityForBitrate (mkHlsLatency (7 / 2) (3 / 2)) (Some (mkFrag 10 1 (mkStats 0 2000 100000))) 2000 (7 / 2) = 0 \<and>
   is_highest_level_at_most ladder 1500000
     (l2a_getQualityForBitrate (mkHlsLatency 2 (3 / 2)) (Some (mkFrag 10 1 (mkStats 0 2000 100000))) 2000) \<and>
   is_highest_level_at_most ladder 1500000
     (stallion_getQualityForBitrate (mkHlsLatency 2 (3 / 2)) (Some (mkFrag 10 1 (mkStats 0 2000 100000))) 2000 2)"
proof -
  have pos: "\<forall>b \<in> set (levels (mkHlsLatency l t)). 0 < bitrate b" for l t
    by (simp add: mkHlsLatency_def mkHls_def ladder_def mkLevel_def)
  have a: "latency (mkHlsLatency (7 / 2) (3 / 2)) \<noteq> 0" "latency (mkHlsLatency 2 (3 / 2)) \<noteq> 0"
    by (simp_all add: mkHlsLatency_def)
  have b: "(7 / 2 :: real) \<noteq> 0" "(2 :: real) \<noteq> 0" by simp_all
  show ?thesis
    using C8_getQualityForBitrate [OF pos a(1) b(1), of "mkFrag 10 1 (mkStats 0 2000 100000)" 2000]
      C8_getQualityForBitrate [OF pos a(2) b(2), of "mkFrag 10 1 (mkStats 0 2000 100000)" 2000]
    by (simp add: mkHlsLatency_def mkHls_def mkFrag_def targetLatencyOr0_def)
qed

section \<open>Theorems: the LoL+ weight selector\<close>

lemma shiftPush_queue:
  "shiftPush vals (length q) (q @ acc) = Some (acc @ extendAll vals q)"
  by (induction q arbitrary: acc) (auto simp: extendAll_def)

lemma shiftPush_extendAll: "shiftPush vals (length q) q = Some (extendAll vals q)"
  using shiftPush_queue [of vals q "[]"] by simp

lemma generate_step:
  "currLen \<noteq> n \<Longrightarrow> currLen + 1 = nxt \<Longrightarrow>
   generate vals perm n currLen = generate vals (extendAll vals perm) n nxt"
  by (subst generate.simps) (auto simp: shiftPush_extendAll)

lemma getPermutations_4:
  "getPermutations vals 4 =
     Some (extendAll vals (extendAll vals (extendAll vals (map (\<lambda>val. [val]) vals))))"
proof -
  have "generate vals (map (\<lambda>val. [val]) vals) 4 1 =
        generate vals (extendAll vals (map (\<lambda>val. [val]) vals)) 4 2"
    by (rule generate_step) simp_all
  also have "\<dots> = generate vals (extendAll vals (extendAll vals (map (\<lambda>val. [val]) vals))) 4 3"
    by (rule generate_step) simp_all
  also have "\<dots> =
      generate vals (extendAll vals (extendAll vals (extendAll vals (map (\<lambda>val. [val]) vals)))) 4 4"
    by (rule generate_step) simp_all
  finally have "generate vals (map (\<lambda>val. [val]) vals) 4 1 =
      generate vals (extendAll vals (extendAll vals (extendAll vals (map (\<lambda>val. [val]) vals)))) 4 4" .
  then show ?thesis
    by (simp add: getPermutations_def generate.simps)
qed

lemma length_extendAll: "length (extendAll vals q) = length q * length vals"
  by (induction q) (auto simp: extendAll_def)

lemma set_extendAll: "set (extendAll vals q) = {p @ [v] | p v. p \<in> set q \<and> v \<in> set vals}"
  by (auto simp: extendAll_def)

lemma distinct_extendAll:
  assumes "distinct q" "distinct vals"
  shows "distinct (extendAll vals q)"
  using assms(1)
proof (induction q)
  case Nil
  then show ?case by (simp add: extendAll_def)
next
  case (Cons p q)
  have split: "extendAll vals (p # q) = map (\<lambda>v. p @ [v]) vals @ extendAll vals q"
    by (simp add: extendAll_def)
  have "distinct (map (\<lambda>v. p @ [v]) vals)"
    using assms(2) by (simp add: distinct_map inj_on_def)
  moreover have "distinct (extendAll vals q)"
    using Cons by simp
  moreover have "set (map (\<lambda>v. p @ [v]) vals) \<inter> set (extendAll vals q) = {}"
    using Cons.prems by (auto simp: set_extendAll)
  ultimately show ?case
    unfolding split by simp
qed

lemma weightOptions_cartesian:
  "set (extendAll vals (extendAll vals (extendAll vals (map (\<lambda>val. [val]) vals)))) =
     {[a, b, c, d] | a b c d. a \<in> set vals \<and> b \<in> set vals \<and> c \<in> set vals \<and> d \<in> set vals}"
  by (auto simp: set_extendAll)

lemma weightStep_winner:
  assumes "weightVector \<in> S"
    and "(fst (snd acc) = None \<longleftrightarrow> snd (snd acc) = None) \<and> (\<forall>wv. fst (snd acc) = Some wv \<longrightarrow> wv \<in> S)"
  shows "(fst (snd (weightStep ws neuron rb rate acc weightVector)) = None \<longleftrightarrow>
          snd (snd (weightStep ws neuron rb rate acc weightVector)) = None) \<and>
         (\<forall>wv. fst (snd (weightStep ws neuron rb rate acc weightVector)) = Some wv \<longrightarrow> wv \<in> S)"
  using assms by (auto simp: weightStep_def Let_def split: option.splits)

lemma weightFold_winner:
  assumes "set xs \<subseteq> S"
    and "(fst (snd acc) = None \<longleftrightarrow> snd (snd acc) = None) \<and> (\<forall>wv. fst (snd acc) = Some wv \<longrightarrow> wv \<in> S)"
  shows "(fst (snd (foldl (weightStep ws neuron rb rate) acc xs)) = None \<longleftrightarrow>
          snd (snd (foldl (weightStep ws neuron rb rate) acc xs)) = None) \<and>
         (\<forall>wv. fst (snd (foldl (weightStep ws neuron rb rate) acc xs)) = Some wv \<longrightarrow> wv \<in> S)"
  using assms
proof (induction xs arbitrary: acc)
  case Nil
  then show ?case by simp
next
  case (Cons x xs)
  have "x \<in> S" "set xs \<subseteq> S" using Cons.prems(1) by auto
  from Cons.IH [OF this(2) weightStep_winner [OF this(1) Cons.prems(2)]]
  show ?case by simp
qed

lemma neuronFold_winner:
  assumes "(fst (snd acc) = None \<longleftrightarrow> snd (snd acc) = None) \<and>
           (\<forall>wv. fst (snd acc) = Some wv \<longrightarrow> wv \<in> set (weightOptions ws))"
  shows "(fst (snd (foldl (neuronStep ws cl cb ct rate dl) acc ns)) = None \<longleftrightarrow>
          snd (snd (foldl (neuronStep ws cl cb ct rate dl) acc ns)) = None) \<and>
         (\<forall>wv. fst (snd (foldl (neuronStep ws cl cb ct rate dl) acc ns)) = Some wv \<longrightarrow>
               wv \<in> set (weightOptions ws))"
  using assms
proof (induction ns arbitrary: acc)
  case Nil
  then show ?case by simp
next
  case (Cons n ns)
  have step: "(fst (snd (neuronStep ws cl cb ct rate dl acc n)) = None \<longleftrightarrow>
               snd (snd (neuronStep ws cl cb ct rate dl acc n)) = None) \<and>
              (\<forall>wv. fst (snd (neuronStep ws cl cb ct rate dl acc n)) = Some wv \<longrightarrow>
                    wv \<in> set (weightOptions ws))"
    unfolding neuronStep_def Let_def
    using weightFold_winner [OF subset_refl Cons.prems] Cons.prems
    by (simp del: split_paired_All)
  from Cons.IH [OF step] show ?case by simp
qed

lemma findWeightVector_result:
  "fst (findWeightVector ws neurons cl cb cr ct rate) = WSentinel \<or>
   (\<exists>wv \<in> set (weightOptions ws). fst (findWeightVector ws neurons cl cb cr ct rate) = WVector wv)"
proof -
  let ?acc = "foldl (neuronStep ws cl cb ct rate \<bar>cl - previousLatency ws\<bar>) (None, None, None) neurons"
  have inv: "(fst (snd ?acc) = None \<longleftrightarrow> snd (snd ?acc) = None) \<and>
             (\<forall>wv. fst (snd ?acc) = Some wv \<longrightarrow> wv \<in> set (weightOptions ws))"
    by (rule neuronFold_winner) simp
  show ?thesis
  proof (cases "fst (snd ?acc)")
    case None
    with inv show ?thesis by (simp add: findWeightVector_def Let_def)
  next
    case (Some wv)
    with inv have "wv \<in> set (weightOptions ws)" by simp
    with Some show ?thesis by (simp add: findWeightVector_def Let_def)
  qed
qed

lemma findWeightVector_keeps_options:
  "weightOptions (snd (findWeightVector ws neurons cl cb cr ct rate)) = weightOptions ws"
  by (simp add: findWeightVector_def Let_def)

text \<open>
  C9. The constructor of \<open>LoLpWeightSelector\<close> returns, and its \<open>weightOptions\<close> are
  625 pairwise different vectors: exactly the vectors \<open>[a, b, c, d]\<close> with each component
  one of 0.2, 0.4, 0.6, 0.8, 1. For every selector and every input, \<open>findWeightVector\<close>
  returns the number \<open>-1\<close> or one of the selector's \<open>weightOptions\<close> (never \<open>null\<close>),
  and it leaves the \<open>weightOptions\<close> as they are.
\<close>

theorem C9_weight_vectors:
  "(\<exists>ws0. LoLpWeightSelector_new tgt bmin sdur ev = Some ws0 \<and>
      length (weightOptions ws0) = 625 \<and> distinct (weightOptions ws0) \<and>
      set (weightOptions ws0) =
        {[a, b, c, d] | a b c d.
           a \<in> {2 / 10, 4 / 10, 6 / 10, 8 / 10, 1} \<and> b \<in> {2 / 10, 4 / 10, 6 / 10, 8 / 10, 1} \<and>
           c \<in> {2 / 10, 4 / 10, 6 / 10, 8 / 10, 1} \<and> d \<in> {2 / 10, 4 / 10, 6 / 10, 8 / 10, 1}}) \<and>
   (fst (findWeightVector ws neurons cl cb cr ct rate) = WSentinel \<or>
    (\<exists>wv \<in> set (weightOptions ws). fst (findWeightVector ws neurons cl cb cr ct rate) = WVector wv)) \<and>
   weightOptions (snd (findWeightVector ws neurons cl cb cr ct rate)) = weightOptions ws"
proof (intro conjI)
  let ?opts = "extendAll defaultValueList (extendAll defaultValueList
                 (extendAll defaultValueList (map (\<lambda>val. [val]) defaultValueList)))"
  have new: "LoLpWeightSelector_new tgt bmin sdur ev =
      Some \<lparr>ws_targetLatency = tgt, ws_bufferMin = bmin, ws_segmentDuration = sdur,
        ws_qoeEvaluator = ev, valueList = defaultValueList, weightTypeCount = 4,
        weightOptions = ?opts, previousLatency = 0\<rparr>"
    by (simp add: LoLpWeightSelector_new_def getPermutations_4)
  have len: "length ?opts = 625"
    by (simp add: length_extendAll defaultValueList_def)
  have dv: "distinct defaultValueList"
    by (simp add: defaultValueList_def)
  have "distinct (map (\<lambda>val. [val]) defaultValueList)"
    using dv by (simp add: distinct_map inj_on_def)
  then have dist: "distinct ?opts"
    using dv by (intro distinct_extendAll)
  have st: "set ?opts = {[a, b, c, d] | a b c d.
           a \<in> {2 / 10, 4 / 10, 6 / 10, 8 / 10, 1} \<and> b \<in> {2 / 10, 4 / 10, 6 / 10, 8 / 10, 1} \<and>
           c \<in> {2 / 10, 4 / 10, 6 / 10, 8 / 10, 1} \<and> d \<in> {2 / 10, 4 / 10, 6 / 10, 8 / 10, (1::real)}}"
    unfolding weightOptions_cartesian by (simp add: defaultValueList_def)
  from new len dist st
  show "\<exists>ws0. LoLpWeightSelector_new tgt bmin sdur ev = Some ws0 \<and>
      length (weightOptions ws0) = 625 \<and> distinct (weightOptions ws0) \<and>
      set (weightOptions ws0) =
        {[a, b, c, d] | a b c d.
           a \<in> {2 / 10, 4 / 10, 6 / 10, 8 / 10, 1} \<and> b \<in> {2 / 10, 4 / 10, 6 / 10, 8 / 10, 1} \<and>
           c \<in> {2 / 10, 4 / 10, 6 / 10, 8 / 10, 1} \<and> d \<in> {2 / 10, 4 / 10, 6 / 10, 8 / 10, 1}}"
    by simp
  show "fst (findWeightVector ws neurons cl cb cr ct rate) = WSentinel \<or>
    (\<exists>wv \<in> set (weightOptions ws). fst (findWeightVector ws neurons cl cb cr ct rate) = WVector wv)"
    by (rule findWeightVector_result)
  show "weightOptions (snd (findWeightVector ws neurons cl cb cr ct rate)) = weightOptions ws"
    by (rule findWeightVector_keeps_options)
qed

section \<open>Theorems: the orchestrator's event handlers\<close>

text \<open>
  C4. On a timer tick with a current fragment and a media element, if
  \<open>bufferStarvationDelay \<ge> 2 * duration / playbackRate\<close> (the duration of the part when a
  part is loading, \<open>playbackRate\<close> the absolute playback rate), the check triggers no
  \<open>FRAG_LOAD_EMERGENCY_ABORTED\<close>, writes no \<open>hls.nextLoadLevel\<close> and aborts no loader.
\<close>

theorem C4_no_emergency_abort_with_two_durations_buffered:
  assumes "fragCurrent c = Some frag" and "media hls = Some m"
    and "bufferStarvationDelay hls m \<ge> (2 * abandonDuration c frag) / \<bar>playbackRate m\<bar>"
  shows "\<not> emergencyAborted (abandonRulesCheck hls now c)"
  using assms
  by (auto simp: abandonRulesCheck_def emergencyAborted_def noEffects_def Let_def
      split: option.splits sum.splits)

theorem C4_no_emergency_abort_witness:
  "\<not> emergencyAborted (abandonRulesCheck
       ((mkHls 400000)\<lparr>media := Some playingMedia, bufferInfo := \<lparr>buf_len = 5, buf_end = 5\<rparr>\<rparr>)
       3000
       (AbrController_new\<lparr>fragCurrent := Some (mkFrag 10 3 (mkStats 0 0 200000)), timer := True\<rparr>))"
  by (rule C4_no_emergency_abort_with_two_durations_buffered
        [where m = playingMedia and frag = "mkFrag 10 3 (mkStats 0 0 200000)"])
     (simp_all add: AbrController_new_def mkHls_def playingMedia_def bufferStarvationDelay_def
       abandonDuration_def mkFrag_def)

text \<open>
  C10. The fallback of the box-throughput mode samples the estimator once, with the
  duration \<open>frag.stats.loading.end - frag.stats.loading.start\<close> (the variable
  \<open>fragProcessingMs\<close>) and the bytes \<open>frag.stats.loaded\<close>: not with
  \<open>parsing.end - loading.start\<close>, which is \<open>processingMs\<close>. Below, a fragment without
  chunk timestamps that was loaded from 0 to 2000 ms and parsed at 2300 ms gives the
  sample (2000, 100000).
\<close>

theorem C10_box_fallback_counterexample:
  "bwSamples (fst (onFragBuffered noEstimator
       (mkFrag 10 1 ((mkStats 0 2000 100000)\<lparr>parsing_end := 2300\<rparr>)) None AbrController_new))
     = [(2000, 100000)] \<and>
   parsing_end (stats (mkFrag 10 1 ((mkStats 0 2000 100000)\<lparr>parsing_end := 2300\<rparr>)))
     - loading_start (stats (mkFrag 10 1 ((mkStats 0 2000 100000)\<lparr>parsing_end := 2300\<rparr>))) = 2300"
  by (simp add: onFragBuffered_def bufferedSample_def trimEnds_def AbrController_new_def
      mkFrag_def mkStats_def Let_def)

theorem C10_box_fallback_sample:
  assumes "\<not> aborted (case part of Some p \<Rightarrow> part_stats p | None \<Rightarrow> stats frag)"
    and "ftype frag = MAIN" and "sn frag \<noteq> InitSegment"
    and "boxThroughputOn c"
    and "trimEnds (startTimeData (stats frag)) = [] \<or> trimEnds (endTimeData (stats frag)) = []"
  shows "bwSamples (fst (onFragBuffered bwe frag part c)) =
           bwSamples c @ [(loading_end (stats frag) - loading_start (stats frag), loaded (stats frag))]"
  using assms
  by (auto simp: onFragBuffered_def bufferedSample_def Let_def split: option.splits)

theorem C10_box_fallback_sample_witness:
  "bwSamples (fst (onFragBuffered noEstimator
       (mkFrag 10 1 ((mkStats 0 2000 100000)\<lparr>parsing_end := 2300\<rparr>)) None AbrController_new))
     = bwSamples AbrController_new @ [(2000 - 0, 100000)]"
proof -
  let ?f = "mkFrag 10 1 ((mkStats 0 2000 100000)\<lparr>parsing_end := 2300\<rparr>)"
  have "bwSamples (fst (onFragBuffered noEstimator ?f None AbrController_new)) =
        bwSamples AbrController_new @ [(loading_end (stats ?f) - loading_start (stats ?f), loaded (stats ?f))]"
    by (rule C10_box_fallback_sample)
       (simp_all add: mkFrag_def mkStats_def AbrController_new_def trimEnds_def)
  then show ?thesis by (simp add: mkFrag_def mkStats_def)
qed

section \<open>Theorems: every decision is a ladder index\<close>

lemma scanLadder_lt: "0 < n \<Longrightarrow> scanLadder bl x n < n"
  by (induction n) (auto simp: less_Suc_eq)

lemma qualityForBitrate_lt: "levels hls \<noteq> [] \<Longrightarrow> qualityForBitrate hls x < length (levels hls)"
  by (simp add: qualityForBitrate_def Let_def scanLadder_lt)

lemma l2a_getQualityForBitrate_lt:
  "levels hls \<noteq> [] \<Longrightarrow> l2a_getQualityForBitrate hls fc x < length (levels hls)"
  by (auto simp: l2a_getQualityForBitrate_def Let_def qualityForBitrate_lt split: option.splits)

lemma stallion_getQualityForBitrate_lt:
  "levels hls \<noteq> [] \<Longrightarrow> stallion_getQualityForBitrate hls fc x lat < length (levels hls)"
  by (auto simp: stallion_getQualityForBitrate_def Let_def qualityForBitrate_lt split: option.splits)

lemma indexOf_member: "v \<in> set xs \<Longrightarrow> \<exists>i < length xs. indexOf xs v = Some i"
  by (induction xs) auto

lemma foldl_min_member: "foldl min t ts \<in> set (t # (ts :: real list))"
proof (induction ts arbitrary: t)
  case Nil
  then show ?case by simp
next
  case (Cons a ts)
  from Cons [of "min t a"] show ?case by (auto simp: min_def split: if_splits)
qed

lemma indexOfMin_lt: "temp \<noteq> [] \<Longrightarrow> \<exists>i < length temp. indexOfMin temp = Some i"
proof (cases temp)
  case Nil
  then show "temp \<noteq> [] \<Longrightarrow> ?thesis" by simp
next
  case (Cons t ts)
  then show ?thesis
    using indexOf_member [OF foldl_min_member [of t ts]] by (simp add: indexOfMin_def)
qed

lemma l2a_startup_lt:
  assumes "levels hls \<noteq> []" and "l2a_startup hls fc st p = (q, st', p')"
  shows "q < length (levels hls)"
  using assms l2a_getQualityForBitrate_lt [OF assms(1)]
  by (auto simp: l2a_startup_def Let_def split: if_splits)

lemma l2a_steady_lt:
  assumes "l2a_steady hls st p = Decided q st' p'"
  shows "q < length (levels hls)"
proof -
  let ?n = "length (levels hls)"
  from assms obtain V where V: "lastSegmentDurationS st = Some V"
    by (auto simp: l2a_steady_def Let_def split: option.splits)
  from assms V obtain q0 temp where
    q0: "indexOfMin temp = Some q0" "length temp = ?n"
    and q: "q = q0 \<or> (q0 > lastQuality st \<and> q = lastQuality st + 1)"
    by (auto simp: l2a_steady_def Let_def split: option.splits if_splits)
  have "q0 < ?n"
  proof (cases "temp = []")
    case True
    with q0 show ?thesis by (simp add: indexOfMin_def)
  next
    case False
    from indexOfMin_lt [OF this] q0 show ?thesis by auto
  qed
  with q show ?thesis by auto
qed

lemma l2a_steady_decides:
  assumes "levels hls \<noteq> []" and "lastSegmentDurationS st \<noteq> None"
    and "length (levels hls) \<le> length (prev_w p)"
  shows "\<exists>q st' p'. l2a_steady hls st p = Decided q st' p'"
proof -
  obtain V where V: "lastSegmentDurationS st = Some V" using assms(2) by auto
  let ?kbps = "map (\<lambda>b. bitrate b / 1000) (levels hls)"
  let ?n = "length (levels hls)"
  let ?rate = "case media hls of Some m \<Rightarrow> playbackRate m | None \<Rightarrow> 1"
  let ?T = "if HLSThroughput hls < 1 then 1 else HLSThroughput hls"
  let ?w2 = "euclideanProjection (snd (lagrangianDescent ?kbps (prev_w p) V (Q p) ?rate ?T)
               @ drop ?n (w p))"
  let ?temp = "map (\<lambda>i. \<bar>?kbps ! i - dotmultiplication ?w2 ?kbps\<bar>) [0..<?n]"
  have "?temp \<noteq> []" using assms(1) by simp
  from indexOfMin_lt [OF this] obtain i where "indexOfMin ?temp = Some i" by blast
  with V assms(3) show ?thesis
    by (simp add: l2a_steady_def Let_def)
qed


lemma l2a_steady_keeps:
  assumes "l2a_steady hls st p = Decided q st' p'"
  shows "l2a_state st' = l2a_state st \<and> lastSegmentDurationS st' = lastSegmentDurationS st \<and>
         length (levels hls) \<le> length (prev_w p')"
  using assms
  by (auto simp: l2a_steady_def Let_def split: option.splits if_splits)

lemma l2a_startup_keeps:
  assumes "l2a_startup hls fc st p = (q, st', p')" and "l2a_state st = L2A_STATE_STARTUP"
    and "l2a_state st' = L2A_STATE_STEADY"
  shows "lastSegmentDurationS st' \<noteq> None \<and> length (levels hls) \<le> length (prev_w p')"
  using assms
  by (auto simp: l2a_startup_def Let_def L2A_STATE_STARTUP_def L2A_STATE_STEADY_def
      split: if_splits)

lemma l2a_wf_store:
  assumes "l2a_wf hls r"
    and "l2a_state st = L2A_STATE_STEADY \<longrightarrow>
         lastSegmentDurationS st \<noteq> None \<and> length (levels hls) \<le> length (prev_w p)"
  shows "l2a_wf hls (storeL2A mediaType st (Some p) r)"
  using assms by (auto simp: l2a_wf_def storeL2A_def)

lemma getL2AState_wf:
  assumes "l2a_wf hls r" and "getL2AState hls mediaType r = (st, r1)"
  shows "l2a_wf hls r1 \<and> l2AStateDict r1 mediaType = Some st"
  using assms
  by (auto simp: getL2AState_def l2a_wf_def getInitialL2AState_def L2A_STATE_STARTUP_def
      L2A_STATE_STEADY_def split: option.splits if_splits)

lemma l2a_getMaxIndex_valid:
  assumes ne: "levels hls \<noteq> []" and cq: "l2_currentQuality r < length (levels hls)"
    and wf: "l2a_wf hls r"
  shows "\<exists>q r'. l2a_getMaxIndex hls r = Quality q r' \<and> q < length (levels hls) \<and> l2a_wf hls r'"
proof -
  let ?mt = "case l2_fragCurrent r of Some f \<Rightarrow> ftype f | None \<Rightarrow> MAIN"
  show ?thesis
  proof (cases "?mt = AUDIO")
    case True
    with cq wf show ?thesis by (simp add: l2a_getMaxIndex_def Let_def)
  next
    case notAudio: False
    obtain st r1 where g: "getL2AState hls ?mt r = (st, r1)"
      by (cases "getL2AState hls ?mt r") auto
    from getL2AState_wf [OF wf g] have wf1: "l2a_wf hls r1"
      and st: "l2AStateDict r1 ?mt = Some st" by auto
    have cq1: "l2_currentQuality r1 = l2_currentQuality r" "l2_fragCurrent r1 = l2_fragCurrent r"
      using g by (auto simp: getL2AState_def split: option.splits)
    show ?thesis
    proof (cases "l2a_state st = L2A_STATE_ONE_BITRATE")
      case True
      with notAudio g cq wf1 show ?thesis by (simp add: l2a_getMaxIndex_def Let_def)
    next
      case notOne: False
      show ?thesis
      proof (cases "l2AParameterDict r1 ?mt")
        case None
        with notAudio notOne g cq wf1 show ?thesis by (simp add: l2a_getMaxIndex_def Let_def)
      next
        case (Some p)
        consider (startup) "l2a_state st = L2A_STATE_STARTUP"
          | (steady) "l2a_state st \<noteq> L2A_STATE_STARTUP" "l2a_state st = L2A_STATE_STEADY"
          | (other) "l2a_state st \<noteq> L2A_STATE_STARTUP" "l2a_state st \<noteq> L2A_STATE_STEADY"
          by blast
        then show ?thesis
        proof cases
          case startup
          obtain q st' p' where su: "l2a_startup hls (l2_fragCurrent r) st p = (q, st', p')"
            by (cases "l2a_startup hls (l2_fragCurrent r) st p") auto
          have res: "l2a_getMaxIndex hls r = Quality q (storeL2A ?mt st' (Some p') r1)"
            using notAudio notOne g Some startup su by (simp add: l2a_getMaxIndex_def Let_def)
          have "l2a_wf hls (storeL2A ?mt st' (Some p') r1)"
            using l2a_startup_keeps [OF su startup] by (intro l2a_wf_store [OF wf1]) simp
          with res l2a_startup_lt [OF ne su] show ?thesis by simp
        next
          case steady
          from wf1 st Some steady(2)
          have V: "lastSegmentDurationS st \<noteq> None" and pw: "length (levels hls) \<le> length (prev_w p)"
            by (auto simp: l2a_wf_def)
          from l2a_steady_decides [OF ne V pw] obtain q st' p' where
            sd: "l2a_steady hls st p = Decided q st' p'" by blast
          have res: "l2a_getMaxIndex hls r = Quality q (storeL2A ?mt st' (Some p') r1)"
            using notAudio notOne g Some steady sd by (simp add: l2a_getMaxIndex_def Let_def)
          have "l2a_wf hls (storeL2A ?mt st' (Some p') r1)"
            using l2a_steady_keeps [OF sd] V by (intro l2a_wf_store [OF wf1]) simp
          with res l2a_steady_lt [OF sd] show ?thesis by simp
        next
          case other
          have res: "l2a_getMaxIndex hls r =
              Quality (l2a_getQualityForBitrate hls (l2_fragCurrent r) (HLSThroughput hls))
                (storeL2A ?mt (clearL2AStateOnSeek (st\<lparr>l2a_state := L2A_STATE_STARTUP\<rparr>)) (Some p) r1)"
            using notAudio notOne g Some other by (simp add: l2a_getMaxIndex_def Let_def)
          have "l2a_wf hls (storeL2A ?mt (clearL2AStateOnSeek (st\<lparr>l2a_state := L2A_STATE_STARTUP\<rparr>))
                  (Some p) r1)"
            by (intro l2a_wf_store [OF wf1])
               (simp add: clearL2AStateOnSeek_def L2A_STATE_STARTUP_def L2A_STATE_STEADY_def)
          with res l2a_getQualityForBitrate_lt [OF ne] show ?thesis by simp
        qed
      qed
    qed
  qed
qed

lemma l2a_wf_new: "l2a_wf hls (L2ARule_new fc cq)"
  by (simp add: l2a_wf_def L2ARule_new_def)

lemma l2a_wf_update: "l2a_wf hls r \<Longrightarrow> l2a_wf hls (L2ARule_update fc cq r)"
  unfolding l2a_wf_def L2ARule_update_def by simp blast

lemma l2a_wf_seeking: "l2a_wf hls r \<Longrightarrow> l2a_wf hls (onPlaybackSeeking details r)"
  by (auto simp: l2a_wf_def onPlaybackSeeking_def clearL2AStateOnSeek_def
      L2A_STATE_STARTUP_def L2A_STATE_STEADY_def split: if_splits)

lemma checkNewSegment_keeps:
  assumes "checkNewSegment st p = Inr (st', p')"
  shows "l2a_state st' = l2a_state st \<and> lastSegmentDurationS st' = lastSegmentDurationS st \<and>
         map_option prev_w p' = map_option prev_w p"
  using assms by (auto simp: checkNewSegment_def split: option.splits)

lemma l2a_wf_store_opt:
  assumes "l2a_wf hls r" and "l2AStateDict r mediaType = Some st0"
    and "l2a_state st = l2a_state st0"
    and "lastSegmentDurationS st0 \<noteq> None \<longrightarrow> lastSegmentDurationS st \<noteq> None"
    and "map_option prev_w p = map_option prev_w (l2AParameterDict r mediaType)"
  shows "l2a_wf hls (storeL2A mediaType st p r)"
  using assms
  by (cases p; cases "l2AParameterDict r mediaType")
     (auto simp: l2a_wf_def storeL2A_def split: if_splits)

lemma l2a_wf_fragLoaded:
  assumes "l2a_wf hls r" and "onMediaFragmentLoaded frag r = Inr r'"
  shows "l2a_wf hls r'"
proof (cases "l2AStateDict r (ftype frag)")
  case None
  with assms show ?thesis by (simp add: onMediaFragmentLoaded_def)
next
  case (Some st)
  show ?thesis
  proof (cases "l2a_state st \<noteq> L2A_STATE_ONE_BITRATE")
    case False
    with assms Some show ?thesis by (simp add: onMediaFragmentLoaded_def)
  next
    case True
    with assms(2) Some obtain st2 st3 p3 where
      cn: "checkNewSegment st2 (l2AParameterDict r (ftype frag)) = Inr (st3, p3)"
      and st2: "l2a_state st2 = l2a_state st" "lastSegmentDurationS st2 \<noteq> None"
      and r': "r' = storeL2A (ftype frag) st3 p3 r"
      by (auto simp: onMediaFragmentLoaded_def Let_def split: sum.splits option.splits if_splits)
    from checkNewSegment_keeps [OF cn] st2 show ?thesis
      unfolding r' by (intro l2a_wf_store_opt [OF assms(1) Some]) auto
  qed
qed

lemma l2a_wf_metricAdded:
  assumes "l2a_wf hls r" and "onMetricAdded frag r = Inr r'"
  shows "l2a_wf hls r'"
proof (cases "l2AStateDict r (ftype frag)")
  case None
  with assms show ?thesis by (simp add: onMetricAdded_def)
next
  case (Some st)
  show ?thesis
  proof (cases "l2a_state st \<noteq> L2A_STATE_ONE_BITRATE")
    case False
    with assms Some show ?thesis by (simp add: onMetricAdded_def)
  next
    case True
    with assms(2) Some obtain st1 st2 p2 where
      cn: "checkNewSegment st1 (l2AParameterDict r (ftype frag)) = Inr (st2, p2)"
      and st1: "l2a_state st1 = l2a_state st" "lastSegmentDurationS st1 = lastSegmentDurationS st"
      and r': "r' = storeL2A (ftype frag) st2 p2 r"
      by (auto simp: onMetricAdded_def Let_def split: sum.splits)
    from checkNewSegment_keeps [OF cn] st1 show ?thesis
      unfolding r' by (intro l2a_wf_store_opt [OF assms(1) Some]) auto
  qed
qed

lemma l2a_wf_qualityChange: "l2a_wf hls r \<Longrightarrow> l2a_wf hls (onQualityChangeRequested lv r)"
  by (auto simp: l2a_wf_def onQualityChangeRequested_def Let_def split: option.splits if_splits)

lemma pushSample_nonempty: "pushSample n x q \<noteq> [] \<or> n = 0"
  by (cases q) (auto simp: pushSample_def Let_def)

lemma getMean_returns: "arr \<noteq> [] \<Longrightarrow> \<exists>m. getMean arr = Inr m"
  by (cases arr) (auto simp: getMean_def js_reduce_def)

lemma getStandardDeviation_returns: "arr \<noteq> [] \<Longrightarrow> \<exists>m. getStandardDeviation arr = Inr m"
  by (cases arr) (auto simp: getStandardDeviation_def js_reduce_def Let_def)

lemma stallion_decide_lt:
  "levels hls \<noteq> [] \<Longrightarrow> sr_currentQuality r < length (levels hls) \<Longrightarrow>
   stallion_decide hls r br lat < length (levels hls)"
  by (auto simp: stallion_decide_def Let_def stallion_getQualityForBitrate_lt split: option.splits)

lemma stallion_getMaxIndex_valid:
  assumes ne: "levels hls \<noteq> []" and cq: "sr_currentQuality r < length (levels hls)"
  shows "\<exists>q r'. stallion_getMaxIndex hls r = Inr (q, r') \<and> q < length (levels hls)"
proof (cases "(case sr_fragCurrent r of Some f \<Rightarrow> ftype f | None \<Rightarrow> MAIN) = AUDIO")
  case True
  with cq show ?thesis by (simp add: stallion_getMaxIndex_def Let_def)
next
  case False
  let ?t = "pushSample THROUGHPUT_SAMPLE_AMOUNT (HLSThroughput hls) (throughputArr r)"
  let ?l = "pushSample LATENCY_SAMPLE_AMOUNT (latency hls) (latencyArr r)"
  have t: "?t \<noteq> []" using pushSample_nonempty [of THROUGHPUT_SAMPLE_AMOUNT]
    by (auto simp: THROUGHPUT_SAMPLE_AMOUNT_def)
  have l: "?l \<noteq> []" using pushSample_nonempty [of LATENCY_SAMPLE_AMOUNT]
    by (auto simp: LATENCY_SAMPLE_AMOUNT_def)
  from getMean_returns [OF t] getStandardDeviation_returns [OF t]
    getMean_returns [OF l] getStandardDeviation_returns [OF l]
  obtain a b c d where "getMean ?t = Inr a" "getStandardDeviation ?t = Inr b"
    "getMean ?l = Inr c" "getStandardDeviation ?l = Inr d" by blast
  with False stallion_decide_lt [OF ne cq] show ?thesis
    by (simp add: stallion_getMaxIndex_def Let_def)
qed

lemma llama_decide_lt:
  "cq < length bitrates \<Longrightarrow> llama_decide bitrates cq lt hm bl < length bitrates"
  by (auto simp: llama_decide_def Let_def)

lemma llama_getMaxIndex_valid:
  assumes ne: "levels hls \<noteq> []" and cq: "ll_currentQuality r < length (levels hls)"
    and res: "llama_getMaxIndex hls r = Inr (q, r')"
  shows "q < length (levels hls)"
proof -
  have m: "llama_measure hls f r = Inr (q, r') \<Longrightarrow> q < length (levels hls)" for f
    using llama_decide_lt [of "ll_currentQuality r" "map (\<lambda>b. bitrate b / 1000) (levels hls)"] cq
    by (auto simp: llama_measure_def Let_def split: sum.splits)
  from res ne cq m show ?thesis
    by (auto simp: llama_getMaxIndex_def Let_def split: if_splits SeqNum.splits option.splits)
qed

lemma llama_getMaxIndex_returns:
  assumes "ll_fragCurrent r = Some f"
  shows "\<exists>q r'. llama_getMaxIndex hls r = Inr (q, r')"
proof -
  have "pushSample HARMONIC_MEAN_SIZE x (ll_harmonicMeanQ r) \<noteq> []" for x
    using pushSample_nonempty [of HARMONIC_MEAN_SIZE] by (auto simp: HARMONIC_MEAN_SIZE_def)
  then have "\<exists>h. llama_harmonicMean (pushSample HARMONIC_MEAN_SIZE x (ll_harmonicMeanQ r)) = Inr h" for x
    by (cases "pushSample HARMONIC_MEAN_SIZE x (ll_harmonicMeanQ r)")
       (auto simp: llama_harmonicMean_def js_reduce_def)
  then have "\<exists>q r'. llama_measure hls g r = Inr (q, r')" for g
    by (simp add: llama_measure_def Let_def split: sum.splits) (metis sum.distinct(1))
  with assms show ?thesis
    by (auto simp: llama_getMaxIndex_def Let_def split: SeqNum.splits)
qed

lemma getSomBitrateNeurons_wf:
  assumes "lolp_wf L ctl0" and "getSomBitrateNeurons rnd L ctl0 = Inr (som, ctl)"
  shows "length som = length L \<and> (\<forall>i < length som. qualityIndex (som ! i) = i) \<and>
         somBitrateNeurons ctl = Some som"
proof (cases "somBitrateNeurons ctl0")
  case (Some ns)
  with assms show ?thesis
    by (auto simp: getSomBitrateNeurons_def lolp_wf_def)
next
  case None
  with assms(2) obtain magnitude where "som = buildNeurons L magnitude"
    "somBitrateNeurons ctl = Some som"
    by (auto simp: getSomBitrateNeurons_def Let_def split: list.splits sum.splits)
  then show ?thesis
    by (simp add: buildNeurons_def)
qed

lemma getDownShiftNeuron_member:
  "getDownShiftNeuron (Some ns) cur thr = cur \<or> getDownShiftNeuron (Some ns) cur thr \<in> set ns"
proof -
  have "snd acc = cur \<or> snd acc \<in> S \<Longrightarrow> set xs \<subseteq> S \<Longrightarrow>
        snd (foldl (downShiftStep cur thr) acc xs) = cur \<or>
        snd (foldl (downShiftStep cur thr) acc xs) \<in> S" for acc xs S
  proof (induction xs arbitrary: acc)
    case Nil
    then show ?case by simp
  next
    case (Cons x xs)
    have "snd (downShiftStep cur thr acc x) = cur \<or> snd (downShiftStep cur thr acc x) \<in> S"
      using Cons.prems by (auto simp: downShiftStep_def)
    from Cons.IH [OF this] Cons.prems(2) show ?case by simp
  qed
  from this [of "(0, cur)" "set ns" ns] show ?thesis
    by (simp add: getDownShiftNeuron_def)
qed

lemma winnerStep_minIndex:
  assumes "winnerStep ws ctl som thr tn cb acc i = Inr acc'" and "i < length som"
    and "\<forall>k < length som. qualityIndex (som ! k) = k"
    and "\<forall>k. minIndex acc = Some k \<longrightarrow> k < length som"
  shows "\<forall>k. minIndex acc' = Some k \<longrightarrow> k < length som"
  using assms
  by (auto simp: winnerStep_def Let_def split: option.splits sum.splits if_splits)

lemma winnerFold_minIndex:
  assumes "foldE (winnerStep ws ctl som thr tn cb)
             \<lparr>minDistance = None, minIndex = None, winnerNeuron = None, winnerWeights = None\<rparr>
             [0..<length som] = Inr win"
    and "\<forall>k < length som. qualityIndex (som ! k) = k"
    and "minIndex win = Some mi"
  shows "mi < length som"
proof -
  have "\<forall>k. minIndex win = Some k \<longrightarrow> k < length som"
  proof (rule foldE_invariant [where P = "\<lambda>a. \<forall>k. minIndex a = Some k \<longrightarrow> k < length som",
        OF _ _ assms(1)])
    show "\<forall>k. minIndex \<lparr>minDistance = None, minIndex = None, winnerNeuron = None,
                 winnerWeights = None\<rparr> = Some k \<longrightarrow> k < length som"
      by simp
  next
    fix a x a'
    assume "\<forall>k. minIndex a = Some k \<longrightarrow> k < length som" "x \<in> set [0..<length som]"
      "winnerStep ws ctl som thr tn cb a x = Inr a'"
    then show "\<forall>k. minIndex a' = Some k \<longrightarrow> k < length som"
      using winnerStep_minIndex [of ws ctl som thr tn cb a x a'] assms(2) by simp
  qed
  with assms(3) show ?thesis by simp
qed

lemma getNextQuality_valid:
  assumes wf: "lolp_wf L ctl0"
    and res: "getNextQuality rnd L thr lat buf rate cq ws ctl0 = Inr (q, ctl', ws')"
  shows "q < length L"
proof -
  from res obtain som ctl where som: "getSomBitrateNeurons rnd L ctl0 = Inr (som, ctl)"
    by (auto simp: getNextQuality_def split: sum.splits)
  from getSomBitrateNeurons_wf [OF wf som]
  have len: "length som = length L" and qi: "\<forall>i < length som. qualityIndex (som ! i) = i"
    and sb: "somBitrateNeurons ctl = Some som" by auto
  from res som have cq: "cq < length som"
    by (auto simp: getNextQuality_def Let_def split: if_splits)
  let ?cur = "som ! cq"
  let ?dt = "(n_bitrate ?cur * ws_segmentDuration ws) / thr"
  show ?thesis
  proof (cases "buf - ?dt < ws_bufferMin ws")
    case True
    with res som cq sb have q: "q = qualityIndex (getDownShiftNeuron (Some som) ?cur thr)"
      by (simp add: getNextQuality_def Let_def)
    from getDownShiftNeuron_member [of som ?cur thr] cq
    have "getDownShiftNeuron (Some som) ?cur thr \<in> set som" by auto
    then obtain k where "k < length som" "getDownShiftNeuron (Some som) ?cur thr = som ! k"
      by (auto simp: in_set_conv_nth)
    with q qi len show ?thesis by simp
  next
    case False
    with res som cq obtain ctl1 ws1 tn win where
      fold: "foldE (winnerStep ws1 ctl1 som thr tn buf)
               \<lparr>minDistance = None, minIndex = None, winnerNeuron = None, winnerWeights = None\<rparr>
               [0..<length som] = Inr win"
      and mi: "minIndex win = Some q"
      by (simp add: getNextQuality_def Let_def split: sum.splits option.splits prod.splits)
    from winnerFold_minIndex [OF fold qi mi] len show ?thesis by simp
  qed
qed

subsection \<open>A run of each rule on the scenario ladder\<close>

lemma upt4: "[0..<4] = [0, 1, 2, 3]"
  by (simp add: upt_rec numeral_eq_Suc)

lemma getDistance_zero: "getDistance zero4 zero4 [1, 1, 1, 1] = Inr 0"
  by (simp add: getDistance_def js_reduce_def upt4)

lemma randomData_zero: "getRandomData (\<lambda>k. 0) m n = replicate n zero4"
  by (simp add: getRandomData_def map_replicate_const)

lemma replicate_foldE_fixed:
  assumes "f a x = Inr a"
  shows "foldE f a (replicate j x) = Inr a"
  using assms by (induction j) simp_all

lemma foldE_fixed:
  assumes "\<forall>x \<in> set xs. f a x = Inr a"
  shows "foldE f a xs = Inr a"
  using assms by (induction xs) simp_all

lemma minDistanceTo_zero: "minDistanceTo (replicate (Suc k) zero4) zero4 = Inr (Some 0)"
proof -
  have "minDistanceStep zero4 (Some 0) zero4 = Inr (Some 0)"
    by (simp add: minDistanceStep_def getDistance_zero)
  from replicate_foldE_fixed [where f = "minDistanceStep zero4" and a = "Some 0" and x = zero4,
      OF this]
  show ?thesis
    by (simp add: minDistanceTo_def minDistanceStep_def getDistance_zero)
qed

lemma farthestPoint_zero:
  "farthestPoint (replicate (Suc n) zero4) (replicate (Suc k) zero4) = Inr (Some zero4)"
proof -
  let ?cs = "replicate (Suc k) zero4"
  have "farthestStep ?cs (Some zero4, Some 0) zero4 = Inr (Some zero4, Some 0)"
    unfolding farthestStep_def minDistanceTo_zero by (simp add: nullAs0_def)
  from replicate_foldE_fixed [where f = "farthestStep ?cs" and a = "(Some zero4, Some 0)"
      and x = zero4 and j = n, OF this]
  have "foldE (farthestStep ?cs) (Some zero4, Some 0) (replicate n zero4) = Inr (Some zero4, Some 0)" .
  moreover have "farthestStep ?cs (None, None) zero4 = Inr (Some zero4, Some 0)"
    unfolding farthestStep_def minDistanceTo_zero by simp
  ultimately show ?thesis
    unfolding farthestPoint_def by simp
qed

lemma seedCenters_zero:
  "seedCenters (replicate (Suc n) zero4) (Suc k) = Inr (replicate (Suc k) zero4)"
proof -
  let ?data = "replicate (Suc n) zero4"
  have step: "seedStep ?data (replicate (Suc i) zero4) j = Inr (replicate (Suc (Suc i)) zero4)" for i j
  proof -
    have "replicate (Suc i) zero4 @ [zero4] = replicate (Suc (Suc i)) zero4"
      by (metis replicate_Suc replicate_append_same)
    then show ?thesis
      unfolding seedStep_def farthestPoint_zero by simp
  qed
  have "foldE (seedStep ?data) (replicate (Suc i) zero4) [Suc i..<Suc i + j]
          = Inr (replicate (Suc i + j) zero4)" for i j
  proof (induction j arbitrary: i)
    case 0
    then show ?case by simp
  next
    case (Suc j)
    have "[Suc i..<Suc i + Suc j] = Suc i # [Suc (Suc i)..<Suc (Suc i) + j]"
      by (simp add: upt_rec)
    then show ?case
      using Suc [of "Suc i"] step [of i "Suc i"] by simp
  qed
  from this [of 0 k] show ?thesis
    unfolding seedCenters_def by simp
qed

lemma sumDistances_zero:
  assumes "i < Suc k"
  shows "sumDistances (replicate (Suc k) zero4) i = Inr 0"
proof -
  have "\<forall>j \<in> set [0..<Suc k]. sumDistancesStep (replicate (Suc k) zero4) i 0 j = Inr 0"
    using assms by (auto simp: sumDistancesStep_def getDistance_zero simp del: replicate_Suc)
  from foldE_fixed [where f = "sumDistancesStep (replicate (Suc k) zero4) i" and a = 0, OF this]
  show ?thesis
    unfolding sumDistances_def by (simp del: replicate_Suc upt_Suc)
qed

lemma leastSimilar_zero: "leastSimilar (replicate (Suc k) zero4) = Inr (Some 0)"
proof -
  let ?cs = "replicate (Suc k) zero4"
  have "\<forall>j \<in> set [1..<Suc k]. leastSimilarStep ?cs (Some 0, Some 0) j = Inr (Some 0, Some 0)"
    by (auto simp: leastSimilarStep_def sumDistances_zero simp del: replicate_Suc)
  from foldE_fixed [where f = "leastSimilarStep ?cs" and a = "(Some 0, Some 0)", OF this]
  have "foldE (leastSimilarStep ?cs) (Some 0, Some 0) [1..<Suc k] = Inr (Some 0, Some 0)" .
  moreover have "[0..<Suc k] = 0 # [1..<Suc k]"
    by (simp add: upt_rec del: upt_Suc)
  moreover have "leastSimilarStep ?cs (None, None) 0 = Inr (Some 0, Some 0)"
    by (simp add: leastSimilarStep_def sumDistances_zero del: replicate_Suc)
  ultimately show ?thesis
    unfolding leastSimilar_def by (simp del: replicate_Suc upt_Suc)
qed

lemma nearestIndex_zero: "nearestIndex zero4 (replicate (Suc k) zero4) = Inr (Some 0)"
proof -
  let ?cs = "replicate (Suc k) zero4"
  have "\<forall>j \<in> set [1..<Suc k]. nearestStep zero4 ?cs (Some 0, Some 0) j = Inr (Some 0, Some 0)"
    by (auto simp: nearestStep_def getDistance_zero simp del: replicate_Suc)
  from foldE_fixed [where f = "nearestStep zero4 ?cs" and a = "(Some 0, Some 0)", OF this]
  have "foldE (nearestStep zero4 ?cs) (Some 0, Some 0) [1..<Suc k] = Inr (Some 0, Some 0)" .
  moreover have "[0..<Suc k] = 0 # [1..<Suc k]"
    by (simp add: upt_rec del: upt_Suc)
  moreover have "nearestStep zero4 ?cs (None, None) 0 = Inr (Some 0, Some 0)"
    by (simp add: nearestStep_def getDistance_zero)
  ultimately show ?thesis
    unfolding nearestIndex_def by (simp del: replicate_Suc upt_Suc)
qed

lemma sortRest_zero: "\<exists>cs. sortRest zero4 (replicate k zero4) acc = Inr cs"
proof (induction k arbitrary: acc)
  case 0
  then show ?case by (simp add: sortRest.simps)
next
  case (Suc k)
  have sp: "splice1 0 (replicate (Suc k) zero4) = replicate k zero4"
    by (simp add: splice1_def)
  have ne: "replicate (Suc k) zero4 \<noteq> []" "replicate (Suc k) zero4 ! 0 = zero4"
    by simp_all
  have "sortRest zero4 (replicate (Suc k) zero4) acc =
        sortRest zero4 (replicate k zero4) (acc @ [zero4])"
    by (subst sortRest.simps) (simp only: nearestIndex_zero sp ne if_False sum.case option.case)
  with Suc [of "acc @ [zero4]"] show ?case by simp
qed

lemma kmeans_zero:
  assumes "ns \<noteq> []"
  shows "\<exists>cs. getInitialKmeansPlusPlusCenters (\<lambda>k. 0) ns = Inr cs"
proof -
  obtain k where k: "length ns = Suc k" using assms by (cases ns) auto
  obtain m where m: "(Suc k)\<^sup>2 = Suc m"
    by (cases "(Suc k)\<^sup>2") auto
  have seed: "seedCenters (getRandomData (\<lambda>k. 0) (getMaxThroughput (Some ns)) ((length ns)\<^sup>2))
                (length ns) = Inr (replicate (Suc k) zero4)"
    unfolding randomData_zero k m by (rule seedCenters_zero)
  have sp: "splice1 0 (replicate (Suc k) zero4) = replicate k zero4"
    by (simp add: splice1_def)
  have nth0: "replicate (Suc k) zero4 ! 0 = zero4" by simp
  have "getInitialKmeansPlusPlusCenters (\<lambda>k. 0) ns = sortRest zero4 (replicate k zero4) [zero4]"
    unfolding getInitialKmeansPlusPlusCenters_def Let_def seed
    by (simp only: leastSimilar_zero sum.case option.case sp nth0)
  with sortRest_zero [of k "[zero4]"] show ?thesis by simp
qed


lemma llama_scenario_stuck:
  "decision (llama_getMaxIndex (mkHls 400000)
     \<lparr>ll_fragCurrent = Some (mkFrag 10 1 (mkStats 0 2000 100000)), ll_currentQuality = 1,
      ll_sn0 = Sn 0, ll_harmonicMeanQ = []\<rparr>) = Some 1"
  by (simp add: decision_def llama_getMaxIndex_def llama_measure_def llama_decide_def
      llama_harmonicMean_def js_reduce_def pushSample_def HARMONIC_MEAN_SIZE_def
      js_lt_at_def js_gt_at_def mkHls_def mkFrag_def mkStats_def ladder_def mkLevel_def
      HLSThroughput_def THROUGHPUT_SAFETY_FACTOR_def Let_def)

lemma buildNeurons_ladder:
  "buildNeurons ladder m =
     [\<lparr>qualityIndex = 0, n_bitrate = 300000,
        n_state = \<lparr>s_throughput = 300000 / m, s_latency = 0, s_rebuffer = 0, s_switch = 0\<rparr>\<rparr>,
      \<lparr>qualityIndex = 1, n_bitrate = 750000,
        n_state = \<lparr>s_throughput = 750000 / m, s_latency = 0, s_rebuffer = 0, s_switch = 0\<rparr>\<rparr>,
      \<lparr>qualityIndex = 2, n_bitrate = 1500000,
        n_state = \<lparr>s_throughput = 1500000 / m, s_latency = 0, s_rebuffer = 0, s_switch = 0\<rparr>\<rparr>,
      \<lparr>qualityIndex = 3, n_bitrate = 3000000,
        n_state = \<lparr>s_throughput = 3000000 / m, s_latency = 0, s_rebuffer = 0, s_switch = 0\<rparr>\<rparr>]"
  by (simp add: buildNeurons_def ladder_def mkLevel_def upt4)

lemma getSomBitrateNeurons_fresh:
  assumes "somBitrateNeurons ctl = None" and "L \<noteq> []"
    and "getMagnitude (map bitrate L) = Inr m"
    and "getInitialKmeansPlusPlusCenters rnd (buildNeurons L m) = Inr cs"
  shows "\<exists>ctl'. getSomBitrateNeurons rnd L ctl = Inr (buildNeurons L m, ctl') \<and>
               somBitrateNeurons ctl' = Some (buildNeurons L m)"
proof -
  obtain l0 ls where L: "L = l0 # ls" using assms(2) by (cases L) auto
  show ?thesis
    unfolding getSomBitrateNeurons_def
    using assms(1,3,4) unfolding L by (simp add: Let_def)
qed

lemma lolp_scenario_downshift:
  "decision (getNextQuality (\<lambda>k. 0) ladder 400000 0 0 1 1 selector0 LearningAbrController_new)
     = Some 0"
proof -
  obtain m where mag: "getMagnitude (map bitrate ladder) = Inr m"
    by (simp add: getMagnitude_def js_reduce_def ladder_def mkLevel_def)
  have "buildNeurons ladder m \<noteq> []" by (simp add: buildNeurons_ladder)
  from kmeans_zero [OF this] obtain cs where
    km: "getInitialKmeansPlusPlusCenters (\<lambda>k. 0) (buildNeurons ladder m) = Inr cs" ..
  have "ladder \<noteq> []" by (simp add: ladder_def)
  from getSomBitrateNeurons_fresh [OF _ this mag km, of LearningAbrController_new]
  obtain ctl where som: "getSomBitrateNeurons (\<lambda>k. 0) ladder LearningAbrController_new
      = Inr (buildNeurons ladder m, ctl)" and sb: "somBitrateNeurons ctl = Some (buildNeurons ladder m)"
    by (auto simp: LearningAbrController_new_def)
  have ds: "qualityIndex (getDownShiftNeuron (Some (buildNeurons ladder m))
              (buildNeurons ladder m ! Suc 0) 400000) = 0"
    by (simp add: getDownShiftNeuron_def buildNeurons_ladder downShiftStep_def)
  have len: "length (buildNeurons ladder m) = 4"
    and nb: "n_bitrate (buildNeurons ladder m ! Suc 0) = 750000"
    by (simp_all add: buildNeurons_ladder)
  show ?thesis
    unfolding getNextQuality_def som
    by (simp add: Let_def sb ds len nb decision_def selector0_def)
qed

text \<open>
  On a ladder that stays the same, each of the four rules' decisions is a position of the
  ladder. With a non-empty ladder and the rule's current quality a position of it: every
  value Llama's \<open>getMaxIndex\<close> returns is below the number of levels; L2A-LL's
  \<open>getMaxIndex\<close>, in a state the rule's own handlers produce on this ladder (\<open>l2a_wf\<close>),
  returns a quality below the number of levels and leaves such a state; Stallion's
  \<open>getMaxIndex\<close> returns a quality below the number of levels; and every value
  \<open>getNextQuality\<close> of the learning rule returns, for whatever \<open>Math.random\<close> yields, is
  below the number of levels.
\<close>

lemma decisions_on_a_fixed_ladder:
  assumes "levels hls \<noteq> []"
  shows "(ll_currentQuality lr < length (levels hls) \<longrightarrow>
          (\<forall>q. decision (llama_getMaxIndex hls lr) = Some q \<longrightarrow> q < length (levels hls))) \<and>
         (l2_currentQuality l2 < length (levels hls) \<and> l2a_wf hls l2 \<longrightarrow>
          (\<exists>q l2'. l2a_getMaxIndex hls l2 = Quality q l2' \<and> q < length (levels hls) \<and>
                    l2a_wf hls l2')) \<and>
         (sr_currentQuality sr < length (levels hls) \<longrightarrow>
          (\<exists>q sr'. stallion_getMaxIndex hls sr = Inr (q, sr') \<and> q < length (levels hls))) \<and>
         (lolp_wf (levels hls) ctl \<longrightarrow>
          (\<forall>q. decision (getNextQuality rnd (levels hls) thr ltc buf rt cq ws ctl) = Some q \<longrightarrow>
               q < length (levels hls)))"
proof (intro conjI impI allI)
  fix q
  assume "ll_currentQuality lr < length (levels hls)"
    and "decision (llama_getMaxIndex hls lr) = Some q"
  then show "q < length (levels hls)"
    using llama_getMaxIndex_valid [OF assms, of lr q]
    by (auto simp: decision_def split: sum.splits)
next
  assume "l2_currentQuality l2 < length (levels hls) \<and> l2a_wf hls l2"
  then show "\<exists>q l2'. l2a_getMaxIndex hls l2 = Quality q l2' \<and> q < length (levels hls) \<and>
                     l2a_wf hls l2'"
    using l2a_getMaxIndex_valid [OF assms] by simp
next
  assume "sr_currentQuality sr < length (levels hls)"
  then show "\<exists>q sr'. stallion_getMaxIndex hls sr = Inr (q, sr') \<and> q < length (levels hls)"
    by (rule stallion_getMaxIndex_valid [OF assms])
next
  fix q
  assume "lolp_wf (levels hls) ctl"
    and "decision (getNextQuality rnd (levels hls) thr ltc buf rt cq ws ctl) = Some q"
  then show "q < length (levels hls)"
    using getNextQuality_valid [of "levels hls" ctl rnd thr ltc buf rt cq ws q]
    by (auto simp: decision_def split: sum.splits)
qed

lemma decisions_on_the_scenario_ladder:
  "(\<exists>q. decision (llama_getMaxIndex (mkHls 400000)
           \<lparr>ll_fragCurrent = Some (mkFrag 10 1 (mkStats 0 2000 100000)), ll_currentQuality = 1,
            ll_sn0 = Sn 0, ll_harmonicMeanQ = []\<rparr>) = Some q \<and> q < 4) \<and>
   (\<exists>q l2'. l2a_getMaxIndex (mkHls 400000)
               (L2ARule_new (Some (mkFrag 10 1 (mkStats 0 2000 100000))) 1) = Quality q l2' \<and> q < 4) \<and>
   (\<exists>q sr'. stallion_getMaxIndex (mkHls 400000)
               (StallionRule_new (Some (mkFrag 10 1 (mkStats 0 2000 100000))) 1) = Inr (q, sr') \<and> q < 4) \<and>
   (\<exists>q. decision (getNextQuality (\<lambda>k. 0) ladder 400000 0 0 1 1 selector0 LearningAbrController_new)
           = Some q \<and> q < 4)"
proof -
  let ?hls = "mkHls 400000"
  let ?f = "Some (mkFrag 10 1 (mkStats 0 2000 100000))"
  let ?lr = "\<lparr>ll_fragCurrent = ?f, ll_currentQuality = 1, ll_sn0 = Sn 0, ll_harmonicMeanQ = []\<rparr>"
  have ne: "levels ?hls \<noteq> []" and len: "length (levels ?hls) = 4" and lv: "levels ?hls = ladder"
    by (simp_all add: mkHls_def ladder_def)
  note c1 = decisions_on_a_fixed_ladder [OF ne, of ?lr "L2ARule_new ?f 1"
      "StallionRule_new ?f 1" LearningAbrController_new "\<lambda>k. 0" 400000 0 0 1 1 selector0]
  have a: "ll_currentQuality ?lr < length (levels ?hls)" by (simp add: len)
  have b: "l2_currentQuality (L2ARule_new ?f 1) < length (levels ?hls) \<and>
           l2a_wf ?hls (L2ARule_new ?f 1)"
    by (simp add: len l2a_wf_new) (simp add: L2ARule_new_def)
  have c: "sr_currentQuality (StallionRule_new ?f 1) < length (levels ?hls)"
    by (simp add: len StallionRule_new_def)
  have d: "lolp_wf (levels ?hls) LearningAbrController_new"
    by (simp add: lolp_wf_def LearningAbrController_new_def)
  from c1 a llama_scenario_stuck have 1: "\<exists>q. decision (llama_getMaxIndex ?hls ?lr) = Some q \<and> q < 4"
    by (simp add: len)
  from c1 b have 2: "\<exists>q l2'. l2a_getMaxIndex ?hls (L2ARule_new ?f 1) = Quality q l2' \<and> q < 4"
    unfolding len by blast
  from c1 c have 3: "\<exists>q sr'. stallion_getMaxIndex ?hls (StallionRule_new ?f 1) = Inr (q, sr') \<and> q < 4"
    unfolding len by blast
  from c1 d lolp_scenario_downshift
  have 4: "\<exists>q. decision (getNextQuality (\<lambda>k. 0) ladder 400000 0 0 1 1 selector0
                  LearningAbrController_new) = Some q \<and> q < 4"
    unfolding len lv by simp
  from 1 2 3 4 show ?thesis by blast
qed

subsection \<open>A ladder that grows under a held L2A-LL rule\<close>

lemma toFixed2_8: "toFixed2 8 = 8"
proof -
  have "\<lfloor>(1601 :: real) / 2\<rfloor> = 800" by linarith
  then show ?thesis by (simp add: toFixed2_def)
qed

lemma l2a_steady_short_prev_w:
  assumes "l2_fragCurrent r = Some f" and "ftype f = MAIN"
    and "l2AStateDict r MAIN = Some st" and "l2a_state st = L2A_STATE_STEADY"
    and "l2AParameterDict r MAIN = Some p" and "length (prev_w p) < length (levels hls)"
  shows "l2a_getMaxIndex hls r = MinusOne"
  using assms
  by (simp add: l2a_getMaxIndex_def getL2AState_def l2a_steady_def Let_def
      L2A_STATE_STEADY_def L2A_STATE_ONE_BITRATE_def L2A_STATE_STARTUP_def
      split: option.splits)

lemma l2a_first_decision:
  "\<exists>r1. l2a_getMaxIndex hlsTwoLevels (L2ARule_new (Some fragP) 0) = Quality 1 r1 \<and>
        l2AStateDict r1 MAIN = Some ((getInitialL2AState hlsTwoLevels)\<lparr>lastQuality := 1\<rparr>) \<and>
        l2AParameterDict r1 MAIN = Some initialL2AParameters"
  by (simp add: l2a_getMaxIndex_def L2ARule_new_def fragP_def mkFrag_def getL2AState_def
      getInitialL2AState_def L2A_STATE_STEADY_def L2A_STATE_ONE_BITRATE_def
      L2A_STATE_STARTUP_def l2a_startup_def hlsTwoLevels_def mkHls_def ladder_def mkLevel_def
      l2a_getQualityForBitrate_def qualityForBitrate_def HLSThroughput_def storeL2A_def
      initialL2AParameters_def Let_def numeral_2_eq_2)


lemma l2a_fragment_loaded:
  assumes "l2AStateDict r1 MAIN = Some ((getInitialL2AState hlsTwoLevels)\<lparr>lastQuality := 1\<rparr>)"
    and "l2AParameterDict r1 MAIN = Some initialL2AParameters"
  shows "\<exists>r2 st2. onMediaFragmentLoaded fragP r1 = Inr r2 \<and>
           l2AStateDict r2 MAIN = Some st2 \<and> l2a_state st2 = L2A_STATE_STARTUP \<and>
           lastSegmentDurationS st2 = Some 2 \<and>
           l2AParameterDict r2 MAIN = Some initialL2AParameters"
  using assms
  by (simp add: onMediaFragmentLoaded_def fragP_def mkFrag_def getInitialL2AState_def
      L2A_STATE_ONE_BITRATE_def L2A_STATE_STARTUP_def checkNewSegment_def storeL2A_def Let_def)

lemma l2a_goes_steady:
  assumes "l2AStateDict r2 MAIN = Some st2" and "l2a_state st2 = L2A_STATE_STARTUP"
    and "lastSegmentDurationS st2 = Some 2"
    and "l2AParameterDict r2 MAIN = Some initialL2AParameters"
  shows "\<exists>r3 st3 p3. l2a_getMaxIndex hlsTwoLevels (L2ARule_update (Some fragP) 0 r2) = Quality 1 r3 \<and>
           l2_fragCurrent r3 = Some fragP \<and>
           l2AStateDict r3 MAIN = Some st3 \<and> l2a_state st3 = L2A_STATE_STEADY \<and>
           l2AParameterDict r3 MAIN = Some p3 \<and> length (prev_w p3) = 2"
  using assms
  by (simp add: l2a_getMaxIndex_def L2ARule_update_def fragP_def mkFrag_def getL2AState_def
      L2A_STATE_STEADY_def L2A_STATE_ONE_BITRATE_def L2A_STATE_STARTUP_def l2a_startup_def
      hlsTwoLevels_def mkHls_def ladder_def mkLevel_def l2a_getQualityForBitrate_def
      qualityForBitrate_def HLSThroughput_def storeL2A_def initialL2AParameters_def Let_def
      numeral_2_eq_2 toFixed2_8)

text \<open>
  C1. L2A-LL's \<open>getMaxIndex\<close> returns -1 on a non-empty ladder with the current quality a
  position of it. The rule reads \<open>hls.levels\<close> anew on every call, but fills \<open>prev_w\<close> only
  when it goes from the start-up to the steady state. Here a rule is made and asked on a
  ladder of two levels (300 and 750 kbps, 8 s buffered, 2000 kbps estimated), a fragment
  is loaded, and the next call takes the rule to the steady state with two entries in
  \<open>prev_w\<close>. Then the ladder has four levels: \<open>prev_w[2]\<close> is \<open>undefined\<close>, the weights and
  every distance are NaN, and \<open>temp.indexOf(Math.min(...temp))\<close> is -1.
\<close>

theorem C1_l2a_minus_one_after_ladder_growth:
  "\<exists>r1 r2 r3.
     l2a_getMaxIndex hlsTwoLevels (L2ARule_new (Some fragP) 0) = Quality 1 r1 \<and>
     onMediaFragmentLoaded fragP r1 = Inr r2 \<and>
     l2a_getMaxIndex hlsTwoLevels (L2ARule_update (Some fragP) 0 r2) = Quality 1 r3 \<and>
     levels (mkHls 2000000) \<noteq> [] \<and>
     l2_currentQuality (L2ARule_update (Some fragP) 0 r3) < length (levels (mkHls 2000000)) \<and>
     l2a_getMaxIndex (mkHls 2000000) (L2ARule_update (Some fragP) 0 r3) = MinusOne"
proof -
  from l2a_first_decision obtain r1 where
    1: "l2a_getMaxIndex hlsTwoLevels (L2ARule_new (Some fragP) 0) = Quality 1 r1"
    and s1: "l2AStateDict r1 MAIN = Some ((getInitialL2AState hlsTwoLevels)\<lparr>lastQuality := 1\<rparr>)"
      "l2AParameterDict r1 MAIN = Some initialL2AParameters"
    by blast
  from l2a_fragment_loaded [OF s1] obtain r2 st2 where
    2: "onMediaFragmentLoaded fragP r1 = Inr r2"
    and s2: "l2AStateDict r2 MAIN = Some st2" "l2a_state st2 = L2A_STATE_STARTUP"
      "lastSegmentDurationS st2 = Some 2" "l2AParameterDict r2 MAIN = Some initialL2AParameters"
    by blast
  from l2a_goes_steady [OF s2] obtain r3 st3 p3 where
    3: "l2a_getMaxIndex hlsTwoLevels (L2ARule_update (Some fragP) 0 r2) = Quality 1 r3"
    and s3: "l2_fragCurrent r3 = Some fragP" "l2AStateDict r3 MAIN = Some st3"
      "l2a_state st3 = L2A_STATE_STEADY" "l2AParameterDict r3 MAIN = Some p3"
      "length (prev_w p3) = 2"
    by blast
  have len: "length (levels (mkHls 2000000)) = 4" and ne: "levels (mkHls 2000000) \<noteq> []"
    by (simp_all add: mkHls_def ladder_def)
  have 4: "l2a_getMaxIndex (mkHls 2000000) (L2ARule_update (Some fragP) 0 r3) = MinusOne"
    by (rule l2a_steady_short_prev_w [where f = fragP and st = st3 and p = p3])
       (simp_all add: L2ARule_update_def s3 len fragP_def mkFrag_def)
  have 5: "l2_currentQuality (L2ARule_update (Some fragP) 0 r3) < length (levels (mkHls 2000000))"
    by (simp add: L2ARule_update_def len)
  from 1 2 3 4 5 ne show ?thesis by blast
qed

section \<open>Theorems: the rule objects of the orchestrator\<close>

lemma calculateQoE_keeps:
  assumes "calculateQoE hls c = Inr c'"
  shows "\<exists>x. c' = c\<lparr>lolpQoE := x\<rparr>"
  using assms by (auto simp: calculateQoE_def split: option.splits sum.splits)

lemma withQoE_result:
  assumes "withQoE hls q evs c = Inr d"
  shows "\<exists>x. d = \<lparr>nl_level = q, nl_controller = c\<lparr>lolpQoE := x\<rparr>, nl_media = media hls,
                  nl_events = evs\<rparr>"
proof (cases "calculateQoE hls c")
  case (Inl e)
  with assms show ?thesis by (simp add: withQoE_def)
next
  case (Inr c')
  from calculateQoE_keeps [OF this] obtain x where "c' = c\<lparr>lolpQoE := x\<rparr>" ..
  with assms Inr show ?thesis by (auto simp: withQoE_def)
qed

lemma L2AAbr_result:
  assumes "L2AAbr hls c = Inr d"
  shows "\<exists>q r' x. d = \<lparr>nl_level = q, nl_controller = c\<lparr>l2aRule := Some r', lolpQoE := x\<rparr>,
                        nl_media = media hls,
                        nl_events = [if l2aRule c = None then Constructed ''L2ARule''
                                     else Updated ''L2ARule'']\<rparr>"
  using assms
  by (auto simp: L2AAbr_def split: option.splits l2a_result.splits sum.splits
      dest!: withQoE_result)

lemma StallionAbr_result:
  assumes "StallionAbr hls c = Inr d"
  shows "\<exists>q r' x. d = \<lparr>nl_level = q, nl_controller = c\<lparr>stallionRule := Some r', lolpQoE := x\<rparr>,
                        nl_media = media hls,
                        nl_events = [if stallionRule c = None then Constructed ''StallionRule''
                                     else Updated ''StallionRule'']\<rparr>"
  using assms
  by (auto simp: StallionAbr_def split: option.splits sum.splits dest!: withQoE_result)

lemma LlamaAbr_result:
  assumes "LlamaAbr hls c = Inr d"
  shows "(llama c = None \<and> fragCurrent c = None \<and>
          (\<exists>x. d = \<lparr>nl_level = 0, nl_controller = c\<lparr>lolpQoE := x\<rparr>, nl_media = media hls,
                     nl_events = []\<rparr>)) \<or>
         (\<not> (llama c = None \<and> fragCurrent c = None) \<and>
          (\<exists>q r' x. d = \<lparr>nl_level = q, nl_controller = c\<lparr>llama := Some r', lolpQoE := x\<rparr>,
                          nl_media = media hls,
                          nl_events = [if llama c = None then Constructed ''Llama''
                                       else Updated ''Llama'']\<rparr>))"
  using assms
  by (auto simp: LlamaAbr_def split: option.splits sum.splits dest!: withQoE_result)

lemma lolpLearningAbr_result:
  assumes "lolpLearningAbr rnd isSafari hls c = Inr d"
  shows "\<exists>x. nl_controller d = c\<lparr>lolpQoE := x\<rparr> \<and> nl_events d = [Constructed ''LoLp'']"
proof -
  have same: "\<exists>x. c = c\<lparr>lolpQoE := x\<rparr>"
    by (rule exI [of _ "lolpQoE c"]) simp
  show ?thesis
    using assms
    by (auto simp: lolpLearningAbr_def Let_def split: option.splits sum.splits if_splits
        intro: same)
qed

lemma getNextABRAutoLevel_result:
  assumes "getNextABRAutoLevel bwe hls c = Inr (q, c')"
  shows "\<exists>x. c' = c\<lparr>lolpQoE := x\<rparr>"
  using assms
  by (auto simp: getNextABRAutoLevel_def Let_def split: sum.splits if_splits
      dest!: calculateQoE_keeps)


lemma eventsOf_append: "eventsOf tag (xs @ ys) = eventsOf tag xs @ eventsOf tag ys"
  by (simp add: eventsOf_def)

lemma releaseRules_slots:
  assumes rr: "releaseRules c = (c1, released)" and tag: "tag \<in> storedTags"
  shows "ABRRule c1 = ABRRule c \<and> lastABRRule c1 = lastABRRule c \<and>
         fragCurrent c1 = fragCurrent c \<and>
         held tag c1 = (held tag c \<and> \<not> (lastABRRule c = tag \<and> ABRRule c \<noteq> tag)) \<and>
         eventsOf tag released =
           (if lastABRRule c = tag \<and> ABRRule c \<noteq> tag \<and> held tag c then [Released tag] else [])"
proof -
  from tag consider "tag = ''L2ARule''" | "tag = ''Llama''" | "tag = ''StallionRule''"
    by (auto simp: storedTags_def)
  then show ?thesis
  proof cases
    case 1
    with rr show ?thesis
      by (simp add: releaseRules_def held_def eventsOf_def split: if_splits) auto
  next
    case 2
    with rr show ?thesis
      by (simp add: releaseRules_def held_def eventsOf_def split: if_splits) auto
  next
    case 3
    with rr show ?thesis
      by (simp add: releaseRules_def held_def eventsOf_def split: if_splits) auto
  qed
qed


lemma dispatch_tags:
  assumes D: "dispatch bwe rnd isSafari hls c = Inr d"
  shows "\<exists>a b e x. nl_controller d = c\<lparr>l2aRule := a, llama := b, stallionRule := e, lolpQoE := x\<rparr>"
proof -
  have same: "c\<lparr>lolpQoE := x\<rparr> =
              c\<lparr>l2aRule := l2aRule c, llama := llama c, stallionRule := stallionRule c,
                lolpQoE := x\<rparr>" for x
    by simp
  consider (lolp) "ABRRule c = ''LoLp''" | (l2a) "ABRRule c = ''L2ARule''"
    | (llama) "ABRRule c = ''Llama''" | (stallion) "ABRRule c = ''StallionRule''"
    | (other) "ABRRule c \<noteq> ''LoLp''" "ABRRule c \<noteq> ''L2ARule''" "ABRRule c \<noteq> ''Llama''"
        "ABRRule c \<noteq> ''StallionRule''"
    by blast
  then show ?thesis
  proof cases
    case lolp
    with D have "lolpLearningAbr rnd isSafari hls c = Inr d"
      by (simp add: dispatch_def)
    from lolpLearningAbr_result [OF this] obtain x where "nl_controller d = c\<lparr>lolpQoE := x\<rparr>"
      by blast
    with same [of x] show ?thesis by metis
  next
    case l2a
    with D have "L2AAbr hls c = Inr d"
      by (simp add: dispatch_def)
    from L2AAbr_result [OF this] obtain r' x where
      "nl_controller d = c\<lparr>l2aRule := Some r', lolpQoE := x\<rparr>"
      by auto
    moreover have "c\<lparr>l2aRule := Some r', lolpQoE := x\<rparr> =
        c\<lparr>l2aRule := Some r', llama := llama c, stallionRule := stallionRule c, lolpQoE := x\<rparr>"
      by simp
    ultimately show ?thesis by metis
  next
    case llama
    with D have "LlamaAbr hls c = Inr d"
      by (simp add: dispatch_def)
    from LlamaAbr_result [OF this] obtain b x where
      "nl_controller d = c\<lparr>llama := b, lolpQoE := x\<rparr>"
    proof (elim disjE conjE exE)
      fix x
      assume "d = \<lparr>nl_level = 0, nl_controller = c\<lparr>lolpQoE := x\<rparr>, nl_media = media hls,
                    nl_events = []\<rparr>"
      then have "nl_controller d = c\<lparr>llama := llama c, lolpQoE := x\<rparr>" by simp
      then show ?thesis by (rule that)
    next
      fix q r' x
      assume "d = \<lparr>nl_level = q, nl_controller = c\<lparr>llama := Some r', lolpQoE := x\<rparr>,
                    nl_media = media hls,
                    nl_events = [if llama c = None then Constructed ''Llama''
                                 else Updated ''Llama'']\<rparr>"
      then have "nl_controller d = c\<lparr>llama := Some r', lolpQoE := x\<rparr>" by simp
      then show ?thesis by (rule that)
    qed
    moreover have "c\<lparr>llama := b, lolpQoE := x\<rparr> =
        c\<lparr>l2aRule := l2aRule c, llama := b, stallionRule := stallionRule c, lolpQoE := x\<rparr>"
      by simp
    ultimately show ?thesis by metis
  next
    case stallion
    with D have "StallionAbr hls c = Inr d"
      by (simp add: dispatch_def)
    from StallionAbr_result [OF this] obtain r' x where
      "nl_controller d = c\<lparr>stallionRule := Some r', lolpQoE := x\<rparr>"
      by auto
    moreover have "c\<lparr>stallionRule := Some r', lolpQoE := x\<rparr> =
        c\<lparr>l2aRule := l2aRule c, llama := llama c, stallionRule := Some r', lolpQoE := x\<rparr>"
      by simp
    ultimately show ?thesis by metis
  next
    case other
    with D obtain q c' where "getNextABRAutoLevel bwe hls c = Inr (q, c')"
      and "nl_controller d = c'"
      by (auto simp: dispatch_def split: sum.splits)
    moreover from getNextABRAutoLevel_result [OF this(1)] obtain x where
      "c' = c\<lparr>lolpQoE := x\<rparr>" ..
    ultimately have "nl_controller d = c\<lparr>lolpQoE := x\<rparr>" by simp
    with same [of x] show ?thesis by metis
  qed
qed

lemma dispatch_active:
  assumes D: "dispatch bwe rnd isSafari hls c = Inr d" and tag: "tag \<in> storedTags"
    and act: "ABRRule c = tag"
  shows "if held tag c
         then held tag (nl_controller d) \<and> eventsOf tag (nl_events d) = [Updated tag]
         else if tag = ''Llama'' \<and> fragCurrent c = None
         then \<not> held tag (nl_controller d) \<and> eventsOf tag (nl_events d) = [] \<and> nl_level d = 0
         else held tag (nl_controller d) \<and> eventsOf tag (nl_events d) = [Constructed tag]"
proof -
  from tag consider "tag = ''L2ARule''" | "tag = ''Llama''" | "tag = ''StallionRule''"
    by (auto simp: storedTags_def)
  then show ?thesis
  proof cases
    case 1
    with D act have "L2AAbr hls c = Inr d"
      by (simp add: dispatch_def)
    from L2AAbr_result [OF this] 1 show ?thesis
      by (auto simp: held_def eventsOf_def)
  next
    case 2
    with D act have "LlamaAbr hls c = Inr d"
      by (simp add: dispatch_def)
    from LlamaAbr_result [OF this] 2 show ?thesis
      by (auto simp: held_def eventsOf_def)
  next
    case 3
    with D act have "StallionAbr hls c = Inr d"
      by (simp add: dispatch_def)
    from StallionAbr_result [OF this] 3 show ?thesis
      by (auto simp: held_def eventsOf_def)
  qed
qed


lemma eventsOf_untouched: "untouched tag evs \<Longrightarrow> eventsOf tag evs = []"
  by (auto simp: untouched_def eventsOf_def filter_empty_conv)

lemma dispatch_slots:
  assumes D: "dispatch bwe rnd isSafari hls c = Inr d"
  shows "(ABRRule c \<noteq> ''L2ARule'' \<longrightarrow>
            l2aRule (nl_controller d) = l2aRule c \<and> untouched ''L2ARule'' (nl_events d)) \<and>
         (ABRRule c \<noteq> ''Llama'' \<longrightarrow>
            llama (nl_controller d) = llama c \<and> untouched ''Llama'' (nl_events d)) \<and>
         (ABRRule c \<noteq> ''StallionRule'' \<longrightarrow>
            stallionRule (nl_controller d) = stallionRule c \<and>
            untouched ''StallionRule'' (nl_events d))"
proof -
  consider (lolp) "ABRRule c = ''LoLp''" | (l2a) "ABRRule c = ''L2ARule''"
    | (llama) "ABRRule c = ''Llama''" | (stallion) "ABRRule c = ''StallionRule''"
    | (other) "ABRRule c \<noteq> ''LoLp''" "ABRRule c \<noteq> ''L2ARule''" "ABRRule c \<noteq> ''Llama''"
        "ABRRule c \<noteq> ''StallionRule''"
    by blast
  then show ?thesis
  proof cases
    case lolp
    with D have "lolpLearningAbr rnd isSafari hls c = Inr d"
      by (simp add: dispatch_def)
    from lolpLearningAbr_result [OF this] obtain x where
      "nl_controller d = c\<lparr>lolpQoE := x\<rparr>" "nl_events d = [Constructed ''LoLp'']"
      by blast
    then show ?thesis by (simp add: untouched_def)
  next
    case l2a
    with D have "L2AAbr hls c = Inr d"
      by (simp add: dispatch_def)
    from L2AAbr_result [OF this] obtain q r' x where
      "d = \<lparr>nl_level = q, nl_controller = c\<lparr>l2aRule := Some r', lolpQoE := x\<rparr>,
            nl_media = media hls,
            nl_events = [if l2aRule c = None then Constructed ''L2ARule''
                         else Updated ''L2ARule'']\<rparr>"
      by blast
    with l2a show ?thesis by (simp add: untouched_def)
  next
    case llama
    with D have "LlamaAbr hls c = Inr d"
      by (simp add: dispatch_def)
    from LlamaAbr_result [OF this] show ?thesis
    proof (elim disjE conjE exE)
      fix x
      assume "d = \<lparr>nl_level = 0, nl_controller = c\<lparr>lolpQoE := x\<rparr>, nl_media = media hls,
                    nl_events = []\<rparr>"
      with llama show ?thesis by (simp add: untouched_def)
    next
      fix q r' x
      assume "d = \<lparr>nl_level = q, nl_controller = c\<lparr>llama := Some r', lolpQoE := x\<rparr>,
                    nl_media = media hls,
                    nl_events = [if llama c = None then Constructed ''Llama''
                                 else Updated ''Llama'']\<rparr>"
      with llama show ?thesis by (simp add: untouched_def)
    qed
  next
    case stallion
    with D have "StallionAbr hls c = Inr d"
      by (simp add: dispatch_def)
    from StallionAbr_result [OF this] obtain q r' x where
      "d = \<lparr>nl_level = q, nl_controller = c\<lparr>stallionRule := Some r', lolpQoE := x\<rparr>,
            nl_media = media hls,
            nl_events = [if stallionRule c = None then Constructed ''StallionRule''
                         else Updated ''StallionRule'']\<rparr>"
      by blast
    with stallion show ?thesis by (simp add: untouched_def)
  next
    case other
    with D obtain q c' where "getNextABRAutoLevel bwe hls c = Inr (q, c')"
      and d: "nl_controller d = c'" "nl_events d = []"
      by (auto simp: dispatch_def split: sum.splits)
    from getNextABRAutoLevel_result [OF this(1)] obtain x where
      "c' = c\<lparr>lolpQoE := x\<rparr>" ..
    with d show ?thesis
      by (simp add: untouched_def)
  qed
qed

lemma dispatch_inactive:
  assumes D: "dispatch bwe rnd isSafari hls c = Inr d" and tag: "tag \<in> storedTags"
    and inact: "ABRRule c \<noteq> tag"
  shows "held tag (nl_controller d) = held tag c \<and> eventsOf tag (nl_events d) = []"
proof -
  note s = dispatch_slots [OF D]
  from tag consider "tag = ''L2ARule''" | "tag = ''Llama''" | "tag = ''StallionRule''"
    by (auto simp: storedTags_def)
  then show ?thesis
  proof cases
    case 1
    with s inact have "l2aRule (nl_controller d) = l2aRule c" "untouched tag (nl_events d)"
      by simp_all
    with 1 show ?thesis by (simp add: held_def eventsOf_untouched)
  next
    case 2
    with s inact have "llama (nl_controller d) = llama c" "untouched tag (nl_events d)"
      by simp_all
    with 2 show ?thesis by (simp add: held_def eventsOf_untouched)
  next
    case 3
    with s inact have "stallionRule (nl_controller d) = stallionRule c"
      "untouched tag (nl_events d)"
      by simp_all
    with 3 show ?thesis by (simp add: held_def eventsOf_untouched)
  qed
qed

lemma bitrateRangeKbps_returns:
  "L \<noteq> [] \<Longrightarrow> \<exists>r. bitrateRangeKbps L = Inr r"
  by (cases L) (simp_all add: bitrateRangeKbps_def)

lemma segmentEvaluator_returns:
  assumes "L \<noteq> []" and "k < length L"
  shows "\<exists>ev. segmentEvaluator L k f lat sp = Inr ev"
proof -
  from bitrateRangeKbps_returns [OF assms(1)] obtain mn mx where
    "bitrateRangeKbps L = Inr (mn, mx)" by force
  with assms(2) show ?thesis by (simp add: segmentEvaluator_def Let_def)
qed

lemma calculateQoE_returns:
  assumes "levels hls \<noteq> []" and "lastLoadedFragLevel c < length (levels hls)"
  shows "\<exists>x. calculateQoE hls c = Inr (c\<lparr>lolpQoE := x\<rparr>)"
proof (cases "fragCurrent c")
  case None
  then have "calculateQoE hls c = Inr (c\<lparr>lolpQoE := QoeNull\<rparr>)"
    by (simp add: calculateQoE_def)
  then show ?thesis ..
next
  case (Some frag)
  from segmentEvaluator_returns [OF assms] obtain ev where
    "segmentEvaluator (levels hls) (lastLoadedFragLevel c) frag (latency hls)
       (case media hls of Some m \<Rightarrow> playbackRate m | None \<Rightarrow> 1) = Inr ev" by blast
  with Some have "calculateQoE hls c =
      Inr (c\<lparr>lolpQoE := (case media hls of None \<Rightarrow> QoeNaN
                              | Some m \<Rightarrow> perSegmentTotalQoe ev)\<rparr>)"
    by (simp add: calculateQoE_def)
  then show ?thesis ..
qed

lemma hlsP_levels: "levels hlsP = ladder" and hlsP_media: "media hlsP = Some playingMedia"
  and hlsP_length: "length (levels hlsP) = 4" and hlsP_ne: "levels hlsP \<noteq> []"
  and hlsP_same: "hlsP\<lparr>media := Some playingMedia\<rparr> = hlsP"
  by (simp_all add: hlsP_def mkHls_def ladder_def)

lemma stallion_scenario:
  assumes "ABRRule c = ''StallionRule''" and "lastABRRule c = ''LoLp''"
    and "forcedAutoLevel c = - 1" and "lastLoadedFragLevel c = 0"
  shows "\<exists>q r' x. nextAutoLevel noEstimator rnd isSafari hlsP c =
           Inr \<lparr>nl_level = q, nl_controller = c\<lparr>stallionRule := Some r', lolpQoE := x\<rparr>,
                nl_media = Some playingMedia,
                nl_events = [if stallionRule c = None then Constructed ''StallionRule''
                             else Updated ''StallionRule'']\<rparr>"
proof -
  let ?r = "case stallionRule c of
              None \<Rightarrow> StallionRule_new (fragCurrent c) (lastLoadedFragLevel c)
            | Some r0 \<Rightarrow> StallionRule_update (fragCurrent c) (lastLoadedFragLevel c) r0"
  have "sr_currentQuality ?r < length (levels hlsP)"
    by (simp add: hlsP_length assms StallionRule_new_def StallionRule_update_def
        split: option.splits)
  from stallion_getMaxIndex_valid [OF hlsP_ne this] obtain q r' where
    g: "stallion_getMaxIndex hlsP ?r = Inr (q, r')" by blast
  have "lastLoadedFragLevel (c\<lparr>stallionRule := Some r'\<rparr>) < length (levels hlsP)"
    by (simp add: hlsP_length assms)
  from calculateQoE_returns [OF hlsP_ne this] obtain x where
    q: "calculateQoE hlsP (c\<lparr>stallionRule := Some r'\<rparr>) =
          Inr (c\<lparr>stallionRule := Some r', lolpQoE := x\<rparr>)" by auto
  have rr: "releaseRules c = (c, [])"
    by (simp add: releaseRules_def assms)
  have "StallionAbr hlsP c =
          Inr \<lparr>nl_level = int q, nl_controller = c\<lparr>stallionRule := Some r', lolpQoE := x\<rparr>,
               nl_media = Some playingMedia,
               nl_events = [if stallionRule c = None then Constructed ''StallionRule''
                            else Updated ''StallionRule'']\<rparr>"
    using g q by (cases "stallionRule c") (simp_all add: StallionAbr_def withQoE_def hlsP_media)
  then have "nextAutoLevel noEstimator rnd isSafari hlsP c =
          Inr \<lparr>nl_level = int q, nl_controller = c\<lparr>stallionRule := Some r', lolpQoE := x\<rparr>,
               nl_media = Some playingMedia,
               nl_events = [if stallionRule c = None then Constructed ''StallionRule''
                            else Updated ''StallionRule'']\<rparr>"
    by (simp add: nextAutoLevel_def rr dispatch_def assms)
  then show ?thesis by blast
qed

lemma toFixed2_1: "toFixed2 1 = 1"
proof -
  have "\<lfloor>(201 :: real) / 2\<rfloor> = 100" by linarith
  then show ?thesis by (simp add: toFixed2_def)
qed

lemma getNextQuality_scenario:
  assumes "ws_segmentDuration ws = 2" and "ws_bufferMin ws = 3 / 10"
  shows "\<exists>ctl. getNextQuality (\<lambda>k. 0) ladder 400000 0 1 1 0 ws LearningAbrController_new
           = Inr (0, ctl, ws)"
proof -
  obtain m where mag: "getMagnitude (map bitrate ladder) = Inr m"
    by (simp add: getMagnitude_def js_reduce_def ladder_def mkLevel_def)
  have ne: "buildNeurons ladder m \<noteq> []" by (simp add: buildNeurons_ladder)
  from kmeans_zero [OF this] obtain cs where
    km: "getInitialKmeansPlusPlusCenters (\<lambda>k. 0) (buildNeurons ladder m) = Inr cs" ..
  have "ladder \<noteq> []" by (simp add: ladder_def)
  from getSomBitrateNeurons_fresh [OF _ this mag km, of LearningAbrController_new]
  obtain ctl where som: "getSomBitrateNeurons (\<lambda>k. 0) ladder LearningAbrController_new
      = Inr (buildNeurons ladder m, ctl)" and sb: "somBitrateNeurons ctl = Some (buildNeurons ladder m)"
    by (auto simp: LearningAbrController_new_def)
  have ds: "qualityIndex (getDownShiftNeuron (Some (buildNeurons ladder m))
              (buildNeurons ladder m ! 0) 400000) = 0"
    by (simp add: getDownShiftNeuron_def buildNeurons_ladder downShiftStep_def)
  have len: "length (buildNeurons ladder m) = 4"
    and nb: "n_bitrate (buildNeurons ladder m ! 0) = 300000"
    by (simp_all add: buildNeurons_ladder)
  show ?thesis
    unfolding getNextQuality_def som
    by (simp add: Let_def sb ds len nb ne assms)
qed

lemma LoLpWeightSelector_new_returns:
  "\<exists>ws. LoLpWeightSelector_new tgt bmin sdur ev = Some ws \<and> ws_segmentDuration ws = sdur \<and>
        ws_bufferMin ws = bmin"
  by (simp add: LoLpWeightSelector_new_def getPermutations_4)

lemma LoLpPlaybackSpeed_scenario: "LoLpPlaybackSpeed isSafari hlsP = 1"
  by (simp add: LoLpPlaybackSpeed_def hlsP_def mkHls_def playingMedia_def needToCatchUp_def
      lolpNeedToCatchUpCustom_def targetLatencyOr0_def toFixed2_1 liveCatchUpMinDrift_def
      playbackBufferMin_def liveCatchupLatencyThreshold_def)

lemma lolp_scenario:
  assumes "ABRRule c = ''LoLp''" and "lastABRRule c = ''LoLp''"
    and "forcedAutoLevel c = - 1" and "fragCurrent c = Some fragP"
    and "lastLoadedFragLevel c = 0"
  shows "\<exists>x. nextAutoLevel noEstimator (\<lambda>k. 0) isSafari hlsP c =
           Inr \<lparr>nl_level = 0, nl_controller = c\<lparr>lolpQoE := x\<rparr>,
                nl_media = Some playingMedia, nl_events = [Constructed ''LoLp'']\<rparr>"
proof -
  have rr: "releaseRules c = (c, [])"
    by (simp add: releaseRules_def assms)
  have "(0 :: nat) < length ladder" by (simp add: ladder_def)
  from segmentEvaluator_returns [OF _ this] obtain ev where
    ev: "segmentEvaluator ladder 0 fragP 0 1 = Inr ev" by (force simp: ladder_def)
  from LoLpWeightSelector_new_returns obtain ws where
    ws: "LoLpWeightSelector_new (3 / 2) (3 / 10) 2 ev = Some ws"
      "ws_segmentDuration ws = 2" "ws_bufferMin ws = 3 / 10"
    by blast
  from getNextQuality_scenario [OF ws(2,3)] obtain ctl where
    nq: "getNextQuality (\<lambda>k. 0) ladder 400000 0 1 1 0 ws LearningAbrController_new
           = Inr (0, ctl, ws)" ..
  have mt: "levelAt ladder 0 = Some (mkLevel 300000)" "details_type (mkLevel 300000) = None"
    by (simp_all add: levelAt_def ladder_def mkLevel_def)
  have h: "bandwidthEstimate hlsP = Some 400000" "latency hlsP = 0"
    "buf_len (bufferInfo hlsP) = 1"
    by (simp_all add: hlsP_def mkHls_def)
  have p: "playbackRate playingMedia = 1" "playingMedia\<lparr>playbackRate := 1\<rparr> = playingMedia"
    by (simp_all add: playingMedia_def)
  have f: "duration fragP = 2" by (simp add: fragP_def mkFrag_def)
  have "lolpLearningAbr (\<lambda>k. 0) isSafari hlsP c =
          Inr \<lparr>nl_level = 0, nl_controller = c\<lparr>lolpQoE := perSegmentTotalQoe ev\<rparr>,
               nl_media = Some playingMedia, nl_events = [Constructed ''LoLp'']\<rparr>"
    unfolding lolpLearningAbr_def
    by (simp add: assms hlsP_levels hlsP_media mt h p f ev ws nq toFixed2_1
        LoLpPlaybackSpeed_scenario Let_def)
  then have "nextAutoLevel noEstimator (\<lambda>k. 0) isSafari hlsP c =
          Inr \<lparr>nl_level = 0, nl_controller = c\<lparr>lolpQoE := perSegmentTotalQoe ev\<rparr>,
               nl_media = Some playingMedia, nl_events = [Constructed ''LoLp'']\<rparr>"
    by (simp add: nextAutoLevel_def rr dispatch_def assms)
  then show ?thesis ..
qed


lemma l2a_scenario:
  assumes "ABRRule c = ''L2ARule''" and "lastABRRule c = ''LoLp''"
    and "forcedAutoLevel c = - 1" and "lastLoadedFragLevel c = 0" and "l2aRule c = None"
  shows "\<exists>q r' x. nextAutoLevel noEstimator rnd isSafari hlsP c =
           Inr \<lparr>nl_level = q, nl_controller = c\<lparr>l2aRule := Some r', lolpQoE := x\<rparr>,
                nl_media = Some playingMedia, nl_events = [Constructed ''L2ARule'']\<rparr>"
proof -
  let ?r = "L2ARule_new (fragCurrent c) (lastLoadedFragLevel c)"
  have "l2_currentQuality ?r < length (levels hlsP)"
    by (simp add: hlsP_length assms L2ARule_new_def)
  from l2a_getMaxIndex_valid [OF hlsP_ne this l2a_wf_new] obtain q r' where
    g: "l2a_getMaxIndex hlsP ?r = Quality q r'" by blast
  have "lastLoadedFragLevel (c\<lparr>l2aRule := Some r'\<rparr>) < length (levels hlsP)"
    by (simp add: hlsP_length assms)
  from calculateQoE_returns [OF hlsP_ne this] obtain x where
    q: "calculateQoE hlsP (c\<lparr>l2aRule := Some r'\<rparr>) =
          Inr (c\<lparr>l2aRule := Some r', lolpQoE := x\<rparr>)" by auto
  have rr: "releaseRules c = (c, [])"
    by (simp add: releaseRules_def assms)
  have "L2AAbr hlsP c =
          Inr \<lparr>nl_level = int q, nl_controller = c\<lparr>l2aRule := Some r', lolpQoE := x\<rparr>,
               nl_media = Some playingMedia, nl_events = [Constructed ''L2ARule'']\<rparr>"
    using g q by (simp add: L2AAbr_def withQoE_def hlsP_media assms)
  then have "nextAutoLevel noEstimator rnd isSafari hlsP c =
          Inr \<lparr>nl_level = int q, nl_controller = c\<lparr>l2aRule := Some r', lolpQoE := x\<rparr>,
               nl_media = Some playingMedia, nl_events = [Constructed ''L2ARule'']\<rparr>"
    by (simp add: nextAutoLevel_def rr dispatch_def assms)
  then show ?thesis by blast
qed

lemma llama_scenario_no_fragment:
  "nextAutoLevel noEstimator rnd isSafari hlsP (AbrController_new\<lparr>ABRRule := ''Llama''\<rparr>) =
     Inr \<lparr>nl_level = 0, nl_controller = AbrController_new\<lparr>ABRRule := ''Llama''\<rparr>,
          nl_media = Some playingMedia, nl_events = []\<rparr>"
  by (simp add: nextAutoLevel_def releaseRules_def dispatch_def LlamaAbr_def withQoE_def
      calculateQoE_def AbrController_new_def hlsP_media)

lemma ctlP_fields:
  "ABRRule (ctlP tag) = tag" "lastABRRule (ctlP tag) = ''LoLp''"
  "forcedAutoLevel (ctlP tag) = - 1" "lastLoadedFragLevel (ctlP tag) = 0"
  "fragCurrent (ctlP tag) = Some fragP" "l2aRule (ctlP tag) = None" "llama (ctlP tag) = None"
  "stallionRule (ctlP tag) = None"
  by (simp_all add: ctlP_def AbrController_new_def)

text \<open>
  What a decision does to the three rule fields of the controller. Take one of the tags
  \<open>L2ARule\<close>, \<open>Llama\<close>, \<open>StallionRule\<close> and a decision that is computed (not answered by
  the forced level) and returns. The decision writes neither \<open>ABRRule\<close> nor \<open>lastABRRule\<close>.
  If the tag is the active one: a held rule is reused through \<open>update\<close> and stays held;
  with the field empty a rule is constructed and held, except for \<open>Llama\<close> without a
  current fragment, where nothing is constructed, the field stays empty and the decision
  is 0 (capped by a forced level). If the tag is not the active one: its rule is dropped
  when \<open>lastABRRule\<close> names the tag, and otherwise its field is left as it is.
\<close>

lemma nextAutoLevel_rule_fields:
  assumes dec: "nextAutoLevel bwe rnd isSafari hls c = Inr d"
    and computed: "forcedAutoLevel c = - 1 \<or> canEstimate bwe (bwSamples c)"
    and tag: "tag \<in> storedTags"
  shows "ABRRule (nl_controller d) = ABRRule c \<and>
         lastABRRule (nl_controller d) = lastABRRule c \<and>
         (ABRRule c = tag \<longrightarrow>
            (if held tag c
             then held tag (nl_controller d) \<and> eventsOf tag (nl_events d) = [Updated tag]
             else if tag = ''Llama'' \<and> fragCurrent c = None
             then \<not> held tag (nl_controller d) \<and> eventsOf tag (nl_events d) = [] \<and>
                  nl_level d = (if forcedAutoLevel c = - 1 then 0 else min (forcedAutoLevel c) 0)
             else held tag (nl_controller d) \<and>
                  eventsOf tag (nl_events d) = [Constructed tag])) \<and>
         (ABRRule c \<noteq> tag \<longrightarrow>
            (if lastABRRule c = tag
             then \<not> held tag (nl_controller d) \<and>
                  eventsOf tag (nl_events d) = (if held tag c then [Released tag] else [])
             else held tag (nl_controller d) = held tag c \<and>
                  eventsOf tag (nl_events d) = []))"
proof -
  obtain c1 released where rr: "releaseRules c = (c1, released)"
    by (cases "releaseRules c")
  from releaseRules_slots [OF rr tag]
  have r1: "ABRRule c1 = ABRRule c" and r2: "lastABRRule c1 = lastABRRule c"
    and r3: "fragCurrent c1 = fragCurrent c"
    and r4: "held tag c1 = (held tag c \<and> \<not> (lastABRRule c = tag \<and> ABRRule c \<noteq> tag))"
    and r5: "eventsOf tag released =
               (if lastABRRule c = tag \<and> ABRRule c \<noteq> tag \<and> held tag c then [Released tag]
                else [])"
    by blast+
  obtain d0 where D: "dispatch bwe rnd isSafari hls c1 = Inr d0"
    and d1: "nl_controller d = nl_controller d0"
    and d2: "nl_events d = released @ nl_events d0"
    and d3: "nl_level d = (if forcedAutoLevel c \<noteq> - 1 then min (forcedAutoLevel c) (nl_level d0)
                           else nl_level d0)"
    using dec computed rr by (auto simp: nextAutoLevel_def split: sum.splits)
  from dispatch_tags [OF D] obtain a b e x where
    "nl_controller d0 = c1\<lparr>l2aRule := a, llama := b, stallionRule := e, lolpQoE := x\<rparr>"
    by blast
  with d1 r1 r2 have tags: "ABRRule (nl_controller d) = ABRRule c"
    "lastABRRule (nl_controller d) = lastABRRule c"
    by simp_all
  have ev: "eventsOf tag (nl_events d) = eventsOf tag released @ eventsOf tag (nl_events d0)"
    by (simp add: d2 eventsOf_append)
  have active: ?thesis if act: "ABRRule c = tag"
  proof -
    from act r1 have "ABRRule c1 = tag" by simp
    note a = dispatch_active [OF D tag this]
    from act r4 have h: "held tag c1 = held tag c" by simp
    from act r5 have rel: "eventsOf tag released = []" by simp
    have e: "eventsOf tag (nl_events d) = eventsOf tag (nl_events d0)"
      by (simp add: ev rel)
    have l: "nl_level d0 = 0 \<Longrightarrow>
             nl_level d = (if forcedAutoLevel c = - 1 then 0 else min (forcedAutoLevel c) 0)"
      by (simp add: d3)
    show ?thesis
    proof (cases "held tag c")
      case True
      with a h have "held tag (nl_controller d0) \<and> eventsOf tag (nl_events d0) = [Updated tag]"
        by simp
      with True act tags show ?thesis by (simp add: e d1)
    next
      case False
      show ?thesis
      proof (cases "tag = ''Llama'' \<and> fragCurrent c = None")
        case True
        with a h False r3
        have "\<not> held tag (nl_controller d0) \<and> eventsOf tag (nl_events d0) = [] \<and>
              nl_level d0 = 0"
          by simp
        with True False act tags l e d1 show ?thesis by simp
      next
        case nl: False
        with a h False r3
        have "held tag (nl_controller d0) \<and> eventsOf tag (nl_events d0) = [Constructed tag]"
          by auto
        with nl False act tags e d1 show ?thesis by auto
      qed
    qed
  qed
  have inactive: ?thesis if inact: "ABRRule c \<noteq> tag"
  proof -
    from inact r1 have "ABRRule c1 \<noteq> tag" by simp
    from dispatch_inactive [OF D tag this]
    have i: "held tag (nl_controller d0) = held tag c1" "eventsOf tag (nl_events d0) = []"
      by simp_all
    show ?thesis
    proof (cases "lastABRRule c = tag")
      case True
      with inact r4 have "\<not> held tag c1" by simp
      with i True inact tags show ?thesis by (simp add: ev r5 d1)
    next
      case False
      with r4 have "held tag c1 = held tag c" by simp
      with i False inact tags show ?thesis by (simp add: ev r5 d1)
    qed
  qed
  from active inactive show ?thesis by blast
qed

lemma nextAutoLevel_rule_fields_scenario:
  "\<exists>d1 d2. nextAutoLevel noEstimator (\<lambda>k. 0) False hlsP (ctlP ''StallionRule'') = Inr d1 \<and>
     nextAutoLevel noEstimator (\<lambda>k. 0) False (hlsP\<lparr>media := nl_media d1\<rparr>) (nl_controller d1)
       = Inr d2 \<and>
     held ''StallionRule'' (nl_controller d1) \<and>
     eventsOf ''StallionRule'' (nl_events d1) = [Constructed ''StallionRule''] \<and>
     held ''StallionRule'' (nl_controller d2) \<and>
     eventsOf ''StallionRule'' (nl_events d2) = [Updated ''StallionRule'']"
proof -
  let ?tag = "''StallionRule''"
  have tag: "?tag \<in> storedTags" by (simp add: storedTags_def)
  from stallion_scenario [of "ctlP ?tag" "\<lambda>k. 0" False]
  obtain d1 where
    d1: "nextAutoLevel noEstimator (\<lambda>k. 0) False hlsP (ctlP ?tag) = Inr d1"
    and m1: "nl_media d1 = Some playingMedia"
    and c1: "ABRRule (nl_controller d1) = ?tag" "lastABRRule (nl_controller d1) = ''LoLp''"
      "forcedAutoLevel (nl_controller d1) = - 1" "lastLoadedFragLevel (nl_controller d1) = 0"
    by (auto simp: ctlP_fields)
  from stallion_scenario [OF c1, of "\<lambda>k. 0" False]
  obtain d2 where
    d2: "nextAutoLevel noEstimator (\<lambda>k. 0) False hlsP (nl_controller d1) = Inr d2"
    by blast
  have nh: "\<not> held ?tag (ctlP ?tag)" by (simp add: held_def ctlP_fields)
  from nextAutoLevel_rule_fields [OF d1 _ tag] nh
  have s1: "held ?tag (nl_controller d1)"
    "eventsOf ?tag (nl_events d1) = [Constructed ?tag]"
    by (simp_all add: ctlP_fields)
  from nextAutoLevel_rule_fields [OF d2 _ tag] s1(1) c1
  have s2: "held ?tag (nl_controller d2)" "eventsOf ?tag (nl_events d2) = [Updated ?tag]"
    by simp_all
  from d1 d2 m1 s1 s2 show ?thesis
    by (auto simp: hlsP_same)
qed

text \<open>
  C5. The orchestrator does not hold one rule per active tag. With the tag \<open>LoLp\<close> no rule
  is held at all: \<open>_lolpLearningAbr\<close> starts with \<open>new LearningAbrController()\<close>, so each of
  two successive decisions constructs a controller of its own, where the other three tags
  construct once and then call \<open>update\<close>. And a rule is not released when the active tag
  changes: no decision writes \<open>lastABRRule\<close>, so after a decision with the tag
  \<open>StallionRule\<close> it still is \<open>LoLp\<close>, and a decision with the tag \<open>L2ARule\<close> then
  constructs an L2A-LL rule while the Stallion rule stays in its field.
\<close>

theorem C5_rules_neither_held_nor_released:
  "(\<exists>d1 d2. nextAutoLevel noEstimator (\<lambda>k. 0) False hlsP (ctlP ''LoLp'') = Inr d1 \<and>
      nextAutoLevel noEstimator (\<lambda>k. 0) False (hlsP\<lparr>media := nl_media d1\<rparr>) (nl_controller d1)
        = Inr d2 \<and>
      nl_events d1 = [Constructed ''LoLp''] \<and> nl_events d2 = [Constructed ''LoLp'']) \<and>
   (\<exists>d1 d2. nextAutoLevel noEstimator (\<lambda>k. 0) False hlsP (ctlP ''StallionRule'') = Inr d1 \<and>
      nextAutoLevel noEstimator (\<lambda>k. 0) False (hlsP\<lparr>media := nl_media d1\<rparr>)
        ((nl_controller d1)\<lparr>ABRRule := ''L2ARule''\<rparr>) = Inr d2 \<and>
      nl_events d1 = [Constructed ''StallionRule''] \<and>
      lastABRRule (nl_controller d1) = ''LoLp'' \<and>
      nl_events d2 = [Constructed ''L2ARule''] \<and>
      stallionRule (nl_controller d2) \<noteq> None \<and> l2aRule (nl_controller d2) \<noteq> None)"
proof (intro conjI)
  from lolp_scenario [of "ctlP ''LoLp''" False] obtain x where
    d1: "nextAutoLevel noEstimator (\<lambda>k. 0) False hlsP (ctlP ''LoLp'') =
           Inr \<lparr>nl_level = 0, nl_controller = (ctlP ''LoLp'')\<lparr>lolpQoE := x\<rparr>,
                nl_media = Some playingMedia, nl_events = [Constructed ''LoLp'']\<rparr>"
    by (auto simp: ctlP_fields)
  from lolp_scenario [of "(ctlP ''LoLp'')\<lparr>lolpQoE := x\<rparr>" False] obtain y where
    d2: "nextAutoLevel noEstimator (\<lambda>k. 0) False hlsP ((ctlP ''LoLp'')\<lparr>lolpQoE := x\<rparr>) =
           Inr \<lparr>nl_level = 0, nl_controller = (ctlP ''LoLp'')\<lparr>lolpQoE := y\<rparr>,
                nl_media = Some playingMedia, nl_events = [Constructed ''LoLp'']\<rparr>"
    by (auto simp: ctlP_fields)
  from d1 d2
  show "\<exists>d1 d2. nextAutoLevel noEstimator (\<lambda>k. 0) False hlsP (ctlP ''LoLp'') = Inr d1 \<and>
      nextAutoLevel noEstimator (\<lambda>k. 0) False (hlsP\<lparr>media := nl_media d1\<rparr>) (nl_controller d1)
        = Inr d2 \<and>
      nl_events d1 = [Constructed ''LoLp''] \<and> nl_events d2 = [Constructed ''LoLp'']"
    by (simp add: hlsP_same)
next
  from stallion_scenario [of "ctlP ''StallionRule''" "\<lambda>k. 0" False] obtain q r' x where
    d1: "nextAutoLevel noEstimator (\<lambda>k. 0) False hlsP (ctlP ''StallionRule'') =
           Inr \<lparr>nl_level = q,
                nl_controller = (ctlP ''StallionRule'')\<lparr>stallionRule := Some r', lolpQoE := x\<rparr>,
                nl_media = Some playingMedia, nl_events = [Constructed ''StallionRule'']\<rparr>"
    by (auto simp: ctlP_fields)
  let ?c2 = "(ctlP ''StallionRule'')\<lparr>stallionRule := Some r', lolpQoE := x,
               ABRRule := ''L2ARule''\<rparr>"
  from l2a_scenario [of ?c2 "\<lambda>k. 0" False] obtain q2 r2 x2 where
    d2: "nextAutoLevel noEstimator (\<lambda>k. 0) False hlsP ?c2 =
           Inr \<lparr>nl_level = q2, nl_controller = ?c2\<lparr>l2aRule := Some r2, lolpQoE := x2\<rparr>,
                nl_media = Some playingMedia, nl_events = [Constructed ''L2ARule'']\<rparr>"
    by (auto simp: ctlP_fields)
  from d1 d2
  show "\<exists>d1 d2. nextAutoLevel noEstimator (\<lambda>k. 0) False hlsP (ctlP ''StallionRule'') = Inr d1 \<and>
      nextAutoLevel noEstimator (\<lambda>k. 0) False (hlsP\<lparr>media := nl_media d1\<rparr>)
        ((nl_controller d1)\<lparr>ABRRule := ''L2ARule''\<rparr>) = Inr d2 \<and>
      nl_events d1 = [Constructed ''StallionRule''] \<and>
      lastABRRule (nl_controller d1) = ''LoLp'' \<and>
      nl_events d2 = [Constructed ''L2ARule''] \<and>
      stallionRule (nl_controller d2) \<noteq> None \<and> l2aRule (nl_controller d2) \<noteq> None"
    by (simp add: hlsP_same ctlP_fields)
qed

end
